(* ===== verification/Prelude.thy ===== *)
theory Prelude
  imports Main "HOL-Library.Word" "HOL-Library.Sublist"
begin

text \<open>
  Shared vocabulary of the development: the machine integers of the Rust sources as words, Rust's
  saturating arithmetic on them with its reading in the natural numbers, ASCII text matching, the
  \<open>Result\<close> type, and the collections of facts that the component theories add to.

  A value of type \<open>'a word\<close> with the width of the source type stands for each integer type:
  \<open>u32\<close>, \<open>u64\<close> and \<open>usize\<close> (64-bit targets), \<open>u128\<close>, and \<open>U256\<close>, \<open>Address\<close>, \<open>B256\<close> and
  \<open>Uuid\<close>, which are fixed-width bit strings. Byte strings are lists of bytes.
\<close>

section \<open>Types\<close>

type_synonym u8 = "8 word"
type_synonym u32 = "32 word"
type_synonym u64 = "64 word"
type_synonym usize = "64 word"
type_synonym u128 = "128 word"
type_synonym u256 = "256 word"
type_synonym uuid = "128 word"
type_synonym address = "160 word"
type_synonym b256 = "256 word"
type_synonym bytes = "8 word list"

text \<open>Wall-clock timestamps (\<open>DateTime<Utc>\<close>) in microseconds, monotonic instants in nanoseconds.\<close>

type_synonym timestamp = int
type_synonym instant = nat
type_synonym duration = nat

text \<open>\<open>Result<T, E>\<close>: the error on the left.\<close>

type_synonym ('a, 'e) result = "'e + 'a"

abbreviation Ok :: "'a \<Rightarrow> ('a, 'e) result" where
  "Ok x \<equiv> Inr x"

abbreviation Err :: "'e \<Rightarrow> ('a, 'e) result" where
  "Err e \<equiv> Inl e"

text \<open>The \<open>?\<close> operator: an error ends the enclosing function.\<close>

definition and_then :: "('a, 'e) result \<Rightarrow> ('a \<Rightarrow> ('b, 'e) result) \<Rightarrow> ('b, 'e) result" where
  "and_then x f = (case x of Err e \<Rightarrow> Err e | Ok v \<Rightarrow> f v)"

lemma and_then_simps [simp]: "and_then (Ok v) f = f v" "and_then (Err e) f = Err e"
  by (simp_all add: and_then_def)

lemma and_then_eq_Ok: "and_then x f = Ok w \<longleftrightarrow> (\<exists>v. x = Ok v \<and> f v = Ok w)"
  by (cases x) simp_all

lemma and_then_cong [fundef_cong]:
  "x = x' \<Longrightarrow> (\<And>v. x' = Ok v \<Longrightarrow> f v = g v) \<Longrightarrow> and_then x f = and_then x' g"
  by (cases x') simp_all

text \<open>Collecting an iterator of results: the first error wins.\<close>

fun collect_results :: "('a, 'e) result list \<Rightarrow> ('a list, 'e) result" where
  "collect_results [] = Ok []"
| "collect_results (x # xs) = and_then x (\<lambda>v. and_then (collect_results xs) (\<lambda>vs. Ok (v # vs)))"

lemma collect_results_Ok: "collect_results (map (\<lambda>x. Ok (f x)) xs) = Ok (map f xs)"
  by (induction xs) simp_all

text \<open>JSON values as \<open>serde_json::Value\<close> has them (numbers by their text); the store keeps receipts
  and webhook bodies in this form.\<close>

datatype json = JNull | JBool bool | JNum int | JStr string | JArr "json list" | JObj "(string \<times> json) list"

section \<open>Collections of facts\<close>

named_theorems sat_nat \<open>saturating word arithmetic read in nat\<close>
named_theorems word_nat \<open>word comparisons read in nat\<close>
named_theorems sql_simps \<open>effect of an UPDATE, INSERT or DELETE on queries\<close>
named_theorems step_defs \<open>definitions of the operations of a step relation\<close>

section \<open>Saturating arithmetic\<close>

definition sat_add :: "'a::len word \<Rightarrow> 'a word \<Rightarrow> 'a word" where
  "sat_add x y = (if unat x + unat y < 2 ^ LENGTH('a) then x + y else - 1)"

definition sat_sub :: "'a::len word \<Rightarrow> 'a word \<Rightarrow> 'a word" where
  "sat_sub x y = (if y \<le> x then x - y else 0)"

definition sat_mul :: "'a::len word \<Rightarrow> 'a word \<Rightarrow> 'a word" where
  "sat_mul x y = (if unat x * unat y < 2 ^ LENGTH('a) then x * y else - 1)"

text \<open>\<open>saturating_to::<T>()\<close> between widths; a widening conversion is \<open>ucast\<close>.\<close>

definition sat_cast :: "'a::len word \<Rightarrow> 'b::len word" where
  "sat_cast x = (if unat x < 2 ^ LENGTH('b) then ucast x else - 1)"

text \<open>\<open>div_ceil\<close>, which rounds up without an intermediate overflow.\<close>

definition div_ceil :: "'a::len word \<Rightarrow> 'a word \<Rightarrow> 'a word" where
  "div_ceil x y = (if x mod y = 0 then x div y else x div y + 1)"

lemma unat_minus_1 [sat_nat]: "unat (- 1 :: 'a::len word) = 2 ^ LENGTH('a) - 1"
  by (simp add: unat_eq_nat_uint uint_word_ariths nat_mod_distrib nat_diff_distrib zmod_minus1 nat_power_eq)

lemma unat_lt_pow: "unat (x :: 'a::len word) < 2 ^ LENGTH('a)"
  by (rule unsigned_less)

lemma unat_le_max: "unat (x :: 'a::len word) \<le> 2 ^ LENGTH('a) - 1"
  using unsigned_less [of x] by (simp add: le_diff_conv2 Suc_leI)

lemma pow_len_pos: "0 < (2 :: nat) ^ LENGTH('a::len)"
  by simp

lemma unat_sat_add [sat_nat]:
  "unat (sat_add x y) = min (unat x + unat y) (2 ^ LENGTH('a) - 1)" for x y :: "'a::len word"
  by (auto simp: sat_add_def unat_word_ariths unat_minus_1 min_def)

lemma unat_sat_sub [sat_nat]: "unat (sat_sub x y) = unat x - unat y"
  by (auto simp: sat_sub_def unat_sub word_le_nat_alt)

lemma unat_sat_mul [sat_nat]:
  "unat (sat_mul x y) = min (unat x * unat y) (2 ^ LENGTH('a) - 1)" for x y :: "'a::len word"
proof (cases "unat x * unat y < 2 ^ LENGTH('a)")
  case True
  then show ?thesis by (simp add: sat_mul_def unat_word_ariths)
next
  case False
  then have "2 ^ LENGTH('a) - 1 \<le> unat x * unat y" by linarith
  with False show ?thesis by (simp only: sat_mul_def unat_minus_1 if_False min_absorb2)
qed

lemma unat_sat_cast [sat_nat]:
  "unat (sat_cast x :: 'b::len word) = min (unat x) (2 ^ LENGTH('b) - 1)"
  by (auto simp: sat_cast_def unat_minus_1 min_def unsigned_ucast_eq take_bit_nat_eq_self)

lemma unat_max [sat_nat]: "unat (max x y) = max (unat x) (unat y)"
  by (simp add: max_def word_le_nat_alt)

lemma unat_min [sat_nat]: "unat (min x y) = min (unat x) (unat y)"
  by (simp add: min_def word_le_nat_alt)

lemmas [word_nat] = word_le_nat_alt word_less_nat_alt word_unat_eq_iff

lemma sat_add_0 [simp]: "sat_add x 0 = x" "sat_add 0 x = x"
  by (simp_all add: sat_add_def)

lemma sat_sub_0 [simp]: "sat_sub x 0 = x"
  by (simp add: sat_sub_def)

lemma sat_sub_le [simp]: "sat_sub x y \<le> x"
  by (simp add: word_nat sat_nat)

lemma sat_add_mono: "a \<le> b \<Longrightarrow> c \<le> d \<Longrightarrow> sat_add a c \<le> sat_add b d"
  by (simp add: word_nat sat_nat min_def)

lemma sat_mul_mono: "a \<le> b \<Longrightarrow> c \<le> d \<Longrightarrow> sat_mul a c \<le> sat_mul b d"
  using mult_le_mono [of "unat a" "unat b" "unat c" "unat d"]
  by (auto simp: word_nat sat_nat min_def)

lemma sat_add_ge: "x \<le> sat_add x y" "y \<le> sat_add x y"
  using unat_le_max [of x] unat_le_max [of y] by (simp_all add: word_nat sat_nat)

lemma sat_add_assoc: "sat_add (sat_add x y) z = sat_add x (sat_add y z)"
proof -
  have "min (min a M + c) M = min (a + c) M" "min (a + min c M) M = min (a + c) M"
    for a c M :: nat by (simp_all add: min_def)
  then show ?thesis by (simp only: word_nat sat_nat add.assoc)
qed

lemma sat_add_commute: "sat_add x y = sat_add y x"
  by (simp add: word_nat sat_nat add.commute)

lemma sat_sub_add_cancel:
  "unat x + unat y < 2 ^ LENGTH('a) \<Longrightarrow> sat_sub (sat_add x y) y = x" for x y :: "'a::len word"
  by (simp add: word_nat sat_nat)

lemma sat_add_sub_cancel: "y \<le> x \<Longrightarrow> sat_add (sat_sub x y) y = x"
  using unat_le_max [of x] by (simp add: word_nat sat_nat)

lemma nat_div_round_up:
  fixes a b :: nat
  assumes "a mod b \<noteq> 0" and "0 < b"
  shows "(a + b - 1) div b = a div b + 1"
proof -
  have "0 < a" using assms(1) by (cases a) simp_all
  then have "a + b - 1 = (a - 1) + b" by simp
  then have "(a + b - 1) div b = (a - 1) div b + 1" by (simp only: div_add_self2 [OF assms(2) [THEN gr_implies_not_zero]])
  moreover have "(a - 1) div b = a div b"
  proof (rule div_nat_eqI)
    have "0 < a mod b" using assms(1) by simp
    then show "b * (a div b) \<le> a - 1" using mult_div_mod_eq [of b a] by linarith
    have "a < b * Suc (a div b)" using dividend_less_times_div [OF assms(2), of a] by simp
    then show "a - 1 < b * Suc (a div b)" by linarith
  qed
  ultimately show ?thesis by simp
qed

lemma unat_div_ceil:
  assumes "0 < unat y"
  shows "unat (div_ceil x y) = (unat x + unat y - 1) div unat y"
proof (cases "unat x mod unat y = 0")
  case True
  then obtain q where q: "unat x = unat y * q" by auto
  with assms have "(unat x + unat y - 1) div unat y = q"
    by (simp add: div_nat_eqI)
  with q assms True show ?thesis
    by (simp add: div_ceil_def word_nat unat_div unat_mod)
next
  case False
  then have m: "x mod y \<noteq> 0" by (simp add: word_nat unat_mod)
  have lt: "unat x div unat y < 2 ^ LENGTH('a) - 1"
  proof -
    have "unat y \<noteq> 1" using False by auto
    with assms have "2 \<le> unat y" by linarith
    moreover have "0 < unat x" using False by (metis mod_0 neq0_conv)
    ultimately have "unat x div unat y < unat x" by (simp add: div_less_dividend)
    with unat_le_max [of x] show ?thesis by linarith
  qed
  have "unat (x div y + 1) = unat x div unat y + 1"
    using lt by (subst unat_word_ariths) (simp add: unat_div)
  moreover have "(unat x + unat y - 1) div unat y = unat x div unat y + 1"
    using False assms by (rule nat_div_round_up)
  ultimately show ?thesis using m by (simp add: div_ceil_def)
qed

lemma unat_ucast_widen:
  "LENGTH('a::len) \<le> LENGTH('b::len) \<Longrightarrow> unat (ucast (x :: 'a word) :: 'b word) = unat x"
  by (simp add: unsigned_ucast_eq take_bit_nat_eq_self order_less_le_trans [OF unat_lt_pow])

section \<open>Text\<close>

text \<open>Node messages are matched case-insensitively by substring. Messages are taken as ASCII; letters
  outside ASCII are left as they are.\<close>

definition char_lower :: "char \<Rightarrow> char" where
  "char_lower c = (let n = of_char c :: nat in if 65 \<le> n \<and> n \<le> 90 then char_of (n + 32) else c)"

definition to_lowercase :: "string \<Rightarrow> string" where
  "to_lowercase s = map char_lower s"

fun str_contains :: "string \<Rightarrow> string \<Rightarrow> bool" where
  "str_contains [] n = (n = [])"
| "str_contains (c # cs) n = (prefix n (c # cs) \<or> str_contains cs n)"

lemma str_contains_sublist: "str_contains s n \<longleftrightarrow> sublist n s"
  by (induction s n rule: str_contains.induct) (auto simp: sublist_Cons_right)

definition str_starts_with :: "string \<Rightarrow> string \<Rightarrow> bool" where
  "str_starts_with s p = prefix p s"

section \<open>Lists and options\<close>

lemma distinct_map_inj: "distinct (map f xs) \<Longrightarrow> x \<in> set xs \<Longrightarrow> y \<in> set xs \<Longrightarrow> f x = f y \<Longrightarrow> x = y"
  by (auto simp: distinct_map inj_on_def)

lemma set_butlast_last: "x \<in> set xs \<Longrightarrow> x = last xs \<or> x \<in> set (butlast xs)"
  by (induction xs) auto

lemma fold_sat_add_ge: "acc \<le> fold (\<lambda>v a. sat_add a v) vs acc"
  by (induction vs arbitrary: acc) (auto intro: order_trans sat_add_ge)

end
