(* ===== verification/Domain.thy ===== *)
theory Domain
  imports Prelude
begin

text \<open>
  The core domain types of \<^verbatim>\<open>crates/gum-engine/src/domain.rs\<close> and the error taxonomy of
  \<^verbatim>\<open>crates/gum-engine/src/error.rs\<close>: the status enumerations with the textual form the database
  and the API use, the job request, the queued job, the signed attempt, the inclusion facts and the
  errors every layer returns. The round-trip lemmas say that what is written to a status column is
  read back as the same status.
\<close>

section \<open>Identifiers\<close>

type_synonym job_id = uuid
type_synonym chain_id = u64

text \<open>\<open>format!("{a:#x}")\<close> prints every nibble of the fixed-width value, lowest last.\<close>

definition hex_digit :: "nat \<Rightarrow> char" where
  "hex_digit n = ''0123456789abcdef'' ! n"

text \<open>Decimal text of a number, as \<open>format!("{}")\<close> prints it.\<close>

fun dec_str :: "nat \<Rightarrow> string" where
  "dec_str n = (if n < 10 then [hex_digit n] else dec_str (n div 10) @ [hex_digit (n mod 10)])"

declare dec_str.simps [simp del]

fun hex_nibbles :: "nat \<Rightarrow> nat \<Rightarrow> string" where
  "hex_nibbles 0 n = []"
| "hex_nibbles (Suc k) n = hex_nibbles k (n div 16) @ [hex_digit (n mod 16)]"

definition addr_hex :: "address \<Rightarrow> string" where
  "addr_hex a = ''0x'' @ hex_nibbles 40 (unat a)"

definition hash_hex :: "b256 \<Rightarrow> string" where
  "hash_hex h = ''0x'' @ hex_nibbles 64 (unat h)"

record pair_key =
  pk_chain_id :: chain_id
  pk_signer :: address

section \<open>Job status and outcome\<close>

datatype job_status = Queued | Sent | Included | Confirmed | Cancelling | Failed

primrec job_status_str :: "job_status \<Rightarrow> string" where
  "job_status_str Queued = ''queued''"
| "job_status_str Sent = ''sent''"
| "job_status_str Included = ''included''"
| "job_status_str Confirmed = ''confirmed''"
| "job_status_str Cancelling = ''cancelling''"
| "job_status_str Failed = ''failed''"

definition job_status_from_str :: "string \<Rightarrow> (job_status, string) result" where
  "job_status_from_str s =
     (if s = ''queued'' then Ok Queued
      else if s = ''sent'' then Ok Sent
      else if s = ''included'' then Ok Included
      else if s = ''confirmed'' then Ok Confirmed
      else if s = ''cancelling'' then Ok Cancelling
      else if s = ''failed'' then Ok Failed
      else Err (''unknown job status `'' @ s @ ''`''))"

definition is_terminal :: "job_status \<Rightarrow> bool" where
  "is_terminal s = (s = Confirmed \<or> s = Failed)"

datatype outcome = Success | Reverted

primrec outcome_str :: "outcome \<Rightarrow> string" where
  "outcome_str Success = ''success''"
| "outcome_str Reverted = ''reverted''"

definition from_receipt_status :: "bool \<Rightarrow> outcome" where
  "from_receipt_status ok = (if ok then Success else Reverted)"

definition outcome_from_str :: "string \<Rightarrow> (outcome, string) result" where
  "outcome_from_str s =
     (if s = ''success'' then Ok Success
      else if s = ''reverted'' then Ok Reverted
      else Err (''unknown outcome `'' @ s @ ''`''))"

section \<open>Requests and attempts\<close>

record job_request =
  rq_chain_id :: chain_id
  rq_to :: address
  rq_data :: bytes
  rq_value :: u256
  rq_gas_limit :: "u64 option"
  rq_deadline :: "timestamp option"
  rq_webhook_url :: string

record queued_job =
  qj_id :: job_id
  qj_request :: job_request
  qj_requeue_count :: u32
  qj_created_at :: timestamp
  qj_enqueued_at :: instant

datatype attempt_purpose = PJob | PTopup | PCancel

primrec purpose_str :: "attempt_purpose \<Rightarrow> string" where
  "purpose_str PJob = ''job''"
| "purpose_str PTopup = ''topup''"
| "purpose_str PCancel = ''cancel''"

definition purpose_from_str :: "string \<Rightarrow> (attempt_purpose, string) result" where
  "purpose_from_str s =
     (if s = ''job'' then Ok PJob
      else if s = ''topup'' then Ok PTopup
      else if s = ''cancel'' then Ok PCancel
      else Err (''unknown attempt purpose `'' @ s @ ''`''))"

datatype attempt_status = ABroadcast | AIncluded | AConfirmed | AReplaced | ADropped

primrec attempt_status_str :: "attempt_status \<Rightarrow> string" where
  "attempt_status_str ABroadcast = ''broadcast''"
| "attempt_status_str AIncluded = ''included''"
| "attempt_status_str AConfirmed = ''confirmed''"
| "attempt_status_str AReplaced = ''replaced''"
| "attempt_status_str ADropped = ''dropped''"

definition attempt_status_from_str :: "string \<Rightarrow> (attempt_status, string) result" where
  "attempt_status_from_str s =
     (if s = ''broadcast'' then Ok ABroadcast
      else if s = ''included'' then Ok AIncluded
      else if s = ''confirmed'' then Ok AConfirmed
      else if s = ''replaced'' then Ok AReplaced
      else if s = ''dropped'' then Ok ADropped
      else Err (''unknown attempt status `'' @ s @ ''`''))"

datatype slot_owner = OJob uuid | OTopup uuid

primrec owner_kind :: "slot_owner \<Rightarrow> string" where
  "owner_kind (OJob i) = ''job''"
| "owner_kind (OTopup i) = ''topup''"

primrec owner_id :: "slot_owner \<Rightarrow> uuid" where
  "owner_id (OJob i) = i"
| "owner_id (OTopup i) = i"

record attempt =
  at_id :: uuid
  at_chain_id :: chain_id
  at_signer :: address
  at_nonce :: u64
  at_purpose :: attempt_purpose
  at_owner :: slot_owner
  at_tx_hash :: b256
  at_raw_tx :: bytes
  at_gas_limit :: u64
  at_max_fee_per_gas :: u128
  at_max_priority_fee_per_gas :: u128
  at_value :: u256
  at_status :: attempt_status
  at_block_number :: "u64 option"
  at_block_hash :: "b256 option"
  at_created_at :: timestamp

record inclusion =
  inc_tx_hash :: b256
  inc_block_number :: u64
  inc_block_hash :: b256
  inc_outcome :: outcome
  inc_gas_used :: u64
  inc_effective_gas_price :: u128
  inc_fee_paid :: u256
  inc_l1_fee :: "u256 option"
  inc_receipt :: json

section \<open>Pairs, pauses and webhook events\<close>

datatype pair_role = RSigner | RTreasury

primrec pair_role_str :: "pair_role \<Rightarrow> string" where
  "pair_role_str RSigner = ''signer''"
| "pair_role_str RTreasury = ''treasury''"

datatype pause_reason = Booting | ChainOutage | Reorg | NonceDrift | InsufficientFunds
  | StuckUnresolved | SignerUnavailable | Manual

primrec pause_reason_str :: "pause_reason \<Rightarrow> string" where
  "pause_reason_str Booting = ''booting''"
| "pause_reason_str ChainOutage = ''chain_outage''"
| "pause_reason_str Reorg = ''reorg''"
| "pause_reason_str NonceDrift = ''nonce_drift''"
| "pause_reason_str InsufficientFunds = ''insufficient_funds''"
| "pause_reason_str StuckUnresolved = ''stuck_unresolved''"
| "pause_reason_str SignerUnavailable = ''signer_unavailable''"
| "pause_reason_str Manual = ''manual''"

datatype recovery_step = AwaitingChainHead | ReconcilingNonce | Rebroadcasting
  | AwaitingTreasuryTopup | AwaitingTreasuryRefill | AwaitingOperatorResume | NeedsOperator

primrec recovery_step_str :: "recovery_step \<Rightarrow> string" where
  "recovery_step_str AwaitingChainHead = ''awaiting_chain_head''"
| "recovery_step_str ReconcilingNonce = ''reconciling_nonce''"
| "recovery_step_str Rebroadcasting = ''rebroadcasting''"
| "recovery_step_str AwaitingTreasuryTopup = ''awaiting_treasury_topup''"
| "recovery_step_str AwaitingTreasuryRefill = ''awaiting_treasury_refill''"
| "recovery_step_str AwaitingOperatorResume = ''awaiting_operator_resume''"
| "recovery_step_str NeedsOperator = ''needs_operator''"

record pause =
  pz_reason :: pause_reason
  pz_recovery_step :: recovery_step
  pz_since :: timestamp
  pz_detail :: string

datatype webhook_event = WIncluded | WConfirmed | WFailed

primrec webhook_event_str :: "webhook_event \<Rightarrow> string" where
  "webhook_event_str WIncluded = ''transaction.included''"
| "webhook_event_str WConfirmed = ''transaction.confirmed''"
| "webhook_event_str WFailed = ''transaction.failed''"

section \<open>Errors\<close>

text \<open>The driver errors the store distinguishes (\<open>sqlx::Error\<close>): connection-level failures, and
  errors reported by the server with their SQLSTATE code.\<close>

datatype sqlx_error = SqlxIo | PoolTimedOut | PoolClosed | WorkerCrashed | SqlxTls
  | Database "string option" | SqlxOther

datatype store_error = Db sqlx_error
  | Fenced int
  | NonceSlotTaken u64 address u64
  | StateConflict string uuid string
  | Corrupt string

primrec store_error_code :: "store_error \<Rightarrow> string" where
  "store_error_code (Db e) = ''store.db''"
| "store_error_code (Fenced m) = ''store.fenced''"
| "store_error_code (NonceSlotTaken c s n) = ''store.nonce_slot_taken''"
| "store_error_code (StateConflict e i x) = ''store.state_conflict''"
| "store_error_code (Corrupt m) = ''store.corrupt''"

definition is_transient :: "store_error \<Rightarrow> bool" where
  "is_transient e =
     (case e of
        Db x \<Rightarrow> x \<in> {SqlxIo, PoolTimedOut, PoolClosed, WorkerCrashed, SqlxTls}
          \<or> (case x of Database (Some c) \<Rightarrow> c \<in> {''40001'', ''40P01'', ''57P01'', ''57P02'', ''57P03''}
             | _ \<Rightarrow> False)
      | _ \<Rightarrow> False)"

datatype rpc_error = Response int string "string option"
  | RateLimited string
  | Transport string
  | CircuitOpen u64
  | Decode string

primrec rpc_error_code :: "rpc_error \<Rightarrow> string" where
  "rpc_error_code (Response c m d) = ''rpc.response''"
| "rpc_error_code (RateLimited m) = ''rpc.rate_limited''"
| "rpc_error_code (Transport m) = ''rpc.transport''"
| "rpc_error_code (CircuitOpen c) = ''rpc.circuit_open''"
| "rpc_error_code (Decode m) = ''rpc.decode''"

primrec is_definitely_not_delivered :: "rpc_error \<Rightarrow> bool" where
  "is_definitely_not_delivered (Response c m d) = False"
| "is_definitely_not_delivered (RateLimited m) = True"
| "is_definitely_not_delivered (Transport m) = False"
| "is_definitely_not_delivered (CircuitOpen c) = True"
| "is_definitely_not_delivered (Decode m) = False"

primrec is_method_not_found :: "rpc_error \<Rightarrow> bool" where
  "is_method_not_found (Response c m d) = (c = -32601)"
| "is_method_not_found (RateLimited m) = False"
| "is_method_not_found (Transport m) = False"
| "is_method_not_found (CircuitOpen c) = False"
| "is_method_not_found (Decode m) = False"

datatype signer_error = UnknownSigner string | SignError string | SignTimeout u64 | SignerInit string

primrec signer_error_code :: "signer_error \<Rightarrow> string" where
  "signer_error_code (UnknownSigner s) = ''signer.unknown''"
| "signer_error_code (SignError s) = ''signer.sign''"
| "signer_error_code (SignTimeout n) = ''signer.timeout''"
| "signer_error_code (SignerInit s) = ''signer.init''"

datatype job_failure = SimulationReverted | InvalidTx | Expired | StuckCancelled | Cancelled | Internal

primrec job_failure_code :: "job_failure \<Rightarrow> string" where
  "job_failure_code SimulationReverted = ''simulation_reverted''"
| "job_failure_code InvalidTx = ''invalid_tx''"
| "job_failure_code Expired = ''expired''"
| "job_failure_code StuckCancelled = ''stuck_cancelled''"
| "job_failure_code Cancelled = ''cancelled''"
| "job_failure_code Internal = ''internal''"

section \<open>Round trips\<close>

lemma job_status_roundtrip: "job_status_from_str (job_status_str s) = Ok s"
  by (cases s) (simp_all add: job_status_from_str_def)

lemma outcome_roundtrip: "outcome_from_str (outcome_str x) = Ok x"
  by (cases x) (simp_all add: outcome_from_str_def)

lemma purpose_roundtrip: "purpose_from_str (purpose_str p) = Ok p"
  by (cases p) (simp_all add: purpose_from_str_def)

lemma attempt_status_roundtrip: "attempt_status_from_str (attempt_status_str s) = Ok s"
  by (cases s) (simp_all add: attempt_status_from_str_def)

lemma job_status_from_str_ok_iff: "job_status_from_str t = Ok s \<longleftrightarrow> t = job_status_str s"
  by (cases s) (auto simp: job_status_from_str_def)

lemma attempt_status_from_str_ok_iff: "attempt_status_from_str t = Ok s \<longleftrightarrow> t = attempt_status_str s"
  by (cases s) (auto simp: attempt_status_from_str_def)

lemma outcome_from_str_ok_iff: "outcome_from_str t = Ok x \<longleftrightarrow> t = outcome_str x"
  by (cases x) (auto simp: outcome_from_str_def)

lemma purpose_from_str_ok_iff: "purpose_from_str t = Ok p \<longleftrightarrow> t = purpose_str p"
  by (cases p) (auto simp: purpose_from_str_def)

lemma hex_digit_inj: "a < 16 \<Longrightarrow> b < 16 \<Longrightarrow> hex_digit a = hex_digit b \<Longrightarrow> a = b"
  unfolding hex_digit_def by (subst (asm) nth_eq_iff_index_eq) simp_all

lemma length_hex_nibbles [simp]: "length (hex_nibbles k n) = k"
  by (induction k arbitrary: n) simp_all

lemma hex_nibbles_inj:
  "a < 16 ^ k \<Longrightarrow> b < 16 ^ k \<Longrightarrow> hex_nibbles k a = hex_nibbles k b \<Longrightarrow> a = b"
proof (induction k arbitrary: a b)
  case 0
  then show ?case by simp
next
  case (Suc k)
  from Suc.prems(3) have "hex_nibbles k (a div 16) = hex_nibbles k (b div 16)"
    and d: "hex_digit (a mod 16) = hex_digit (b mod 16)" by simp_all
  moreover have "a div 16 < 16 ^ k" "b div 16 < 16 ^ k"
    using Suc.prems(1,2) by (simp_all add: less_mult_imp_div_less mult.commute)
  ultimately have "a div 16 = b div 16" using Suc.IH by blast
  moreover have "a mod 16 = b mod 16" using d by (intro hex_digit_inj) simp_all
  ultimately show ?case by (metis div_mult_mod_eq)
qed

lemma addr_hex_inj: "addr_hex a = addr_hex b \<Longrightarrow> a = b"
  using hex_nibbles_inj [of "unat a" 40 "unat b"] unat_lt_pow [of a] unat_lt_pow [of b]
  by (simp add: addr_hex_def word_unat_eq_iff)

lemma hash_hex_inj: "hash_hex a = hash_hex b \<Longrightarrow> a = b"
  using hex_nibbles_inj [of "unat a" 64 "unat b"] unat_lt_pow [of a] unat_lt_pow [of b]
  by (simp add: hash_hex_def word_unat_eq_iff)

text \<open>The four status columns round-trip: a text is accepted as a job status, outcome, attempt
  purpose or attempt status exactly when it is the text that value is written as, so a row read back
  is the row written and no other text is accepted.\<close>

theorem status_columns_roundtrip:
  "(job_status_from_str t = Ok s \<longleftrightarrow> t = job_status_str s)
   \<and> (outcome_from_str t = Ok x \<longleftrightarrow> t = outcome_str x)
   \<and> (purpose_from_str t = Ok p \<longleftrightarrow> t = purpose_str p)
   \<and> (attempt_status_from_str t = Ok a \<longleftrightarrow> t = attempt_status_str a)"
  by (simp add: job_status_from_str_ok_iff outcome_from_str_ok_iff purpose_from_str_ok_iff
      attempt_status_from_str_ok_iff)

end
