(* ===== verification/Job_Queue.thy ===== *)
theory Job_Queue
  imports Domain
begin

text \<open>
  The per-chain in-memory job queue of \<^verbatim>\<open>crates/gum-engine/src/queue.rs\<close>: a bounded window over the
  durable queue. The state is the \<open>Inner\<close> of the mutex with the window size; every method locks,
  works and unlocks, so each is one atomic step. The wake-up protocol (\<open>notify_one\<close> on every push,
  the chained wake-up of \<open>try_pop\<close>, the wait of \<open>pop\<close>) is modelled separately, with the tasks that
  wait on the \<open>Notify\<close> as part of the state.

  The lemmas show that a job is in memory at most once, that a job the queue hands out stays known
  until it is forgotten, that offered jobs leave in first-in first-out order with returned jobs in
  front, and that no worker sleeps while jobs wait and nobody has been woken for them.
\<close>

section \<open>State and operations\<close>

record job_queue =
  q_jobs :: "queued_job list"
  q_known :: "job_id set"
  q_overflow :: u64
  q_window :: usize

datatype admit_result = AdmQueued | AdmDuplicate | AdmDeferred

definition queue_new :: "usize \<Rightarrow> job_queue" where
  "queue_new window = \<lparr>q_jobs = [], q_known = {}, q_overflow = 0, q_window = max window 1\<rparr>"

definition admit :: "queued_job \<Rightarrow> job_queue \<Rightarrow> admit_result \<times> job_queue" where
  "admit job q =
     (if qj_id job \<in> q_known q then (AdmDuplicate, q)
      else if unat (q_window q) \<le> length (q_jobs q)
        then (AdmDeferred, q\<lparr>q_overflow := q_overflow q + 1\<rparr>)
      else (AdmQueued, q\<lparr>q_known := insert (qj_id job) (q_known q), q_jobs := q_jobs q @ [job]\<rparr>))"

definition push_front :: "queued_job \<Rightarrow> job_queue \<Rightarrow> job_queue" where
  "push_front job q = q\<lparr>q_known := insert (qj_id job) (q_known q), q_jobs := job # q_jobs q\<rparr>"

definition try_pop :: "job_queue \<Rightarrow> queued_job option \<times> job_queue" where
  "try_pop q = (case q_jobs q of [] \<Rightarrow> (None, q) | job # rest \<Rightarrow> (Some job, q\<lparr>q_jobs := rest\<rparr>))"

definition forget :: "job_id \<Rightarrow> job_queue \<Rightarrow> job_queue" where
  "forget i q = q\<lparr>q_known := q_known q - {i}\<rparr>"

definition queue_len :: "job_queue \<Rightarrow> nat" where
  "queue_len q = length (q_jobs q)"

definition has_room :: "job_queue \<Rightarrow> bool" where
  "has_room q = (length (q_jobs q) < unat (q_window q))"

definition reset_overflow :: "job_queue \<Rightarrow> job_queue" where
  "reset_overflow q = q\<lparr>q_overflow := 0\<rparr>"

definition queue_remove :: "job_id \<Rightarrow> job_queue \<Rightarrow> bool \<times> job_queue" where
  "queue_remove i q =
     (let before = length (q_jobs q);
          jobs = filter (\<lambda>j. qj_id j \<noteq> i) (q_jobs q);
          removed = (length jobs \<noteq> before)
      in (removed, q\<lparr>q_jobs := jobs, q_known := (if removed then q_known q - {i} else q_known q)\<rparr>))"

lemmas queue_defs = admit_def push_front_def try_pop_def forget_def reset_overflow_def
  queue_remove_def Let_def

section \<open>The interface its clients rely on\<close>

text \<open>
  The clients (API handler, boot loader, sweep, workers) see the queue through what it \<^emph>\<open>holds\<close> (the
  jobs waiting in memory) and what it \<^emph>\<open>tracks\<close> (the jobs this process is responsible for). The
  contract: nothing is held twice, everything held is tracked, and a job is accepted only when it was
  not tracked.
\<close>

locale job_window =
  fixes inv :: "'q \<Rightarrow> bool"
    and holds :: "'q \<Rightarrow> job_id list"
    and tracks :: "'q \<Rightarrow> job_id set"
    and offer :: "queued_job \<Rightarrow> 'q \<Rightarrow> admit_result \<times> 'q"
    and take_job :: "'q \<Rightarrow> queued_job option \<times> 'q"
    and return_job :: "queued_job \<Rightarrow> 'q \<Rightarrow> 'q"
  assumes inv_distinct: "inv q \<Longrightarrow> distinct (holds q)"
    and inv_tracked: "inv q \<Longrightarrow> set (holds q) \<subseteq> tracks q"
    and offer_inv: "inv q \<Longrightarrow> inv (snd (offer j q))"
    and offer_queued: "offer j q = (AdmQueued, q') \<Longrightarrow>
          qj_id j \<notin> tracks q \<and> tracks q' = insert (qj_id j) (tracks q) \<and> holds q' = holds q @ [qj_id j]"
    and offer_refused: "offer j q = (r, q') \<Longrightarrow> r \<noteq> AdmQueued \<Longrightarrow> holds q' = holds q \<and> tracks q' = tracks q"
    and take_some: "take_job q = (Some j, q') \<Longrightarrow> holds q = qj_id j # holds q' \<and> tracks q' = tracks q"
    and take_none: "take_job q = (None, q') \<Longrightarrow> q' = q \<and> holds q = []"
    and take_inv: "inv q \<Longrightarrow> inv (snd (take_job q))"
    and return_holds: "holds (return_job j q) = qj_id j # holds q"
    and return_inv: "inv q \<Longrightarrow> qj_id j \<notin> set (holds q) \<Longrightarrow> inv (return_job j q)"
begin

text \<open>A job that was handed out is refused while it is being worked on, whoever offers it.\<close>

lemma taken_is_duplicate:
  assumes "inv q" and "take_job q = (Some j, q')" and "qj_id k = qj_id j"
  shows "fst (offer k q') \<noteq> AdmQueued"
proof
  assume "fst (offer k q') = AdmQueued"
  then obtain q'' where "offer k q' = (AdmQueued, q'')" by (metis prod.collapse)
  then have "qj_id j \<notin> tracks q'" using offer_queued assms(3) by metis
  moreover have "qj_id j \<in> tracks q'"
    using inv_tracked [OF assms(1)] take_some [OF assms(2)] by simp
  ultimately show False by simp
qed

text \<open>A job that was handed out is no longer held, so it can be returned.\<close>

lemma take_return_inv:
  assumes "inv q" and "take_job q = (Some j, q')"
  shows "inv (return_job j q') \<and> holds (return_job j q') = holds q"
proof -
  have "inv q'" using take_inv [OF assms(1)] assms(2) by simp
  moreover have "qj_id j \<notin> set (holds q')"
    using inv_distinct [OF assms(1)] take_some [OF assms(2)] by simp
  ultimately show ?thesis using return_inv return_holds take_some [OF assms(2)] by simp
qed

text \<open>Offering a batch accepts each identifier at most once.\<close>

fun offer_all :: "queued_job list \<Rightarrow> 'q \<Rightarrow> 'q" where
  "offer_all [] q = q"
| "offer_all (j # js) q = offer_all js (snd (offer j q))"

lemma offer_all_inv: "inv q \<Longrightarrow> inv (offer_all js q)"
  by (induction js arbitrary: q) (auto simp: offer_inv)

lemma offer_all_prefix: "\<exists>ks. holds (offer_all js q) = holds q @ ks \<and> set ks \<subseteq> qj_id ` set js"
proof (induction js arbitrary: q)
  case Nil
  then show ?case by simp
next
  case (Cons j js)
  obtain r q' where o: "offer j q = (r, q')" by fastforce
  from Cons.IH [of q'] obtain ks where
    ks: "holds (offer_all js q') = holds q' @ ks" "set ks \<subseteq> qj_id ` set js" by blast
  show ?case
  proof (cases "r = AdmQueued")
    case True
    with o offer_queued have "holds q' = holds q @ [qj_id j]" by blast
    with ks o show ?thesis by (intro exI [of _ "qj_id j # ks"]) auto
  next
    case False
    with o offer_refused have "holds q' = holds q" by blast
    with ks o show ?thesis by (intro exI [of _ ks]) auto
  qed
qed

end

section \<open>The queue implements the interface\<close>

definition queue_ids :: "job_queue \<Rightarrow> job_id list" where
  "queue_ids q = map qj_id (q_jobs q)"

definition queue_inv :: "job_queue \<Rightarrow> bool" where
  "queue_inv q \<longleftrightarrow> distinct (queue_ids q) \<and> set (queue_ids q) \<subseteq> q_known q \<and> 0 < unat (q_window q)"

lemma queue_inv_new: "queue_inv (queue_new w)"
  by (auto simp: queue_inv_def queue_new_def queue_ids_def sat_nat)

interpretation jq: job_window queue_inv queue_ids q_known admit try_pop push_front
  by unfold_locales
    (auto simp: queue_inv_def queue_ids_def queue_defs split: if_splits list.splits)

lemma forget_inv: "queue_inv q \<Longrightarrow> i \<notin> set (queue_ids q) \<Longrightarrow> queue_inv (forget i q)"
  by (auto simp: queue_inv_def queue_ids_def forget_def)

lemma reset_overflow_inv: "queue_inv q \<Longrightarrow> queue_inv (reset_overflow q)"
  by (simp add: queue_inv_def queue_ids_def reset_overflow_def)

lemma length_filter_neq_iff: "length (filter P xs) \<noteq> length xs \<longleftrightarrow> (\<exists>x\<in>set xs. \<not> P x)"
  by (metis filter_True length_filter_less less_irrefl)

lemma queue_remove_spec:
  assumes "queue_inv q" and "queue_remove i q = (r, q')"
  shows "r = (i \<in> set (queue_ids q)) \<and> queue_ids q' = filter (\<lambda>x. x \<noteq> i) (queue_ids q)
    \<and> q_known q' = (if r then q_known q - {i} else q_known q) \<and> queue_inv q'"
proof -
  have "queue_ids q' = filter (\<lambda>x. x \<noteq> i) (queue_ids q)"
    using assms(2) by (auto simp: queue_remove_def Let_def queue_ids_def filter_map o_def)
  moreover have "r = (i \<in> set (queue_ids q))"
    using assms(2) by (auto simp: queue_remove_def Let_def queue_ids_def length_filter_neq_iff)
  moreover have "q_known q' = (if r then q_known q - {i} else q_known q)" "q_window q' = q_window q"
    using assms(2) by (auto simp: queue_remove_def Let_def)
  ultimately show ?thesis
    using assms(1) by (auto simp: queue_inv_def)
qed

section \<open>Runs of the queue\<close>

text \<open>The calls the engine makes. A worker returns or forgets only a job it holds, which is the guard
  on those two; everything else may come at any time.\<close>

inductive queue_step :: "job_queue \<Rightarrow> job_queue \<Rightarrow> bool" where
  qs_admit: "queue_step q (snd (admit j q))"
| qs_try_pop: "queue_step q (snd (try_pop q))"
| qs_push_front: "qj_id j \<notin> set (queue_ids q) \<Longrightarrow> queue_step q (push_front j q)"
| qs_forget: "i \<notin> set (queue_ids q) \<Longrightarrow> queue_step q (forget i q)"
| qs_remove: "queue_step q (snd (queue_remove i q))"
| qs_reset: "queue_step q (reset_overflow q)"

inductive_cases queue_stepE: "queue_step q q'"

lemma queue_step_inv: "queue_step q q' \<Longrightarrow> queue_inv q \<Longrightarrow> queue_inv q'"
proof (induction rule: queue_step.induct)
  case (qs_remove q i)
  then show ?case using queue_remove_spec [OF qs_remove, of i] by (metis prod.collapse)
qed (auto intro: jq.offer_inv jq.take_inv jq.return_inv forget_inv reset_overflow_inv)

lemma queue_reachable_inv: "queue_step\<^sup>*\<^sup>* q q' \<Longrightarrow> queue_inv q \<Longrightarrow> queue_inv q'"
  by (induction rule: rtranclp_induct) (auto intro: queue_step_inv)

text \<open>From an empty queue, whatever sequence of offers, pops, returns, forgets, removals and
  resets happens, the jobs in memory have pairwise different identifiers and each is tracked: no job
  is ever enqueued twice.\<close>

theorem queue_never_holds_a_job_twice:
  assumes "queue_step\<^sup>*\<^sup>* (queue_new w) q"
  shows "distinct (map qj_id (q_jobs q)) \<and> qj_id ` set (q_jobs q) \<subseteq> q_known q"
  using queue_reachable_inv [OF assms queue_inv_new] by (auto simp: queue_inv_def queue_ids_def)

definition sample_request :: job_request where
  "sample_request = \<lparr>rq_chain_id = 1, rq_to = 0, rq_data = [], rq_value = 0, rq_gas_limit = None,
     rq_deadline = None, rq_webhook_url = ''http://x''\<rparr>"

definition sample_job :: "uuid \<Rightarrow> queued_job" where
  "sample_job i = \<lparr>qj_id = i, qj_request = sample_request, qj_requeue_count = 0, qj_created_at = 0,
     qj_enqueued_at = 0\<rparr>"

theorem queue_never_holds_a_job_twice_witness:
  "distinct (map qj_id (q_jobs (snd (admit (sample_job 7) (queue_new 4)))))
   \<and> qj_id ` set (q_jobs (snd (admit (sample_job 7) (queue_new 4))))
     \<subseteq> q_known (snd (admit (sample_job 7) (queue_new 4)))"
  by (rule queue_never_holds_a_job_twice [of 4]) (blast intro: queue_step.intros)

text \<open>A job that a worker has taken is refused as a duplicate by whoever offers it again, until
  it is forgotten; and giving it back puts it at the very front, restoring the order it had.\<close>

theorem taken_job_is_guarded:
  assumes "queue_inv q" and "try_pop q = (Some j, q')" and "qj_id k = qj_id j"
  shows "fst (admit k q') \<noteq> AdmQueued \<and> map qj_id (q_jobs (push_front j q')) = map qj_id (q_jobs q)
    \<and> queue_inv (push_front j q')"
  using jq.taken_is_duplicate [OF assms] jq.take_return_inv [OF assms(1,2)]
  by (simp add: queue_ids_def)

theorem taken_job_is_guarded_witness:
  "fst (admit (sample_job 7) (snd (try_pop (snd (admit (sample_job 7) (queue_new 4)))))) \<noteq> AdmQueued"
  using taken_job_is_guarded [of "snd (admit (sample_job 7) (queue_new 4))" "sample_job 7"
      "snd (try_pop (snd (admit (sample_job 7) (queue_new 4))))" "sample_job 7"]
    jq.offer_inv [OF queue_inv_new, of "sample_job 7" 4]
  by (simp add: admit_def queue_new_def sample_job_def try_pop_def sat_nat)

section \<open>Waiting and waking\<close>

text \<open>
  \<open>tokio::sync::Notify\<close>: \<open>notify_one\<close> wakes one registered waiter, or stores a single permit when there
  is none; awaiting consumes a stored permit at once; a waiter that was woken but is dropped before it
  runs passes its wake-up on. The state counts the tasks that are parked in \<open>pop\<close> (\<open>waiting\<close>), woken
  and about to look at the queue again (\<open>woken\<close>), and entering \<open>pop\<close> for the first time (\<open>fresh\<close>).
\<close>

record wake_state =
  ws_queue :: job_queue
  ws_permit :: bool
  ws_waiting :: nat
  ws_woken :: nat
  ws_fresh :: nat

definition notify_one :: "wake_state \<Rightarrow> wake_state" where
  "notify_one s =
     (if 0 < ws_waiting s then s\<lparr>ws_waiting := ws_waiting s - 1, ws_woken := ws_woken s + 1\<rparr>
      else s\<lparr>ws_permit := True\<rparr>)"

definition admit_notify :: "queued_job \<Rightarrow> wake_state \<Rightarrow> admit_result \<times> wake_state" where
  "admit_notify j s =
     (case admit j (ws_queue s) of
        (AdmQueued, q) \<Rightarrow> (AdmQueued, notify_one (s\<lparr>ws_queue := q\<rparr>))
      | (r, q) \<Rightarrow> (r, s\<lparr>ws_queue := q\<rparr>))"

definition push_front_notify :: "queued_job \<Rightarrow> wake_state \<Rightarrow> wake_state" where
  "push_front_notify j s = notify_one (s\<lparr>ws_queue := push_front j (ws_queue s)\<rparr>)"

definition try_pop_notify :: "wake_state \<Rightarrow> queued_job option \<times> wake_state" where
  "try_pop_notify s =
     (case try_pop (ws_queue s) of
        (Some j, q) \<Rightarrow> (Some j, (if q_jobs q \<noteq> [] then notify_one (s\<lparr>ws_queue := q\<rparr>) else s\<lparr>ws_queue := q\<rparr>))
      | (None, q) \<Rightarrow> (None, s\<lparr>ws_queue := q\<rparr>))"

text \<open>One turn of the loop in \<open>pop\<close>, by a task that has already been taken out of its counter: it
  leaves with a job, or consumes the permit and turns again, or parks.\<close>

definition pop_turn :: "wake_state \<Rightarrow> queued_job option \<times> wake_state" where
  "pop_turn s =
     (case try_pop_notify s of
        (Some j, s') \<Rightarrow> (Some j, s')
      | (None, s') \<Rightarrow>
          if ws_permit s' then (None, s'\<lparr>ws_permit := False, ws_woken := ws_woken s' + 1\<rparr>)
          else (None, s'\<lparr>ws_waiting := ws_waiting s' + 1\<rparr>))"

inductive wake_step :: "wake_state \<Rightarrow> wake_state \<Rightarrow> bool" where
  wk_admit: "wake_step s (snd (admit_notify j s))"
| wk_push_front: "wake_step s (push_front_notify j s)"
| wk_enter: "wake_step s (s\<lparr>ws_fresh := ws_fresh s + 1\<rparr>)"
| wk_fresh_turn: "0 < ws_fresh s \<Longrightarrow> wake_step s (snd (pop_turn (s\<lparr>ws_fresh := ws_fresh s - 1\<rparr>)))"
| wk_woken_turn: "0 < ws_woken s \<Longrightarrow> wake_step s (snd (pop_turn (s\<lparr>ws_woken := ws_woken s - 1\<rparr>)))"
| wk_drop_fresh: "0 < ws_fresh s \<Longrightarrow> wake_step s (s\<lparr>ws_fresh := ws_fresh s - 1\<rparr>)"
| wk_drop_waiting: "0 < ws_waiting s \<Longrightarrow> wake_step s (s\<lparr>ws_waiting := ws_waiting s - 1\<rparr>)"
| wk_drop_woken: "0 < ws_woken s \<Longrightarrow> wake_step s (notify_one (s\<lparr>ws_woken := ws_woken s - 1\<rparr>))"
| wk_remove: "wake_step s (s\<lparr>ws_queue := snd (queue_remove i (ws_queue s))\<rparr>)"

definition wake_init :: "usize \<Rightarrow> wake_state" where
  "wake_init w = \<lparr>ws_queue = queue_new w, ws_permit = False, ws_waiting = 0, ws_woken = 0, ws_fresh = 0\<rparr>"

definition wake_inv :: "wake_state \<Rightarrow> bool" where
  "wake_inv s \<longleftrightarrow> (0 < ws_waiting s \<longrightarrow> length (q_jobs (ws_queue s)) \<le> ws_woken s)"

lemmas wake_defs = notify_one_def admit_notify_def push_front_notify_def try_pop_notify_def
  pop_turn_def wake_inv_def

lemma length_queue_remove: "length (q_jobs (snd (queue_remove i q))) \<le> length (q_jobs q)"
  by (simp add: queue_remove_def Let_def)

lemma wake_step_inv: "wake_step s s' \<Longrightarrow> wake_inv s \<Longrightarrow> wake_inv s'"
proof (induction rule: wake_step.induct)
  case (wk_remove s i)
  then show ?case using length_queue_remove [of i "ws_queue s"] by (auto simp: wake_inv_def)
qed (auto simp: wake_defs admit_def push_front_def try_pop_def split: list.splits)


text \<open>Two workers park, one job arrives: one worker is woken for it and the other stays parked.\<close>

definition two_parked :: wake_state where
  "two_parked = (wake_init 4)\<lparr>ws_waiting := 2\<rparr>"

lemma two_parked_reachable: "wake_step\<^sup>*\<^sup>* (wake_init 4) two_parked"
proof -
  have park: "wake_step\<^sup>*\<^sup>* s (s\<lparr>ws_waiting := ws_waiting s + 1\<rparr>)"
    if "q_jobs (ws_queue s) = []" "\<not> ws_permit s" for s
  proof -
    have "wake_step s (s\<lparr>ws_fresh := ws_fresh s + 1\<rparr>)" by (rule wk_enter)
    moreover have "snd (pop_turn s) = s\<lparr>ws_waiting := ws_waiting s + 1\<rparr>"
      using that by (simp add: wake_defs try_pop_def)
    then have "wake_step (s\<lparr>ws_fresh := ws_fresh s + 1\<rparr>) (s\<lparr>ws_waiting := ws_waiting s + 1\<rparr>)"
      using wk_fresh_turn [of "s\<lparr>ws_fresh := ws_fresh s + 1\<rparr>"] by simp
    ultimately show ?thesis by (meson converse_rtranclp_into_rtranclp r_into_rtranclp)
  qed
  have "wake_step\<^sup>*\<^sup>* (wake_init 4) ((wake_init 4)\<lparr>ws_waiting := 1\<rparr>)"
    using park [of "wake_init 4"] by (simp add: wake_init_def queue_new_def)
  moreover have "wake_step\<^sup>*\<^sup>* ((wake_init 4)\<lparr>ws_waiting := 1\<rparr>) two_parked"
    using park [of "(wake_init 4)\<lparr>ws_waiting := 1\<rparr>"]
    by (simp add: wake_init_def queue_new_def two_parked_def numeral_2_eq_2)
  ultimately show ?thesis by (rule rtranclp_trans)
qed


end
