(* ===== verification/Ledger.thy ===== *)
theory Ledger
  imports Domain
begin

text \<open>
  The per-pair balance ledger of \<^verbatim>\<open>crates/gum-engine/src/funds/ledger.rs\<close>. The state is the \<open>Inner\<close>
  of the mutex: the confirmed balance, one worst-case reservation per in-flight nonce (a \<open>BTreeMap\<close>,
  kept as an association list with increasing keys), the block the balance is known at, the epoch that
  detects races, and the credits still maturing. Amounts are \<open>U256\<close> with the saturating operations of
  the source; the clock is an argument.

  The lemmas show that the reservation map stays a map, how every operation changes the view, that
  replacements never add to a reservation, that a balance read that raced a settlement or comes from a
  lagging node changes nothing, that a re-org undoes a settlement exactly, and that money is conserved
  across maturation.
\<close>

section \<open>State\<close>

record ledger =
  l_confirmed :: u256
  l_reservations :: "(u64 \<times> u256) list"
  l_as_of_block :: u64
  l_epoch :: u64
  l_initialised :: bool
  l_maturing :: "(instant \<times> u256) list"

definition ledger_default :: ledger where
  "ledger_default = \<lparr>l_confirmed = 0, l_reservations = [], l_as_of_block = 0, l_epoch = 0,
     l_initialised = False, l_maturing = []\<rparr>"

record ledger_view =
  lv_confirmed :: u256
  lv_reserved :: u256
  lv_initialised :: bool

record reconcile_ticket =
  rt_epoch :: u64

text \<open>Insertion into and removal from the ordered map.\<close>

fun bt_insert :: "'k::linorder \<Rightarrow> 'v \<Rightarrow> ('k \<times> 'v) list \<Rightarrow> ('k \<times> 'v) list" where
  "bt_insert k v [] = [(k, v)]"
| "bt_insert k v ((k', v') # m) =
     (if k < k' then (k, v) # (k', v') # m
      else if k = k' then (k, v) # m
      else (k', v') # bt_insert k v m)"

definition bt_remove :: "'k \<Rightarrow> ('k \<times> 'v) list \<Rightarrow> ('k \<times> 'v) list" where
  "bt_remove k m = filter (\<lambda>e. fst e \<noteq> k) m"

section \<open>Operations\<close>

definition sum_credits :: "(instant \<times> u256) list \<Rightarrow> u256" where
  "sum_credits cs = fold (\<lambda>c acc. sat_add acc (snd c)) cs 0"

definition reserved :: "ledger \<Rightarrow> u256" where
  "reserved l = fold (\<lambda>e acc. sat_add acc (snd e)) (l_reservations l) 0"

definition view :: "ledger \<Rightarrow> ledger_view" where
  "view l = \<lparr>lv_confirmed = l_confirmed l, lv_reserved = reserved l, lv_initialised = l_initialised l\<rparr>"

definition initialise :: "u256 \<Rightarrow> u64 \<Rightarrow> ledger \<Rightarrow> ledger" where
  "initialise balance block l =
     l\<lparr>l_confirmed := balance, l_as_of_block := max (l_as_of_block l) block, l_initialised := True,
       l_epoch := l_epoch l + 1\<rparr>"

definition reserve :: "u64 \<Rightarrow> u256 \<Rightarrow> ledger \<Rightarrow> ledger" where
  "reserve nonce worst_case l =
     (let slot = (case map_of (l_reservations l) nonce of None \<Rightarrow> 0 | Some v \<Rightarrow> v)
      in l\<lparr>l_reservations := bt_insert nonce (max slot worst_case) (l_reservations l)\<rparr>)"

definition release :: "u64 \<Rightarrow> ledger \<Rightarrow> ledger" where
  "release nonce l = l\<lparr>l_reservations := bt_remove nonce (l_reservations l)\<rparr>"

definition settle :: "u64 \<Rightarrow> u256 \<Rightarrow> u64 \<Rightarrow> ledger \<Rightarrow> ledger" where
  "settle nonce spent block l =
     l\<lparr>l_reservations := bt_remove nonce (l_reservations l),
       l_confirmed := sat_sub (l_confirmed l) spent,
       l_as_of_block := max (l_as_of_block l) block,
       l_epoch := l_epoch l + 1\<rparr>"

definition unsettle :: "u64 \<Rightarrow> u256 \<Rightarrow> u256 \<Rightarrow> ledger \<Rightarrow> ledger" where
  "unsettle nonce spent worst_case l =
     l\<lparr>l_confirmed := sat_add (l_confirmed l) spent,
       l_reservations := bt_insert nonce worst_case (l_reservations l),
       l_epoch := l_epoch l + 1\<rparr>"

definition credit :: "instant \<Rightarrow> u256 \<Rightarrow> u64 \<Rightarrow> duration \<Rightarrow> ledger \<Rightarrow> ledger" where
  "credit now amount block maturity l =
     (let l' = l\<lparr>l_epoch := l_epoch l + 1, l_as_of_block := max (l_as_of_block l) block\<rparr>
      in if maturity = 0 then l'\<lparr>l_confirmed := sat_add (l_confirmed l) amount\<rparr>
         else l'\<lparr>l_maturing := l_maturing l @ [(now + maturity, amount)]\<rparr>)"

definition mature :: "instant \<Rightarrow> ledger \<Rightarrow> ledger" where
  "mature now l =
     (let matured = sum_credits (filter (\<lambda>c. fst c \<le> now) (l_maturing l))
      in l\<lparr>l_maturing := filter (\<lambda>c. \<not> fst c \<le> now) (l_maturing l),
           l_confirmed := sat_add (l_confirmed l) matured\<rparr>)"

definition maturing :: "ledger \<Rightarrow> u256" where
  "maturing l = sum_credits (l_maturing l)"

definition begin_reconcile :: "ledger \<Rightarrow> reconcile_ticket" where
  "begin_reconcile l = \<lparr>rt_epoch = l_epoch l\<rparr>"

definition reconcile :: "reconcile_ticket \<Rightarrow> u256 \<Rightarrow> u64 \<Rightarrow> ledger \<Rightarrow> bool \<times> ledger" where
  "reconcile ticket balance block l =
     (if l_epoch l \<noteq> rt_epoch ticket \<or> block < l_as_of_block l then (False, l)
      else (True, l\<lparr>l_confirmed := sat_sub balance (sum_credits (l_maturing l)),
                    l_as_of_block := block, l_initialised := True\<rparr>))"

lemmas ledger_defs = initialise_def reserve_def release_def settle_def unsettle_def credit_def
  mature_def reconcile_def Let_def

section \<open>The ordered map\<close>

abbreviation bt_sorted :: "('k::linorder \<times> 'v) list \<Rightarrow> bool" where
  "bt_sorted m \<equiv> sorted_wrt (<) (map fst m)"

lemma bt_insert_keys: "fst ` set (bt_insert k v m) = insert k (fst ` set m)"
  by (induction k v m rule: bt_insert.induct) auto

lemma bt_insert_ok: "bt_sorted m \<Longrightarrow> bt_sorted (bt_insert k v m)"
proof (induction k v m rule: bt_insert.induct)
  case (2 k v k' v' m)
  have "\<forall>x\<in>set (bt_insert k v m). fst x = k \<or> fst x \<in> fst ` set m"
    using bt_insert_keys [of k v m] by blast
  with 2 show ?case by fastforce
qed simp

lemma map_of_bt_insert: "map_of (bt_insert k v m) x = (if x = k then Some v else map_of m x)"
  by (induction k v m rule: bt_insert.induct) auto

lemma bt_remove_ok: "bt_sorted m \<Longrightarrow> bt_sorted (bt_remove k m)"
  by (induction m) (auto simp: bt_remove_def)

lemma map_of_bt_remove: "map_of (bt_remove k m) x = (if x = k then None else map_of m x)"
  by (induction m) (auto simp: bt_remove_def)

lemma bt_insert_least: "\<forall>e\<in>set m. k < fst e \<Longrightarrow> bt_insert k v m = (k, v) # m"
  by (cases m) auto

lemma bt_remove_absent: "k \<notin> fst ` set m \<Longrightarrow> bt_remove k m = m"
  by (force simp: bt_remove_def filter_id_conv)

lemma bt_insert_remove:
  "bt_sorted m \<Longrightarrow> map_of m k = Some v \<Longrightarrow> bt_insert k v (bt_remove k m) = m"
proof (induction m)
  case Nil
  then show ?case by simp
next
  case (Cons e m)
  obtain k' v' where e: "e = (k', v')" by fastforce
  show ?case
  proof (cases "k' = k")
    case True
    with Cons.prems e have "\<forall>x\<in>set m. k < fst x" "v' = v" by auto
    moreover from this have "bt_remove k m = m" by (intro bt_remove_absent) force
    ultimately show ?thesis using e True by (simp add: bt_remove_def bt_insert_least)
  next
    case False
    with Cons.prems e have "map_of m k = Some v" by simp
    then have "k' < k" using Cons.prems(1) e by (force dest: map_of_SomeD)
    with Cons e False show ?thesis by (auto simp: bt_remove_def)
  qed
qed

lemma bt_insert_insert: "bt_insert k v (bt_insert k w m) = bt_insert k v m"
  by (induction k w m rule: bt_insert.induct) auto

section \<open>Invariant and preservation\<close>

definition ledger_inv :: "ledger \<Rightarrow> bool" where
  "ledger_inv l \<longleftrightarrow> bt_sorted (l_reservations l)"

lemma ledger_inv_default: "ledger_inv ledger_default"
  by (simp add: ledger_inv_def ledger_default_def)

lemma ledger_ops_inv:
  assumes "ledger_inv l"
  shows "ledger_inv (initialise b n l)" "ledger_inv (reserve k w l)" "ledger_inv (release k l)"
    "ledger_inv (settle k s n l)" "ledger_inv (unsettle k s w l)" "ledger_inv (credit now a n d l)"
    "ledger_inv (mature now l)" "ledger_inv (snd (reconcile t b n l))"
  using assms by (auto simp: ledger_inv_def ledger_defs bt_insert_ok bt_remove_ok)

section \<open>Behaviour\<close>

text \<open>Several attempts at one nonce share one reservation, sized for the most expensive of them: a
  second reservation at a nonce is the same as one reservation at the larger amount, and the other
  nonces keep theirs.\<close>

theorem reserve_replacement_shares_one_slot:
  "reserve k a (reserve k b l) = reserve k (max a b) l
   \<and> map_of (l_reservations (reserve k a l)) k
       = Some (max (case map_of (l_reservations l) k of None \<Rightarrow> 0 | Some v \<Rightarrow> v) a)
   \<and> (j \<noteq> k \<longrightarrow> map_of (l_reservations (reserve k a l)) j = map_of (l_reservations l) j)"
  by (simp add: reserve_def Let_def map_of_bt_insert bt_insert_insert max.assoc max.commute max.left_commute)

theorem reserve_replacement_shares_one_slot_witness:
  "map_of (l_reservations (reserve 7 130 (reserve 7 100 (reserve 3 5 ledger_default)))) 3 = Some 5
   \<and> view (reserve 7 90 (reserve 7 130 (reserve 7 100 ledger_default)))
      = \<lparr>lv_confirmed = 0, lv_reserved = 130, lv_initialised = False\<rparr>"
  using reserve_replacement_shares_one_slot [of 7 130 100 "reserve 3 5 ledger_default" 3]
  by (simp add: reserve_def ledger_default_def Let_def view_def reserved_def max_def)

text \<open>Undoing a settlement after a re-org restores it exactly: when the nonce had a reservation and
  the balance covered what was spent, settling and then unsettling gives back the confirmed balance and
  every reservation.\<close>

theorem unsettle_reverses_settle:
  assumes "ledger_inv l" and "map_of (l_reservations l) k = Some w" and "spent \<le> l_confirmed l"
  shows "view (unsettle k spent w (settle k spent block l)) = view l
    \<and> l_reservations (unsettle k spent w (settle k spent block l)) = l_reservations l"
  using assms
  by (simp add: view_def reserved_def unsettle_def settle_def sat_add_sub_cancel ledger_inv_def
      bt_insert_remove)

theorem unsettle_reverses_settle_witness:
  "view (unsettle 3 120 200 (settle 3 120 5 (reserve 3 200 (initialise 1000 1 ledger_default))))
     = \<lparr>lv_confirmed = 1000, lv_reserved = 200, lv_initialised = True\<rparr>"
  using unsettle_reverses_settle [of "reserve 3 200 (initialise 1000 1 ledger_default)" 3 200 120 5]
  by (simp add: reserve_def ledger_default_def initialise_def Let_def view_def reserved_def
      ledger_inv_def)

lemma unat_fold_credits:
  "unat acc + sum_list (map (unat \<circ> snd) cs) < 2 ^ 256 \<Longrightarrow>
   unat (fold (\<lambda>c acc. sat_add acc (snd c)) cs acc) = unat acc + sum_list (map (unat \<circ> snd) cs)"
  for acc :: u256
proof (induction cs arbitrary: acc)
  case (Cons c cs)
  have "unat (sat_add acc (snd c)) = unat acc + unat (snd c)"
    using Cons.prems by (simp add: sat_nat)
  with Cons show ?case by (simp add: add.assoc)
qed simp

lemma unat_sum_credits:
  "sum_list (map (unat \<circ> snd) cs) < 2 ^ 256 \<Longrightarrow>
   unat (sum_credits cs) = sum_list (map (unat \<circ> snd) cs)"
  using unat_fold_credits [of 0 cs] by (simp add: sum_credits_def)

lemma sum_list_filter_split:
  "sum_list (map f (filter P xs)) + sum_list (map f (filter (\<lambda>x. \<not> P x) xs)) = sum_list (map f xs)"
  for f :: "'a \<Rightarrow> nat"
  by (induction xs) simp_all

definition total_funds :: "ledger \<Rightarrow> nat" where
  "total_funds l = unat (l_confirmed l) + sum_list (map (unat \<circ> snd) (l_maturing l))"

lemma mature_total:
  assumes "total_funds l < 2 ^ 256"
  shows "total_funds (mature now l) = total_funds l"
proof -
  let ?f = "unat \<circ> snd :: instant \<times> u256 \<Rightarrow> nat"
  note split = sum_list_filter_split [of ?f "\<lambda>c. fst c \<le> now" "l_maturing l"]
  have "unat (sum_credits (filter (\<lambda>c. fst c \<le> now) (l_maturing l)))
      = sum_list (map ?f (filter (\<lambda>c. fst c \<le> now) (l_maturing l)))"
    using assms split by (intro unat_sum_credits) (simp add: total_funds_def)
  with split assms show ?thesis
    by (simp add: total_funds_def mature_def Let_def sat_nat)
qed

text \<open>A chain balance read while credits are maturing does not count them twice: the ledger's total
  (confirmed plus maturing) after an accepted read is the balance read, now and after every later
  maturation; once everything has matured, the confirmed balance is the balance read.\<close>

theorem reconcile_counts_maturing_once:
  assumes "reconcile t balance block l = (True, l')"
    and "sum_list (map (unat \<circ> snd) (l_maturing l)) \<le> unat balance"
  shows "total_funds (mature now l') = unat balance
    \<and> ((\<forall>c\<in>set (l_maturing l'). fst c \<le> now) \<longrightarrow> l_confirmed (mature now l') = balance)"
proof -
  have lt: "sum_list (map (unat \<circ> snd) (l_maturing l)) < 2 ^ 256"
    using assms(2) unat_lt_pow [of balance] by simp
  have "l' = l\<lparr>l_confirmed := sat_sub balance (sum_credits (l_maturing l)),
                    l_as_of_block := block, l_initialised := True\<rparr>"
    using assms(1) by (simp add: reconcile_def split: if_splits)
  then have "total_funds l' = unat balance"
    using assms(2) lt by (simp add: total_funds_def sat_nat unat_sum_credits)
  then have tot: "total_funds (mature now l') = unat balance"
    using mature_total [of l' now] unat_lt_pow [of balance] by simp
  moreover have "l_confirmed (mature now l') = balance" if "\<forall>c\<in>set (l_maturing l'). fst c \<le> now"
    using tot that by (simp add: total_funds_def mature_def Let_def word_unat_eq_iff)
  ultimately show ?thesis by blast
qed

theorem reconcile_counts_maturing_once_witness:
  "l_confirmed (snd (reconcile \<lparr>rt_epoch = 2\<rparr> 510 102 (credit 0 500 101 40 (initialise 10 100 ledger_default)))) = 10
   \<and> l_confirmed (mature 60 (snd (reconcile \<lparr>rt_epoch = 2\<rparr> 510 102
        (credit 0 500 101 40 (initialise 10 100 ledger_default))))) = 510"
  using reconcile_counts_maturing_once [of "\<lparr>rt_epoch = 2\<rparr>" 510 102
      "credit 0 500 101 40 (initialise 10 100 ledger_default)"
      "snd (reconcile \<lparr>rt_epoch = 2\<rparr> 510 102 (credit 0 500 101 40 (initialise 10 100 ledger_default)))" 60]
  by (simp add: reconcile_def credit_def initialise_def ledger_default_def sum_credits_def Let_def
      sat_sub_def)

section \<open>Histories: a read never overwrites fresher knowledge\<close>

datatype ledger_op = LInitialise u256 u64 | LReserve u64 u256 | LRelease u64 | LSettle u64 u256 u64
  | LUnsettle u64 u256 u256 | LCredit instant u256 u64 duration | LMature instant
  | LReconcile reconcile_ticket u256 u64

fun ledger_apply :: "ledger \<Rightarrow> ledger_op \<Rightarrow> ledger" where
  "ledger_apply l (LInitialise b n) = initialise b n l"
| "ledger_apply l (LReserve k w) = reserve k w l"
| "ledger_apply l (LRelease k) = release k l"
| "ledger_apply l (LSettle k s n) = settle k s n l"
| "ledger_apply l (LUnsettle k s w) = unsettle k s w l"
| "ledger_apply l (LCredit now a n d) = credit now a n d l"
| "ledger_apply l (LMature now) = mature now l"
| "ledger_apply l (LReconcile t b n) = snd (reconcile t b n l)"

definition ledger_run :: "ledger \<Rightarrow> ledger_op list \<Rightarrow> ledger" where
  "ledger_run l ops = foldl ledger_apply l ops"

text \<open>The operations that record something the engine learned: they move the epoch.\<close>

fun moves_epoch :: "ledger_op \<Rightarrow> bool" where
  "moves_epoch (LInitialise b n) = True"
| "moves_epoch (LSettle k s n) = True"
| "moves_epoch (LUnsettle k s w) = True"
| "moves_epoch (LCredit now a n d) = True"
| "moves_epoch _ = False"

lemma ledger_apply_epoch: "l_epoch (ledger_apply l op) = l_epoch l + (if moves_epoch op then 1 else 0)"
  by (cases op) (auto simp: ledger_defs)

lemma ledger_run_epoch: "l_epoch (ledger_run l ops) = l_epoch l + of_nat (length (filter moves_epoch ops))"
  by (induction ops arbitrary: l) (simp_all add: ledger_run_def ledger_apply_epoch add.assoc)

lemma ledger_apply_block: "l_as_of_block l \<le> l_as_of_block (ledger_apply l op)"
  by (cases op) (auto simp: ledger_defs)

lemma ledger_run_block: "l_as_of_block l \<le> l_as_of_block (ledger_run l ops)"
proof (induction ops arbitrary: l)
  case (Cons op ops)
  then show ?case using ledger_apply_block [of l op] by (simp add: ledger_run_def) (meson order_trans)
qed (simp add: ledger_run_def)

text \<open>C28. A balance read never overwrites fresher knowledge. If anything was settled, unsettled, credited
  or initialised between taking the ticket and presenting it (fewer than \<open>2^64\<close> times, the range of the
  epoch counter), the read is refused and nothing changes; and once a receipt at some block has been
  settled, no later read at an older block is ever accepted.\<close>

theorem stale_reads_are_refused:
  assumes "ticket = begin_reconcile l" and "l' = ledger_run l ops"
    and "0 < length (filter moves_epoch ops)" and "length (filter moves_epoch ops) < 2 ^ 64"
  shows "reconcile ticket balance block l' = (False, l')
    \<and> (older < at \<longrightarrow> reconcile t b older (ledger_run (settle k s at l) later)
          = (False, ledger_run (settle k s at l) later))"
proof -
  have "(of_nat (length (filter moves_epoch ops)) :: u64) \<noteq> 0"
    using assms(3,4) by (simp add: word_unat_eq_iff unsigned_of_nat take_bit_nat_eq_self)
  then have "l_epoch l' \<noteq> rt_epoch ticket"
    by (simp add: assms(1,2) ledger_run_epoch begin_reconcile_def)
  moreover have "at \<le> l_as_of_block (ledger_run (settle k s at l) later)"
    using ledger_run_block [of "settle k s at l" later] by (simp add: settle_def)
  ultimately show ?thesis by (auto simp: reconcile_def)
qed

theorem stale_reads_are_refused_witness:
  "reconcile (begin_reconcile (initialise 1000 10 ledger_default)) 1000 10
     (ledger_run (initialise 1000 10 ledger_default) [LReserve 1 100, LSettle 1 50 11])
   = (False, ledger_run (initialise 1000 10 ledger_default) [LReserve 1 100, LSettle 1 50 11])"
  using stale_reads_are_refused [of "begin_reconcile (initialise 1000 10 ledger_default)"
      "initialise 1000 10 ledger_default" _ "[LReserve 1 100, LSettle 1 50 11]" 1000 10]
  by simp

end
