(* ===== verification/Adapter.thy ===== *)
theory Adapter
  imports Domain
begin

text \<open>
  The seam for chain-specific behaviour, \<^verbatim>\<open>crates/gum-engine/src/chain/adapter.rs\<close>: fee quotes,
  transaction shapes, the classification of send errors, the escalation steps, and the operations of
  the \<open>ChainAdapter\<close> trait with their default bodies. A trait object is a record of its methods. The
  per-chain tunables are those declared in \<^verbatim>\<open>config.rs\<close>, and the receipt is the wire type of
  \<^verbatim>\<open>rpc/types.rs\<close>. Hex text is parsed by the integer library, which is a parameter.

  The pricing contract the pipeline relies on is the locale \<open>chain_pricing\<close>: a replacement quote is one
  the chain's own pool accepts and stays within the cap, and the reserved worst case covers what the
  receipt charges.
\<close>

section \<open>Types\<close>

record fee_quote =
  max_fee_per_gas :: u128
  max_priority_fee_per_gas :: u128

record tx_shape =
  tx_gas_limit :: u64
  tx_value :: u256
  tx_encoded_len :: usize

record cost_context =
  l1_fee_per_byte :: "u256 option"

record actual_cost =
  fee_paid :: u256
  l1_fee :: "u256 option"

datatype send_error_class = AlreadyKnown | AcceptedPending | NonceTooLow | NonceTooHigh | FeeTooLow
  | LacksFunds | PoolBusy | Deterministic | Indeterminate

datatype stuck_step = Rebroadcast | Diagnose | Bump | NoopTx

datatype confirm_check = Immediate | BlockHash | TxMembership u64 | FinalizedTag

datatype liveness_mode = HeadAdvance | RpcResponsive

datatype gas_plan = FixedGas u64 | EstimateGas

record capabilities =
  cap_replacement :: bool
  cap_trust_stateless_rejects :: bool
  cap_tip_matters :: bool

record tunables =
  block_time_ms :: u64
  confirmation_delay_ms :: u64
  estimate_multiplier_bps :: u32
  max_fee_multiplier_bps :: u32
  priority_fee_wei :: u128
  max_fee_cap_wei :: u128
  cancel_fee_cap_wei :: u128
  fee_ttl_ms :: u64
  stuck_after_blocks :: u64
  max_bumps :: u32
  sync_send_timeout_ms :: u64
  receipt_poll_interval_ms :: u64
  idle_probe_interval_ms :: u64
  degraded_probe_interval_ms :: u64
  stall_warn_ms :: u64
  stall_outage_ms :: u64
  rpc_failure_threshold :: u32
  credits_per_call :: u32
  max_tx_gas :: u64
  balance_sweep_interval_ms :: u64
  topup_wait_timeout_ms :: u64
  liveness :: liveness_mode

record receipt =
  rc_transaction_hash :: b256
  rc_block_number :: "u64 option"
  rc_block_hash :: "b256 option"
  rc_status :: "u64 option"
  rc_gas_used :: u256
  rc_effective_gas_price :: "u256 option"
  rc_other :: "(string \<times> json) list"

section \<open>Receipts\<close>

definition succeeded :: "receipt \<Rightarrow> bool" where
  "succeeded r = (rc_status r = Some 1)"

definition extra_u256 :: "(string \<Rightarrow> u256 option) \<Rightarrow> receipt \<Rightarrow> string \<Rightarrow> u256 option" where
  "extra_u256 from_hex r name =
     (case map_of (rc_other r) name of
        Some (JStr raw) \<Rightarrow> if str_starts_with raw ''0x'' then from_hex (drop 2 raw) else None
      | _ \<Rightarrow> None)"

definition gas_used_u64 :: "receipt \<Rightarrow> u64" where
  "gas_used_u64 r = sat_cast (rc_gas_used r)"

definition effective_gas_price_u128 :: "receipt \<Rightarrow> u128" where
  "effective_gas_price_u128 r = (case rc_effective_gas_price r of Some p \<Rightarrow> sat_cast p | None \<Rightarrow> 0)"

section \<open>Shared helpers and default methods\<close>

definition message_of :: "rpc_error \<Rightarrow> (int \<times> string) option" where
  "message_of err =
     (case err of
        Response code message data \<Rightarrow>
          Some (code, to_lowercase message @
                  (case data of Some d \<Rightarrow> '' '' @ to_lowercase d | None \<Rightarrow> []))
      | _ \<Rightarrow> None)"

definition contains_any :: "string \<Rightarrow> string list \<Rightarrow> bool" where
  "contains_any haystack needles = list_ex (str_contains haystack) needles"

definition is_sync_timeout :: "int \<Rightarrow> string \<Rightarrow> bool" where
  "is_sync_timeout code text =
     (code = 4 \<or> contains_any text [''wasn'' @ [CHR 0x27] @ ''t processed'', ''was not processed'', ''not confirmed within'',
        ''timed out waiting'', ''timeout waiting'', ''sync timeout''])"

definition bump_pct :: "u128 \<Rightarrow> u128 \<Rightarrow> u128" where
  "bump_pct prev pct =
     (let scaled = div_ceil (sat_mul prev (100 + pct)) 100 in max scaled (sat_add prev 1))"

definition fee_quote_default :: "u128 \<Rightarrow> tunables \<Rightarrow> fee_quote" where
  "fee_quote_default base_fee t =
     (let scaled = sat_mul base_fee (ucast (max_fee_multiplier_bps t)) div 10000;
          max_fee = max (min (sat_add scaled (priority_fee_wei t)) (max_fee_cap_wei t)) (priority_fee_wei t)
      in \<lparr>max_fee_per_gas = max_fee, max_priority_fee_per_gas = min (priority_fee_wei t) max_fee\<rparr>)"

definition spendable_default :: "u256 \<Rightarrow> u256 \<Rightarrow> u256" where
  "spendable_default confirmed value = confirmed"

definition credit_maturity_blocks_default :: u64 where
  "credit_maturity_blocks_default = 0"

definition estimate_lacks_funds_default :: "rpc_error \<Rightarrow> bool" where
  "estimate_lacks_funds_default err =
     (case err of Response code message data \<Rightarrow> str_contains (to_lowercase message) ''insufficient funds''
      | _ \<Rightarrow> False)"

record chain_adapter =
  ad_kind :: string
  ad_defaults :: tunables
  ad_capabilities :: capabilities
  ad_worst_case_cost :: "tx_shape \<Rightarrow> fee_quote \<Rightarrow> cost_context \<Rightarrow> u256"
  ad_actual_cost :: "u64 \<Rightarrow> receipt \<Rightarrow> actual_cost"
  ad_spendable :: "u256 \<Rightarrow> u256 \<Rightarrow> u256"
  ad_credit_maturity_blocks :: u64
  ad_fee_quote :: "u128 \<Rightarrow> tunables \<Rightarrow> fee_quote"
  ad_replacement :: "fee_quote \<Rightarrow> u128 \<Rightarrow> u128 \<Rightarrow> tunables \<Rightarrow> fee_quote option"
  ad_accepts_replacement :: "fee_quote \<Rightarrow> fee_quote \<Rightarrow> bool"
  ad_classify_send_error :: "rpc_error \<Rightarrow> send_error_class"
  ad_estimate_lacks_funds :: "rpc_error \<Rightarrow> bool"
  ad_stuck_ladder :: "stuck_step list"
  ad_confirm_check :: confirm_check
  ad_transfer_gas :: gas_plan

section \<open>Facts about the helpers\<close>

lemma bump_pct_gt: "prev < - 1 \<Longrightarrow> prev < bump_pct prev pct"
  by (simp add: bump_pct_def Let_def less_max_iff_disj word_nat sat_nat)

lemma bump_pct_ge: "prev \<le> bump_pct prev pct"
  by (simp add: bump_pct_def Let_def le_max_iff_disj sat_add_ge)

lemma unat_div_ceil_100: "unat (div_ceil (x :: u128) 100) = (unat x + 99) div 100"
  using unat_div_ceil [of "100 :: u128" x] by simp

lemma bump_pct_mono: "a \<le> b \<Longrightarrow> bump_pct a pct \<le> bump_pct b pct"
proof -
  assume ab: "a \<le> b"
  then have "sat_mul a (100 + pct) \<le> sat_mul b (100 + pct)" by (intro sat_mul_mono) simp_all
  then have "div_ceil (sat_mul a (100 + pct)) 100 \<le> div_ceil (sat_mul b (100 + pct)) 100"
    by (simp add: word_nat unat_div_ceil_100 div_le_mono)
  moreover have "sat_add a 1 \<le> sat_add b 1" using ab by (intro sat_add_mono) simp_all
  ultimately show ?thesis by (auto simp: bump_pct_def Let_def le_max_iff_disj)
qed

text \<open>A 10% bump of a fee below \<open>2^100\<close> (far above any cap) is at most \<open>1.1\<close> times the fee plus one wei.\<close>

lemma bump_pct_10_le:
  assumes "unat prev \<le> 2 ^ 100"
  shows "unat (bump_pct prev 10) \<le> (unat prev * 110 + 99) div 100 + 1"
proof -
  have "unat (sat_mul prev (100 + 10)) \<le> unat prev * 110"
    by (simp add: sat_nat)
  then have "unat (div_ceil (sat_mul prev (100 + 10)) 100) \<le> (unat prev * 110 + 99) div 100"
    by (simp add: unat_div_ceil_100 div_le_mono)
  moreover have "unat (sat_add prev 1) \<le> (unat prev * 110 + 99) div 100 + 1"
    by (simp add: sat_nat)
  ultimately show ?thesis by (simp add: bump_pct_def Let_def sat_nat)
qed

section \<open>The pricing contract\<close>

text \<open>A quote is well formed when the tip does not exceed the fee ceiling.\<close>

definition quote_ok :: "fee_quote \<Rightarrow> bool" where
  "quote_ok q \<longleftrightarrow> max_priority_fee_per_gas q \<le> max_fee_per_gas q"

definition price_of :: "receipt \<Rightarrow> u256" where
  "price_of r = (case rc_effective_gas_price r of Some p \<Rightarrow> p | None \<Rightarrow> 0)"

text \<open>What a chain guarantees about the receipt of a transaction it mined: no more gas than the limit,
  no higher price than the signed ceiling, and charges outside gas within the bound \<open>side\<close> names.\<close>

definition mined_within :: "(receipt \<Rightarrow> nat) \<Rightarrow> (tx_shape \<Rightarrow> cost_context \<Rightarrow> nat) \<Rightarrow>
    tx_shape \<Rightarrow> fee_quote \<Rightarrow> cost_context \<Rightarrow> receipt \<Rightarrow> bool" where
  "mined_within side bound tx fees ctx r \<longleftrightarrow>
     unat (rc_gas_used r) \<le> unat (tx_gas_limit tx)
     \<and> unat (price_of r) \<le> unat (max_fee_per_gas fees)
     \<and> side r \<le> bound tx ctx"

locale chain_pricing =
  fixes worst :: "tx_shape \<Rightarrow> fee_quote \<Rightarrow> cost_context \<Rightarrow> u256"
    and actual :: "u64 \<Rightarrow> receipt \<Rightarrow> actual_cost"
    and replace :: "fee_quote \<Rightarrow> u128 \<Rightarrow> u128 \<Rightarrow> tunables \<Rightarrow> fee_quote option"
    and accepts :: "fee_quote \<Rightarrow> fee_quote \<Rightarrow> bool"
    and side :: "receipt \<Rightarrow> nat"
    and bound :: "tx_shape \<Rightarrow> cost_context \<Rightarrow> nat"
  assumes worst_covers: "mined_within side bound tx fees ctx r \<Longrightarrow>
        sat_add (fee_paid (actual (tx_gas_limit tx) r)) (tx_value tx) \<le> worst tx fees ctx"
    and worst_mono: "max_fee_per_gas p \<le> max_fee_per_gas q \<Longrightarrow> worst tx p ctx \<le> worst tx q ctx"
    and replace_accepted: "quote_ok prev \<Longrightarrow> replace prev base cap t = Some q \<Longrightarrow> accepts prev q"
    and replace_capped: "replace prev base cap t = Some q \<Longrightarrow> max_fee_per_gas q \<le> cap \<and> quote_ok q"
    and replace_raises: "replace prev base cap t = Some q \<Longrightarrow> cap < - 1 \<Longrightarrow>
        max_fee_per_gas prev < max_fee_per_gas q"
begin

text \<open>The quotes of one nonce, oldest first, when each replaces the one before under \<open>cap\<close>.\<close>

inductive bumped :: "u128 \<Rightarrow> tunables \<Rightarrow> fee_quote list \<Rightarrow> bool" where
  bumped_first: "quote_ok q \<Longrightarrow> bumped cap t [q]"
| bumped_next: "bumped cap t qs \<Longrightarrow> replace (last qs) base cap t = Some q \<Longrightarrow> bumped cap t (qs @ [q])"

lemma bumped_ok: "bumped cap t qs \<Longrightarrow> qs \<noteq> [] \<and> quote_ok (last qs)"
  by (induction rule: bumped.induct) (auto dest: replace_capped)

lemma bumped_sorted:
  assumes "bumped cap t qs" and "cap < - 1"
  shows "sorted_wrt (\<lambda>p q. max_fee_per_gas p < max_fee_per_gas q) qs"
  using assms
proof (induction rule: bumped.induct)
  case (bumped_next cap t qs base q)
  have last: "max_fee_per_gas (last qs) < max_fee_per_gas q"
    using bumped_next.hyps(2) bumped_next.prems by (rule replace_raises)
  have s: "sorted_wrt (\<lambda>p q. max_fee_per_gas p < max_fee_per_gas q) (butlast qs @ [last qs])"
    using bumped_next.IH bumped_next.prems bumped_ok [OF bumped_next.hyps(1)] by simp
  have "max_fee_per_gas p < max_fee_per_gas q" if "p \<in> set qs" for p
  proof -
    from that have "p = last qs \<or> p \<in> set (butlast qs)"
      by (rule set_butlast_last)
    then show ?thesis using s last by (auto simp: sorted_wrt_append)
  qed
  with bumped_next.IH bumped_next.prems show ?case by (auto simp: sorted_wrt_append)
qed simp

text \<open>Whichever attempt of a nonce is mined, the reservation made for the newest one covers it.\<close>

lemma newest_reservation_covers_all:
  assumes "bumped cap t qs" and "cap < - 1" and "q \<in> set qs"
    and "mined_within side bound tx q ctx r"
  shows "sat_add (fee_paid (actual (tx_gas_limit tx) r)) (tx_value tx) \<le> worst tx (last qs) ctx"
proof -
  have "max_fee_per_gas q \<le> max_fee_per_gas (last qs)"
  proof (cases "q = last qs")
    case False
    have ne: "qs \<noteq> []" using bumped_ok [OF assms(1)] by simp
    have "q \<in> set (butlast qs)" using set_butlast_last [OF assms(3)] False by blast
    moreover have "sorted_wrt (\<lambda>p q. max_fee_per_gas p < max_fee_per_gas q) (butlast qs @ [last qs])"
      using bumped_sorted [OF assms(1,2)] ne by simp
    ultimately show ?thesis by (auto simp: sorted_wrt_append)
  qed simp
  then show ?thesis using worst_covers [OF assms(4)] worst_mono order_trans by blast
qed

end

end
