(* ===== verification/Chain_Kinds.thy ===== *)
theory Chain_Kinds
  imports Adapter
begin

text \<open>
  The five chain kinds of \<^verbatim>\<open>crates/gum-engine/src/chain/kinds/\<close> and the registry that maps the \<open>kind\<close>
  of a configuration block to one of them. Each kind is one value of the adapter record, with the
  methods of its \<open>impl ChainAdapter\<close>. The last section interprets the pricing contract for all five.
\<close>

section \<open>Geth\<close>

definition classify_geth :: "rpc_error \<Rightarrow> send_error_class" where
  "classify_geth err =
     (case message_of err of
        None \<Rightarrow> Indeterminate
      | Some (code, text) \<Rightarrow>
          if is_sync_timeout code text then AcceptedPending
          else if contains_any text [''already known'', ''alreadyknown'', ''transaction already imported'', ''already in mempool'']
            then AlreadyKnown
          else if contains_any text [''nonce too low''] then NonceTooLow
          else if contains_any text [''nonce too high'', ''nonce gap''] then NonceTooHigh
          else if contains_any text [''replacement transaction underpriced'', ''transaction underpriced'',
              ''max fee per gas less than block base fee'', ''gas price below minimum'',
              ''fee cap less than block base fee''] then FeeTooLow
          else if contains_any text [''insufficient funds''] then LacksFunds
          else if contains_any text [''txpool is full'', ''transaction pool is full'', ''account limit exceeded'',
              ''pool is not ready''] then PoolBusy
          else if contains_any text [''intrinsic gas too low'', ''exceeds block gas limit'',
              ''exceeds maximum per-transaction gas limit'', ''oversized data'',
              ''max priority fee per gas higher than max fee per gas'', ''invalid chain id'',
              ''invalid sender'', ''transaction type not supported'', ''max initcode size exceeded'',
              ''gas limit too high''] then Deterministic
          else Indeterminate)"

definition geth_replacement :: "fee_quote \<Rightarrow> u128 \<Rightarrow> u128 \<Rightarrow> tunables \<Rightarrow> fee_quote option" where
  "geth_replacement prev base_fee cap t =
     (let min_fee = bump_pct (max_fee_per_gas prev) 10;
          min_tip = bump_pct (max_priority_fee_per_gas prev) 10;
          target = sat_add (sat_mul base_fee (ucast (max_fee_multiplier_bps t)) div 10000) min_tip;
          max_fee = max target min_fee
      in if cap < max_fee
         then (if min_fee \<le> cap
               then Some \<lparr>max_fee_per_gas = cap, max_priority_fee_per_gas = min min_tip cap\<rparr> else None)
         else Some \<lparr>max_fee_per_gas = max_fee, max_priority_fee_per_gas = min min_tip max_fee\<rparr>)"

definition geth_accepts_replacement :: "fee_quote \<Rightarrow> fee_quote \<Rightarrow> bool" where
  "geth_accepts_replacement prev new =
     (bump_pct (max_fee_per_gas prev) 10 \<le> max_fee_per_gas new
      \<and> bump_pct (max_priority_fee_per_gas prev) 10 \<le> max_priority_fee_per_gas new)"

definition gas_times_price :: "receipt \<Rightarrow> u256" where
  "gas_times_price r =
     sat_mul (rc_gas_used r) (case rc_effective_gas_price r of Some p \<Rightarrow> p | None \<Rightarrow> 0)"

definition geth_defaults :: tunables where
  "geth_defaults = \<lparr>block_time_ms = 1000,
     confirmation_delay_ms = 0,
     estimate_multiplier_bps = 12000,
     max_fee_multiplier_bps = 20000,
     priority_fee_wei = 1000000000,
     max_fee_cap_wei = 500000000000,
     cancel_fee_cap_wei = 650000000000,
     fee_ttl_ms = 30000,
     stuck_after_blocks = 5,
     max_bumps = 5,
     sync_send_timeout_ms = 10000,
     receipt_poll_interval_ms = 500,
     idle_probe_interval_ms = 60000,
     degraded_probe_interval_ms = 5000,
     stall_warn_ms = 5000,
     stall_outage_ms = 15000,
     rpc_failure_threshold = 5,
     credits_per_call = 0,
     max_tx_gas = 30000000,
     balance_sweep_interval_ms = 300000,
     topup_wait_timeout_ms = 60000,
     liveness = RpcResponsive\<rparr>"

definition geth_worst_case_cost :: "tx_shape \<Rightarrow> fee_quote \<Rightarrow> cost_context \<Rightarrow> u256" where
  "geth_worst_case_cost tx fees ctx =
     sat_add (sat_mul (ucast (tx_gas_limit tx)) (ucast (max_fee_per_gas fees))) (tx_value tx)"

definition geth_actual_cost :: "u64 \<Rightarrow> receipt \<Rightarrow> actual_cost" where
  "geth_actual_cost gas_limit r = \<lparr>fee_paid = gas_times_price r, l1_fee = None\<rparr>"

definition geth :: chain_adapter where
  "geth = \<lparr>ad_kind = ''geth'', ad_defaults = geth_defaults,
     ad_capabilities = \<lparr>cap_replacement = True, cap_trust_stateless_rejects = True, cap_tip_matters = True\<rparr>,
     ad_worst_case_cost = geth_worst_case_cost,
     ad_actual_cost = geth_actual_cost,
     ad_spendable = spendable_default,
     ad_credit_maturity_blocks = credit_maturity_blocks_default,
     ad_fee_quote = fee_quote_default,
     ad_replacement = geth_replacement,
     ad_accepts_replacement = geth_accepts_replacement,
     ad_classify_send_error = classify_geth,
     ad_estimate_lacks_funds = estimate_lacks_funds_default,
     ad_stuck_ladder = [Rebroadcast, Diagnose, Bump, NoopTx],
     ad_confirm_check = BlockHash,
     ad_transfer_gas = FixedGas 21000\<rparr>"

section \<open>OP Stack\<close>

definition opstack_defaults :: tunables where
  "opstack_defaults = \<lparr>block_time_ms = 2000,
     confirmation_delay_ms = 4000,
     estimate_multiplier_bps = 12000,
     max_fee_multiplier_bps = 20000,
     priority_fee_wei = 1000000,
     max_fee_cap_wei = 50000000000,
     cancel_fee_cap_wei = 65000000000,
     fee_ttl_ms = 20000,
     stuck_after_blocks = 5,
     max_bumps = 5,
     sync_send_timeout_ms = 8000,
     receipt_poll_interval_ms = 1000,
     idle_probe_interval_ms = 60000,
     degraded_probe_interval_ms = 5000,
     stall_warn_ms = 6000,
     stall_outage_ms = 30000,
     rpc_failure_threshold = 5,
     credits_per_call = 20,
     max_tx_gas = 16777216,
     balance_sweep_interval_ms = 300000,
     topup_wait_timeout_ms = 60000,
     liveness = HeadAdvance\<rparr>"

definition opstack_worst_case_cost :: "tx_shape \<Rightarrow> fee_quote \<Rightarrow> cost_context \<Rightarrow> u256" where
  "opstack_worst_case_cost tx fees ctx =
     (let l2 = sat_mul (ucast (tx_gas_limit tx)) (ucast (max_fee_per_gas fees));
          per_byte = (case l1_fee_per_byte ctx of Some b \<Rightarrow> b | None \<Rightarrow> 50000000000);
          l1 = sat_mul (sat_mul per_byte (ucast (tx_encoded_len tx))) 2
      in sat_add (sat_add l2 l1) (tx_value tx))"

definition opstack_actual_cost :: "(string \<Rightarrow> u256 option) \<Rightarrow> u64 \<Rightarrow> receipt \<Rightarrow> actual_cost" where
  "opstack_actual_cost from_hex gas_limit r =
     (let l1 = extra_u256 from_hex r ''l1Fee'';
          operator = (case extra_u256 from_hex r ''operatorFee'' of Some v \<Rightarrow> v | None \<Rightarrow> 0)
      in \<lparr>fee_paid = sat_add (sat_add (gas_times_price r) (case l1 of Some v \<Rightarrow> v | None \<Rightarrow> 0)) operator,
          l1_fee = l1\<rparr>)"

definition opstack :: "(string \<Rightarrow> u256 option) \<Rightarrow> chain_adapter" where
  "opstack from_hex = \<lparr>ad_kind = ''opstack'', ad_defaults = opstack_defaults,
     ad_capabilities = \<lparr>cap_replacement = True, cap_trust_stateless_rejects = True, cap_tip_matters = True\<rparr>,
     ad_worst_case_cost = opstack_worst_case_cost,
     ad_actual_cost = opstack_actual_cost from_hex,
     ad_spendable = spendable_default,
     ad_credit_maturity_blocks = credit_maturity_blocks_default,
     ad_fee_quote = fee_quote_default,
     ad_replacement = geth_replacement,
     ad_accepts_replacement = geth_accepts_replacement,
     ad_classify_send_error = classify_geth,
     ad_estimate_lacks_funds = estimate_lacks_funds_default,
     ad_stuck_ladder = [Rebroadcast, Diagnose, Bump, NoopTx],
     ad_confirm_check = TxMembership 1,
     ad_transfer_gas = FixedGas 21000\<rparr>"

section \<open>Arbitrum\<close>

definition arbitrum_defaults :: tunables where
  "arbitrum_defaults = \<lparr>block_time_ms = 250,
     confirmation_delay_ms = 2000,
     estimate_multiplier_bps = 15000,
     max_fee_multiplier_bps = 30000,
     priority_fee_wei = 0,
     max_fee_cap_wei = 50000000000,
     cancel_fee_cap_wei = 65000000000,
     fee_ttl_ms = 15000,
     stuck_after_blocks = 60,
     max_bumps = 0,
     sync_send_timeout_ms = 8000,
     receipt_poll_interval_ms = 500,
     idle_probe_interval_ms = 60000,
     degraded_probe_interval_ms = 5000,
     stall_warn_ms = 5000,
     stall_outage_ms = 90000,
     rpc_failure_threshold = 5,
     credits_per_call = 20,
     max_tx_gas = 32000000,
     balance_sweep_interval_ms = 300000,
     topup_wait_timeout_ms = 60000,
     liveness = RpcResponsive\<rparr>"

definition arbitrum_replacement :: "fee_quote \<Rightarrow> u128 \<Rightarrow> u128 \<Rightarrow> tunables \<Rightarrow> fee_quote option" where
  "arbitrum_replacement prev base_fee cap t = None"

definition arbitrum_accepts_replacement :: "fee_quote \<Rightarrow> fee_quote \<Rightarrow> bool" where
  "arbitrum_accepts_replacement prev new = False"

definition classify_arbitrum :: "rpc_error \<Rightarrow> send_error_class" where
  "classify_arbitrum err =
     (case message_of err of
        None \<Rightarrow> Indeterminate
      | Some (code, text) \<Rightarrow>
          if is_sync_timeout code text then AcceptedPending
          else if contains_any text [''already known''] then AlreadyKnown
          else if contains_any text [''nonce too low''] then NonceTooLow
          else if contains_any text [''nonce too high''] then NonceTooHigh
          else if contains_any text [''max fee per gas less than block base fee'',
              ''fee cap less than block base fee''] then FeeTooLow
          else if contains_any text [''insufficient funds''] then LacksFunds
          else if contains_any text [''queue is full'', ''sequencer is overloaded'', ''too many requests'']
            then PoolBusy
          else if contains_any text [''intrinsic gas too low'', ''exceeds block gas limit'', ''oversized data'',
              ''max priority fee per gas higher than max fee per gas'', ''invalid chain id'',
              ''transaction type not supported''] then Deterministic
          else Indeterminate)"

definition arbitrum :: chain_adapter where
  "arbitrum = \<lparr>ad_kind = ''arbitrum'', ad_defaults = arbitrum_defaults,
     ad_capabilities = \<lparr>cap_replacement = False, cap_trust_stateless_rejects = True, cap_tip_matters = False\<rparr>,
     ad_worst_case_cost = geth_worst_case_cost,
     ad_actual_cost = geth_actual_cost,
     ad_spendable = spendable_default,
     ad_credit_maturity_blocks = credit_maturity_blocks_default,
     ad_fee_quote = fee_quote_default,
     ad_replacement = arbitrum_replacement,
     ad_accepts_replacement = arbitrum_accepts_replacement,
     ad_classify_send_error = classify_arbitrum,
     ad_estimate_lacks_funds = estimate_lacks_funds_default,
     ad_stuck_ladder = [Rebroadcast, Diagnose],
     ad_confirm_check = BlockHash,
     ad_transfer_gas = EstimateGas\<rparr>"

section \<open>Monad\<close>

definition RESERVE_WEI :: u128 where
  "RESERVE_WEI = 10000000000000000000"

definition monad_defaults :: tunables where
  "monad_defaults = \<lparr>block_time_ms = 300,
     confirmation_delay_ms = 800,
     estimate_multiplier_bps = 11500,
     max_fee_multiplier_bps = 15000,
     priority_fee_wei = 2000000000,
     max_fee_cap_wei = 2000000000000,
     cancel_fee_cap_wei = 2500000000000,
     fee_ttl_ms = 10000,
     stuck_after_blocks = 17,
     max_bumps = 3,
     sync_send_timeout_ms = 5000,
     receipt_poll_interval_ms = 400,
     idle_probe_interval_ms = 60000,
     degraded_probe_interval_ms = 5000,
     stall_warn_ms = 3000,
     stall_outage_ms = 10000,
     rpc_failure_threshold = 5,
     credits_per_call = 30,
     max_tx_gas = 30000000,
     balance_sweep_interval_ms = 300000,
     topup_wait_timeout_ms = 60000,
     liveness = HeadAdvance\<rparr>"

definition monad_actual_cost :: "u64 \<Rightarrow> receipt \<Rightarrow> actual_cost" where
  "monad_actual_cost gas_limit r =
     (let price = (case rc_effective_gas_price r of Some p \<Rightarrow> p | None \<Rightarrow> 0)
      in \<lparr>fee_paid = sat_mul (ucast gas_limit) price, l1_fee = None\<rparr>)"

definition monad_spendable :: "u256 \<Rightarrow> u256 \<Rightarrow> u256" where
  "monad_spendable confirmed value = (if value = 0 then confirmed else sat_sub confirmed (ucast RESERVE_WEI))"

definition monad_replacement :: "fee_quote \<Rightarrow> u128 \<Rightarrow> u128 \<Rightarrow> tunables \<Rightarrow> fee_quote option" where
  "monad_replacement prev base_fee cap t =
     (let target = sat_add (sat_mul base_fee (ucast (max_fee_multiplier_bps t)) div 10000)
                     (max_priority_fee_per_gas prev);
          max_fee = min (max target (sat_add (max_fee_per_gas prev) 1)) cap
      in if max_fee_per_gas prev < max_fee
         then Some \<lparr>max_fee_per_gas = max_fee,
                    max_priority_fee_per_gas = min (max_priority_fee_per_gas prev) max_fee\<rparr>
         else None)"

definition monad_accepts_replacement :: "fee_quote \<Rightarrow> fee_quote \<Rightarrow> bool" where
  "monad_accepts_replacement prev new =
     (max_fee_per_gas prev < max_fee_per_gas new
      \<and> max_priority_fee_per_gas prev \<le> max_priority_fee_per_gas new)"

definition classify_monad :: "rpc_error \<Rightarrow> send_error_class" where
  "classify_monad err =
     (case message_of err of
        None \<Rightarrow> Indeterminate
      | Some (code, text) \<Rightarrow>
          if is_sync_timeout code text then AcceptedPending
          else if contains_any text [''transaction nonce too low'', ''nonce too low''] then NonceTooLow
          else if contains_any text [''transaction fee too low'', ''fee too low''] then FeeTooLow
          else if contains_any text [''insufficient balance'', ''insufficient funds''] then LacksFunds
          else if contains_any text [''existing transaction had higher priority'', ''already known'']
            then AlreadyKnown
          else if contains_any text [''transaction pool is full'', ''transaction pool is not ready'',
              ''pool is full'', ''pool is not ready''] then PoolBusy
          else if contains_any text [''gas limit too low'', ''exceeds transaction gas limit'',
              ''invalid chain id'', ''max priority fee too high'', ''unsupported transaction type'',
              ''transaction decoding error''] then Deterministic
          else Indeterminate)"

definition monad :: chain_adapter where
  "monad = \<lparr>ad_kind = ''monad'', ad_defaults = monad_defaults,
     ad_capabilities = \<lparr>cap_replacement = True, cap_trust_stateless_rejects = False, cap_tip_matters = True\<rparr>,
     ad_worst_case_cost = geth_worst_case_cost,
     ad_actual_cost = monad_actual_cost,
     ad_spendable = monad_spendable,
     ad_credit_maturity_blocks = 4,
     ad_fee_quote = fee_quote_default,
     ad_replacement = monad_replacement,
     ad_accepts_replacement = monad_accepts_replacement,
     ad_classify_send_error = classify_monad,
     ad_estimate_lacks_funds = estimate_lacks_funds_default,
     ad_stuck_ladder = [Diagnose, Rebroadcast, Bump, NoopTx],
     ad_confirm_check = FinalizedTag,
     ad_transfer_gas = FixedGas 21000\<rparr>"

section \<open>Arc\<close>

definition arc_defaults :: tunables where
  "arc_defaults = \<lparr>block_time_ms = 500,
     confirmation_delay_ms = 0,
     estimate_multiplier_bps = 12000,
     max_fee_multiplier_bps = 20000,
     priority_fee_wei = 1000000000,
     max_fee_cap_wei = 1000000000000,
     cancel_fee_cap_wei = 1300000000000,
     fee_ttl_ms = 10000,
     stuck_after_blocks = 10,
     max_bumps = 5,
     sync_send_timeout_ms = 5000,
     receipt_poll_interval_ms = 400,
     idle_probe_interval_ms = 60000,
     degraded_probe_interval_ms = 5000,
     stall_warn_ms = 3000,
     stall_outage_ms = 10000,
     rpc_failure_threshold = 5,
     credits_per_call = 20,
     max_tx_gas = 16777216,
     balance_sweep_interval_ms = 300000,
     topup_wait_timeout_ms = 60000,
     liveness = HeadAdvance\<rparr>"

definition classify_arc :: "rpc_error \<Rightarrow> send_error_class" where
  "classify_arc err =
     (case message_of err of
        None \<Rightarrow> Indeterminate
      | Some (code, text) \<Rightarrow>
          if contains_any text [''transaction in invalid tx list''] then FeeTooLow
          else if contains_any text [''blocked address'', ''is denylisted'', ''address is blocklisted'']
            then Indeterminate
          else if contains_any text [''transaction relay upstreams are unreachable''] then PoolBusy
          else classify_geth err)"

definition arc_estimate_lacks_funds :: "rpc_error \<Rightarrow> bool" where
  "arc_estimate_lacks_funds err =
     (case message_of err of
        None \<Rightarrow> False
      | Some (code, text) \<Rightarrow> contains_any text [''insufficient funds'', ''revert: outoffunds''])"

definition arc_network :: chain_adapter where
  "arc_network = \<lparr>ad_kind = ''arc'', ad_defaults = arc_defaults,
     ad_capabilities = \<lparr>cap_replacement = True, cap_trust_stateless_rejects = True, cap_tip_matters = True\<rparr>,
     ad_worst_case_cost = geth_worst_case_cost,
     ad_actual_cost = geth_actual_cost,
     ad_spendable = spendable_default,
     ad_credit_maturity_blocks = credit_maturity_blocks_default,
     ad_fee_quote = fee_quote_default,
     ad_replacement = geth_replacement,
     ad_accepts_replacement = geth_accepts_replacement,
     ad_classify_send_error = classify_arc,
     ad_estimate_lacks_funds = arc_estimate_lacks_funds,
     ad_stuck_ladder = [Rebroadcast, Diagnose, Bump, NoopTx],
     ad_confirm_check = BlockHash,
     ad_transfer_gas = FixedGas 21000\<rparr>"

section \<open>Registry\<close>

definition adapter_for :: "(string \<Rightarrow> u256 option) \<Rightarrow> string \<Rightarrow> chain_adapter option" where
  "adapter_for from_hex kind =
     (if kind = ''geth'' then Some geth
      else if kind = ''opstack'' then Some (opstack from_hex)
      else if kind = ''arbitrum'' then Some arbitrum
      else if kind = ''monad'' then Some monad
      else if kind = ''arc'' then Some arc_network
      else None)"

definition known_kinds :: "string list" where
  "known_kinds = [''geth'', ''opstack'', ''arbitrum'', ''monad'', ''arc'']"

section \<open>The kinds honour the pricing contract\<close>

text \<open>Charges that a chain makes outside \<open>gas * price\<close>, and what is reserved for them: only the OP Stack
  has any (the L1 data fee and the operator fee).\<close>

definition side_charges :: "(string \<Rightarrow> u256 option) \<Rightarrow> chain_adapter \<Rightarrow> receipt \<Rightarrow> nat" where
  "side_charges from_hex a r =
     (if ad_kind a = ''opstack''
      then unat (case extra_u256 from_hex r ''l1Fee'' of Some v \<Rightarrow> v | None \<Rightarrow> 0)
         + unat (case extra_u256 from_hex r ''operatorFee'' of Some v \<Rightarrow> v | None \<Rightarrow> 0)
      else 0)"

definition side_reserve :: "chain_adapter \<Rightarrow> tx_shape \<Rightarrow> cost_context \<Rightarrow> nat" where
  "side_reserve a tx ctx =
     (if ad_kind a = ''opstack''
      then unat (sat_mul (sat_mul (case l1_fee_per_byte ctx of Some b \<Rightarrow> b | None \<Rightarrow> 50000000000)
                   (ucast (tx_encoded_len tx))) 2)
      else 0)"

lemma price_le:
  "unat (price_of r) \<le> unat (max_fee_per_gas fees) \<Longrightarrow> price_of r \<le> ucast (max_fee_per_gas fees)"
  by (simp add: word_nat unat_ucast_widen)

lemma gas_le: "unat (rc_gas_used r) \<le> unat (tx_gas_limit tx) \<Longrightarrow> rc_gas_used r \<le> ucast (tx_gas_limit tx)"
  by (simp add: word_nat unat_ucast_widen)

lemma gas_times_price_price_of: "gas_times_price r = sat_mul (rc_gas_used r) (price_of r)"
  by (simp add: gas_times_price_def price_of_def)

lemma geth_worst_covers:
  assumes "mined_within sd bd tx fees ctx r"
  shows "sat_add (fee_paid (geth_actual_cost (tx_gas_limit tx) r)) (tx_value tx)
    \<le> geth_worst_case_cost tx fees ctx"
  using assms
  by (simp add: mined_within_def geth_actual_cost_def geth_worst_case_cost_def
      gas_times_price_price_of sat_add_mono sat_mul_mono price_le gas_le)

lemma monad_worst_covers:
  assumes "mined_within sd bd tx fees ctx r"
  shows "sat_add (fee_paid (monad_actual_cost (tx_gas_limit tx) r)) (tx_value tx)
    \<le> geth_worst_case_cost tx fees ctx"
  using assms
  by (simp add: mined_within_def monad_actual_cost_def geth_worst_case_cost_def Let_def
      sat_add_mono sat_mul_mono price_le flip: price_of_def)

lemma geth_worst_mono:
  "max_fee_per_gas p \<le> max_fee_per_gas q \<Longrightarrow> geth_worst_case_cost tx p ctx \<le> geth_worst_case_cost tx q ctx"
  by (simp add: geth_worst_case_cost_def)
    (intro sat_add_mono sat_mul_mono order_refl, simp add: word_nat unat_ucast_widen)

lemma opstack_worst_covers:
  assumes "mined_within (side_charges h (opstack h)) (side_reserve (opstack h)) tx fees ctx r"
  shows "sat_add (fee_paid (opstack_actual_cost h (tx_gas_limit tx) r)) (tx_value tx)
    \<le> opstack_worst_case_cost tx fees ctx"
proof -
  let ?l1 = "case extra_u256 h r ''l1Fee'' of Some v \<Rightarrow> v | None \<Rightarrow> 0"
  let ?op = "case extra_u256 h r ''operatorFee'' of Some v \<Rightarrow> v | None \<Rightarrow> 0"
  let ?b = "sat_mul (sat_mul (case l1_fee_per_byte ctx of Some b \<Rightarrow> b | None \<Rightarrow> 50000000000)
              (ucast (tx_encoded_len tx))) 2"
  have "sat_add ?l1 ?op \<le> ?b"
    using assms by (simp add: mined_within_def side_charges_def side_reserve_def opstack_def
        word_nat sat_nat min.coboundedI1)
  moreover have "gas_times_price r \<le> sat_mul (ucast (tx_gas_limit tx)) (ucast (max_fee_per_gas fees))"
    using assms by (simp add: mined_within_def gas_times_price_price_of sat_mul_mono price_le gas_le)
  ultimately show ?thesis
    by (simp add: opstack_actual_cost_def opstack_worst_case_cost_def Let_def)
      (subst sat_add_assoc [of "gas_times_price r"], intro sat_add_mono order_refl)
qed

lemma opstack_worst_mono:
  "max_fee_per_gas p \<le> max_fee_per_gas q \<Longrightarrow> opstack_worst_case_cost tx p ctx \<le> opstack_worst_case_cost tx q ctx"
  by (simp add: opstack_worst_case_cost_def Let_def)
    (intro sat_add_mono sat_mul_mono order_refl, simp add: word_nat unat_ucast_widen)

lemma geth_replacement_spec:
  assumes "geth_replacement prev base cap t = Some q"
  shows "max_fee_per_gas q \<le> cap" "quote_ok q" "bump_pct (max_fee_per_gas prev) 10 \<le> max_fee_per_gas q"
    "quote_ok prev \<Longrightarrow> geth_accepts_replacement prev q"
proof -
  let ?fee = "bump_pct (max_fee_per_gas prev) 10"
  let ?tip = "bump_pct (max_priority_fee_per_gas prev) 10"
  let ?target = "sat_add (sat_mul base (ucast (max_fee_multiplier_bps t)) div 10000) ?tip"
  have t: "?tip \<le> ?target" by (rule sat_add_ge)
  have q: "q = \<lparr>max_fee_per_gas = cap, max_priority_fee_per_gas = min ?tip cap\<rparr> \<and> ?fee \<le> cap
         \<or> q = \<lparr>max_fee_per_gas = max ?target ?fee, max_priority_fee_per_gas = min ?tip (max ?target ?fee)\<rparr>
             \<and> max ?target ?fee \<le> cap"
    using assms by (auto simp: geth_replacement_def Let_def not_less split: if_splits)
  then show "max_fee_per_gas q \<le> cap" "quote_ok q" "?fee \<le> max_fee_per_gas q"
    by (auto simp: quote_ok_def)
  show "geth_accepts_replacement prev q" if "quote_ok prev"
  proof -
    have "?tip \<le> ?fee" using that by (simp add: quote_ok_def bump_pct_mono)
    with q t show ?thesis by (auto simp: geth_accepts_replacement_def le_max_iff_disj)
  qed
qed

lemma geth_replacement_raises:
  assumes "geth_replacement prev base cap t = Some q" and "cap < - 1"
  shows "max_fee_per_gas prev < max_fee_per_gas q"
proof -
  have le: "bump_pct (max_fee_per_gas prev) 10 \<le> max_fee_per_gas q" "max_fee_per_gas q \<le> cap"
    using geth_replacement_spec [OF assms(1)] by simp_all
  then have "max_fee_per_gas prev < - 1"
    using assms(2) bump_pct_ge [of "max_fee_per_gas prev" 10] by simp
  then show ?thesis using bump_pct_gt le(1) order_less_le_trans by blast
qed

lemma monad_replacement_spec:
  assumes "monad_replacement prev base cap t = Some q"
  shows "max_fee_per_gas q \<le> cap" "quote_ok q" "max_fee_per_gas prev < max_fee_per_gas q"
    "quote_ok prev \<Longrightarrow> monad_accepts_replacement prev q"
  using assms by (auto simp: monad_replacement_def Let_def quote_ok_def monad_accepts_replacement_def
      min_def split: if_splits)

lemmas adapter_ops = geth_def opstack_def arbitrum_def monad_def arc_network_def

interpretation geth_p: chain_pricing "ad_worst_case_cost geth" "ad_actual_cost geth" "ad_replacement geth"
    "ad_accepts_replacement geth" "side_charges h geth" "side_reserve geth" for h
  by unfold_locales
    (auto simp: geth_def geth_worst_mono geth_replacement_spec geth_replacement_raises
      intro: geth_worst_covers)

interpretation opstack_p: chain_pricing "ad_worst_case_cost (opstack h)" "ad_actual_cost (opstack h)"
    "ad_replacement (opstack h)" "ad_accepts_replacement (opstack h)" "side_charges h (opstack h)"
    "side_reserve (opstack h)" for h
proof unfold_locales
  show "sat_add (fee_paid (ad_actual_cost (opstack h) (tx_gas_limit tx) r)) (tx_value tx)
      \<le> ad_worst_case_cost (opstack h) tx fees ctx"
    if "mined_within (side_charges h (opstack h)) (side_reserve (opstack h)) tx fees ctx r" for tx fees ctx r
    using opstack_worst_covers [OF that] by (simp add: opstack_def)
qed (auto simp: opstack_def opstack_worst_mono geth_replacement_spec geth_replacement_raises)

interpretation arbitrum_p: chain_pricing "ad_worst_case_cost arbitrum" "ad_actual_cost arbitrum"
    "ad_replacement arbitrum" "ad_accepts_replacement arbitrum" "side_charges h arbitrum"
    "side_reserve arbitrum" for h
  by unfold_locales
    (auto simp: arbitrum_def geth_worst_mono arbitrum_replacement_def intro: geth_worst_covers)

interpretation monad_p: chain_pricing "ad_worst_case_cost monad" "ad_actual_cost monad"
    "ad_replacement monad" "ad_accepts_replacement monad" "side_charges h monad" "side_reserve monad" for h
  by unfold_locales
    (auto simp: monad_def geth_worst_mono monad_replacement_spec intro: monad_worst_covers)

interpretation arc_p: chain_pricing "ad_worst_case_cost arc_network" "ad_actual_cost arc_network"
    "ad_replacement arc_network" "ad_accepts_replacement arc_network" "side_charges h arc_network"
    "side_reserve arc_network" for h
  by unfold_locales
    (auto simp: arc_network_def geth_worst_mono geth_replacement_spec geth_replacement_raises
      intro: geth_worst_covers)

text \<open>Every configured kind is one of the five, so a law of all five is a law of the registry.\<close>

lemma adapter_for_cases:
  assumes "adapter_for h kind = Some a"
  obtains "a = geth" | "a = opstack h" | "a = arbitrum" | "a = monad" | "a = arc_network"
  using assms by (auto simp: adapter_for_def split: if_splits)

lemma adapter_for_pricing:
  assumes "adapter_for h kind = Some a"
  shows "chain_pricing (ad_worst_case_cost a) (ad_actual_cost a) (ad_replacement a)
    (ad_accepts_replacement a) (side_charges h a) (side_reserve a)"
  using assms
  by (rule adapter_for_cases)
    (use geth_p.chain_pricing_axioms opstack_p.chain_pricing_axioms arbitrum_p.chain_pricing_axioms
      monad_p.chain_pricing_axioms arc_p.chain_pricing_axioms in blast)+

section \<open>Properties of every kind\<close>


definition q100 :: fee_quote where
  "q100 = \<lparr>max_fee_per_gas = 100, max_priority_fee_per_gas = 10\<rparr>"

definition q231 :: fee_quote where
  "q231 = \<lparr>max_fee_per_gas = 231, max_priority_fee_per_gas = 11\<rparr>"

definition plain_shape :: tx_shape where
  "plain_shape = \<lparr>tx_gas_limit = 21000, tx_value = 7, tx_encoded_len = 120\<rparr>"

definition plain_receipt :: receipt where
  "plain_receipt = \<lparr>rc_transaction_hash = 1, rc_block_number = Some 5, rc_block_hash = Some 9,
     rc_status = Some 1, rc_gas_used = 21000, rc_effective_gas_price = Some 90, rc_other = []\<rparr>"

lemma geth_replacement_example: "ad_replacement geth q100 110 1000 geth_defaults = Some q231"
  by (simp add: geth_def geth_replacement_def q100_def q231_def geth_defaults_def bump_pct_def Let_def
      sat_mul_def sat_add_def div_ceil_def)


text \<open>A replacement quote is one the chain's pool accepts: on every kind, a quote computed to replace
  a well-formed one passes that kind's own acceptance rule, never exceeds the cap it was given, has a
  tip within its fee ceiling, and strictly raises the fee ceiling.\<close>

theorem replacement_is_accepted_and_capped:
  assumes "adapter_for h kind = Some a" and "quote_ok prev"
    and "ad_replacement a prev base cap t = Some q" and "cap < - 1"
  shows "ad_accepts_replacement a prev q \<and> max_fee_per_gas q \<le> cap \<and> quote_ok q
    \<and> max_fee_per_gas prev < max_fee_per_gas q"
proof -
  note laws = adapter_for_pricing [OF assms(1)]
  show ?thesis
    using chain_pricing.replace_accepted [OF laws assms(2,3)] chain_pricing.replace_capped [OF laws assms(3)]
      chain_pricing.replace_raises [OF laws assms(3,4)] by blast
qed

theorem replacement_is_accepted_and_capped_witness:
  "ad_replacement geth q100 110 1000 geth_defaults = Some q231
   \<and> ad_accepts_replacement geth q100 q231 \<and> max_fee_per_gas q231 \<le> 1000"
  using replacement_is_accepted_and_capped [of "\<lambda>_. None" "''geth''" geth q100 110 1000 geth_defaults q231]
    geth_replacement_example
  by (simp add: adapter_for_def quote_ok_def q100_def)

lemma geth_replacement_some:
  "bump_pct (max_fee_per_gas prev) 10 \<le> cap \<Longrightarrow> \<exists>q. geth_replacement prev base cap t = Some q"
  by (auto simp: geth_replacement_def Let_def)

lemma monad_replacement_some:
  "max_fee_per_gas prev < cap \<Longrightarrow> \<exists>q. monad_replacement prev base cap t = Some q"
proof -
  assume lt: "max_fee_per_gas prev < cap"
  then have "max_fee_per_gas prev < sat_add (max_fee_per_gas prev) 1"
    using unat_le_max [of cap] by (simp add: word_nat sat_nat)
  with lt show ?thesis by (simp add: monad_replacement_def Let_def less_max_iff_disj)
qed

lemma bump_within:
  assumes "prev \<le> job_cap" and "(unat job_cap * 110 + 99) div 100 + 1 \<le> unat cancel_cap"
    and "unat job_cap \<le> 2 ^ 100"
  shows "bump_pct prev 10 \<le> cancel_cap"
proof -
  have le: "unat prev \<le> unat job_cap" using assms(1) by (simp add: word_le_nat_alt)
  then have "unat (bump_pct prev 10) \<le> (unat prev * 110 + 99) div 100 + 1"
    using assms(3) by (intro bump_pct_10_le) simp
  also have "\<dots> \<le> (unat job_cap * 110 + 99) div 100 + 1" using le by (simp add: div_le_mono)
  finally show ?thesis using assms(2) by (simp add: word_le_nat_alt)
qed

text \<open>With the default tunables, a cancel can always out-bid the job it cancels: on every kind whose
  escalation ladder ends in a cancel, whatever the base fee, a transaction whose fee ceiling is within
  the job cap has a replacement quote within the cancel cap.\<close>

theorem cancel_can_always_outbid:
  assumes "adapter_for h kind = Some a" and "NoopTx \<in> set (ad_stuck_ladder a)"
    and "max_fee_per_gas prev \<le> max_fee_cap_wei (ad_defaults a)"
  shows "\<exists>q. ad_replacement a prev base (cancel_fee_cap_wei (ad_defaults a)) (ad_defaults a) = Some q"
proof -
  have geth_like: ?thesis
    if "a = geth \<or> a = opstack h \<or> a = arc_network"
  proof -
    from that have "(unat (max_fee_cap_wei (ad_defaults a)) * 110 + 99) div 100 + 1
        \<le> unat (cancel_fee_cap_wei (ad_defaults a))" "unat (max_fee_cap_wei (ad_defaults a)) \<le> 2 ^ 100"
      by (auto simp: adapter_ops geth_defaults_def opstack_defaults_def arc_defaults_def)
    then have "bump_pct (max_fee_per_gas prev) 10 \<le> cancel_fee_cap_wei (ad_defaults a)"
      by (rule bump_within [OF assms(3)])
    with that show ?thesis
      using geth_replacement_some [of prev] by (auto simp: adapter_ops)
  qed
  have "max_fee_per_gas prev < cancel_fee_cap_wei (ad_defaults a)" if "a = monad"
    using that assms(3) by (simp add: adapter_ops monad_defaults_def word_nat)
  with assms(1,2) geth_like monad_replacement_some [of prev] show ?thesis
    by (elim adapter_for_cases) (auto simp: adapter_ops)
qed

theorem cancel_can_always_outbid_witness:
  "\<exists>q. ad_replacement geth \<lparr>max_fee_per_gas = 500000000000, max_priority_fee_per_gas = 1000000000\<rparr> 0
     (cancel_fee_cap_wei (ad_defaults geth)) (ad_defaults geth) = Some q"
  by (rule cancel_can_always_outbid [of "\<lambda>_. None" "''geth''"])
    (simp_all add: adapter_for_def geth_def geth_defaults_def)

text \<open>C25. Only an explicit answer of the node is ever a verdict: on every kind, a transport failure, a
  throttled call, an open breaker or an undecodable body is classified as indeterminate, the class that
  never lets a nonce be given up.\<close>

theorem only_node_answers_are_verdicts:
  assumes "adapter_for h kind = Some a" and "\<nexists>c m d. err = Response c m d"
  shows "ad_classify_send_error a err = Indeterminate"
proof -
  have "message_of err = None" using assms(2) by (cases err) (auto simp: message_of_def)
  with assms(1) show ?thesis
    by (elim adapter_for_cases)
      (auto simp: adapter_ops classify_geth_def classify_arbitrum_def classify_monad_def classify_arc_def)
qed

theorem only_node_answers_are_verdicts_witness:
  "ad_classify_send_error arc_network (Transport ''connection reset by peer'') = Indeterminate"
  by (rule only_node_answers_are_verdicts [of "\<lambda>_. None" "''arc''"]) (simp_all add: adapter_for_def)

text \<open>The quote for a fresh transaction is well formed and within its ceilings on every kind: the tip
  does not exceed the fee ceiling, the ceiling is the configured cap at most (or the tip, when the tip
  itself is above the cap), and it reaches the multiplied base fee plus the tip whenever the cap allows.\<close>

theorem fresh_quote_is_well_formed:
  assumes "adapter_for h kind = Some a"
  shows "quote_ok (ad_fee_quote a base t)
    \<and> max_fee_per_gas (ad_fee_quote a base t) \<le> max (max_fee_cap_wei t) (priority_fee_wei t)
    \<and> (sat_add (sat_mul base (ucast (max_fee_multiplier_bps t)) div 10000) (priority_fee_wei t) \<le> max_fee_cap_wei t
        \<longrightarrow> sat_add (sat_mul base (ucast (max_fee_multiplier_bps t)) div 10000) (priority_fee_wei t)
            \<le> max_fee_per_gas (ad_fee_quote a base t))"
proof -
  have "ad_fee_quote a = fee_quote_default"
    using assms by (rule adapter_for_cases) (simp_all add: adapter_ops)
  then show ?thesis by (auto simp: fee_quote_default_def Let_def quote_ok_def le_max_iff_disj min_le_iff_disj)
qed

theorem fresh_quote_is_well_formed_witness:
  "ad_fee_quote geth 100 geth_defaults = \<lparr>max_fee_per_gas = 1000000200, max_priority_fee_per_gas = 1000000000\<rparr>
   \<and> quote_ok (ad_fee_quote geth 100 geth_defaults)"
  using fresh_quote_is_well_formed [of "\<lambda>_. None" "''geth''" geth 100 geth_defaults]
  by (simp add: adapter_for_def geth_def fee_quote_default_def geth_defaults_def Let_def sat_mul_def sat_add_def)

end
