(* ===== verification/Sql.thy ===== *)
theory Sql
  imports Domain
begin

text \<open>
  The fragment of SQL the store uses, on tables as lists of rows in insertion order: \<open>UPDATE ... WHERE\<close>,
  the affected-row count, and the conversions between Rust's unsigned integers and the signed
  \<open>BIGINT\<close> columns (\<open>as i64\<close> and \<open>as u64\<close>, which keep the bit pattern). A transaction is a function
  from the database to an error or the new database: an early return rolls everything back.
\<close>

section \<open>Statements\<close>

definition sql_update :: "('r \<Rightarrow> bool) \<Rightarrow> ('r \<Rightarrow> 'r) \<Rightarrow> 'r list \<Rightarrow> 'r list" where
  "sql_update p f t = map (\<lambda>r. if p r then f r else r) t"

definition sql_count :: "('r \<Rightarrow> bool) \<Rightarrow> 'r list \<Rightarrow> nat" where
  "sql_count p t = length (filter p t)"

definition sql_delete :: "('r \<Rightarrow> bool) \<Rightarrow> 'r list \<Rightarrow> 'r list" where
  "sql_delete p t = filter (\<lambda>r. \<not> p r) t"

text \<open>SQLSTATE of a violated unique index, and of a violated foreign key.\<close>

definition unique_violation :: store_error where
  "unique_violation = Db (Database (Some ''23505''))"

definition foreign_key_violation :: store_error where
  "foreign_key_violation = Db (Database (Some ''23503''))"

definition i64_of_u64 :: "u64 \<Rightarrow> int" where
  "i64_of_u64 n = sint n"

definition u64_of_i64 :: "int \<Rightarrow> u64" where
  "u64_of_i64 i = word_of_int i"

section \<open>Facts\<close>

lemma i64_roundtrip [simp]: "u64_of_i64 (i64_of_u64 n) = n"
  by (simp add: i64_of_u64_def u64_of_i64_def)

lemma i64_eq_iff [simp]: "i64_of_u64 m = i64_of_u64 n \<longleftrightarrow> m = n"
  by (metis i64_roundtrip)

lemma i64_of_small:
  assumes "unat n < 2 ^ 63"
  shows "i64_of_u64 n = int (unat n)"
proof -
  have lt: "uint n < 2 ^ 63" using assms
    by (metis nat_uint_eq nat_less_iff of_nat_numeral of_nat_power uint_ge_0 zless_nat_eq_int_zless)
  then have nb: "\<not> bit (uint n) 63"
    by (simp add: bit_iff_odd div_pos_pos_trivial)
  have "sint n = take_bit 63 (uint n)"
    using nb by (simp add: sint_uint signed_take_bit_eq_if_positive bit_uint_iff)
  then have "sint n = uint n" using lt by (simp only: take_bit_int_eq_self [OF uint_ge_0])
  then show ?thesis by (simp add: i64_of_u64_def)
qed

lemma set_sql_update: "set (sql_update p f t) = (\<lambda>r. if p r then f r else r) ` set t"
  by (simp add: sql_update_def)

lemma in_sql_updateE:
  assumes "r \<in> set (sql_update p f t)"
  obtains (hit) r0 where "r0 \<in> set t" "p r0" "r = f r0"
    | (miss) "r \<in> set t" "\<not> p r"
  using assms by (auto simp: set_sql_update split: if_splits)

lemma length_sql_update [simp]: "length (sql_update p f t) = length t"
  by (simp add: sql_update_def)

lemma sql_update_append [simp]: "sql_update p f (t @ u) = sql_update p f t @ sql_update p f u"
  by (simp add: sql_update_def)

lemma sql_update_Nil [simp]: "sql_update p f [] = []"
  by (simp add: sql_update_def)

lemma sql_update_Cons [simp]: "sql_update p f (r # t) = (if p r then f r else r) # sql_update p f t"
  by (simp add: sql_update_def)

lemma map_sql_update:
  "(\<And>r. p r \<Longrightarrow> k (f r) = k r) \<Longrightarrow> map k (sql_update p f t) = map k t"
  by (simp add: sql_update_def)

lemma sql_update_none: "\<forall>r\<in>set t. \<not> p r \<Longrightarrow> sql_update p f t = t"
  by (induction t) simp_all

lemma sql_count_0_iff: "sql_count p t = 0 \<longleftrightarrow> (\<forall>r\<in>set t. \<not> p r)"
  by (simp add: sql_count_def filter_empty_conv)

lemma sql_count_1_ex: "sql_count p t = 1 \<Longrightarrow> \<exists>r\<in>set t. p r"
  by (metis One_nat_def filter_empty_conv list.size(3) sql_count_def zero_neq_one)

text \<open>With a key column that is unique in the table, a statement keyed on it touches one row.\<close>

lemma sql_count_key_le_1: "distinct (map k t) \<Longrightarrow> sql_count (\<lambda>r. k r = x \<and> q r) t \<le> 1"
proof (induction t)
  case (Cons r t)
  show ?case
  proof (cases "k r = x \<and> q r")
    case True
    with Cons.prems have "x \<notin> k ` set t" by simp
    then have "\<forall>r'\<in>set t. k r' \<noteq> x" by blast
    then have "\<forall>r'\<in>set t. \<not> (k r' = x \<and> q r')" by blast
    then have "sql_count (\<lambda>r. k r = x \<and> q r) t = 0" by (simp only: sql_count_0_iff)
    with True show ?thesis by (simp add: sql_count_def)
  qed (use Cons in \<open>auto simp: sql_count_def\<close>)
qed (simp add: sql_count_def)

lemma sql_count_key_ne_1:
  "distinct (map k t) \<Longrightarrow> sql_count (\<lambda>r. k r = x \<and> q r) t \<noteq> 1 \<longleftrightarrow> (\<forall>r\<in>set t. \<not> (k r = x \<and> q r))"
  using sql_count_key_le_1 [of k t x q] sql_count_0_iff [of "\<lambda>r. k r = x \<and> q r" t] by linarith

text \<open>The single row with a key.\<close>

lemma find_key:
  "distinct (map k t) \<Longrightarrow> r \<in> set t \<Longrightarrow> find (\<lambda>r'. k r' = k r) t = Some r"
  by (induction t) auto

text \<open>Sums over a table.\<close>

lemma sum_list_sql_update_one:
  fixes w :: "'r \<Rightarrow> int"
  assumes "distinct (map k t)" "r \<in> set t" "p r" "\<And>r'. r' \<in> set t \<Longrightarrow> p r' \<Longrightarrow> k r' = k r"
  shows "sum_list (map w (sql_update p f t)) = sum_list (map w t) - w r + w (f r)"
  using assms
proof (induction t)
  case (Cons r' t)
  show ?case
  proof (cases "r' = r")
    case True
    have "\<forall>x\<in>set t. \<not> p x"
    proof
      fix x assume x: "x \<in> set t"
      show "\<not> p x"
      proof
        assume "p x"
        with x Cons.prems(4) have "k x = k r" by simp
        then have "k r \<in> set (map k t)" using imageI [OF x, of k] by simp
        with True Cons.prems(1) show False by simp
      qed
    qed
    then have "sql_update p f t = t" by (rule sql_update_none)
    with True Cons.prems(3) show ?thesis by simp
  next
    case False
    with Cons.prems have r: "r \<in> set t" by simp
    then have "k r \<in> set (map k t)" by simp
    then have "k r' \<noteq> k r" using Cons.prems(1) by auto
    then have "\<not> p r'" using Cons.prems(4) by auto
    moreover have "sum_list (map w (sql_update p f t)) = sum_list (map w t) - w r + w (f r)"
    proof (rule Cons.IH)
      show "distinct (map k t)" using Cons.prems(1) by simp
      show "k x = k r" if "x \<in> set t" "p x" for x using Cons.prems(4) [of x] that by simp
    qed (use r Cons.prems(3) in \<open>simp_all\<close>)
    ultimately show ?thesis by simp
  qed
qed simp

end
