(* ===== verification/Store_Schema.thy ===== *)
theory Store_Schema
  imports Sql
begin

text \<open>
  The tables of \<^verbatim>\<open>crates/gum-engine/migrations\<close> and the row types of the store modules
  (\<^verbatim>\<open>store/jobs.rs\<close>, \<^verbatim>\<open>store/attempts.rs\<close>, \<^verbatim>\<open>store/outbox.rs\<close>, \<^verbatim>\<open>store/misc.rs\<close>).

  A table is the list of its rows in insertion order. \<open>BIGINT\<close> and \<open>NUMERIC\<close> columns are integers;
  a \<open>BIGINT\<close> holds the two's complement reading of the Rust value. Columns of fixed-format text are
  kept as the value they spell: addresses and hashes (the spelling is injective, \<open>addr_hex_inj\<close> and
  \<open>hash_hex_inj\<close>) and the status, outcome and purpose columns (\<open>status_columns_roundtrip\<close>).
  A \<open>NULL\<close> is \<open>None\<close>.
\<close>

section \<open>Jobs\<close>

text \<open>The columns the API reads (\<open>JobRow\<close>), and the bookkeeping columns of the table beside them.\<close>

record job_row =
  jr_id :: job_id
  jr_chain_id :: u64
  jr_to_addr :: address
  jr_data :: bytes
  jr_value :: int
  jr_gas_limit :: "int option"
  jr_deadline :: "timestamp option"
  jr_webhook_url :: string
  jr_status :: job_status
  jr_outcome :: "outcome option"
  jr_signer :: "address option"
  jr_nonce :: "int option"
  jr_tx_hash :: "b256 option"
  jr_block_number :: "int option"
  jr_block_hash :: "b256 option"
  jr_gas_used :: "int option"
  jr_effective_gas_price :: "int option"
  jr_fee_paid :: "int option"
  jr_l1_fee :: "int option"
  jr_error_code :: "string option"
  jr_error_message :: "string option"
  jr_revert_data :: "bytes option"
  jr_receipt :: "json option"
  jr_created_at :: timestamp
  jr_sent_at :: "timestamp option"
  jr_included_at :: "timestamp option"
  jr_confirmed_at :: "timestamp option"
  jr_failed_at :: "timestamp option"

record job_rec = job_row +
  jc_seq :: int
  jc_idempotency_key :: "string option"
  jc_request_hash :: string
  jc_requeue_rank :: int
  jc_requeue_count :: int
  jc_webhook_seq :: int

section \<open>Nonce slots, attempts and top-ups\<close>

record slot_rec =
  sl_chain_id :: int
  sl_signer :: address
  sl_nonce :: int
  sl_owner_kind :: string
  sl_owner_id :: uuid
  sl_created_at :: timestamp

record attempt_rec =
  ar_id :: uuid
  ar_chain_id :: int
  ar_signer :: address
  ar_nonce :: int
  ar_purpose :: attempt_purpose
  ar_job_id :: "uuid option"
  ar_topup_id :: "uuid option"
  ar_tx_hash :: b256
  ar_raw_tx :: "bytes option"
  ar_gas_limit :: int
  ar_max_fee_per_gas :: int
  ar_max_priority_fee_per_gas :: int
  ar_value :: int
  ar_status :: attempt_status
  ar_block_number :: "int option"
  ar_block_hash :: "b256 option"
  ar_gas_used :: "int option"
  ar_fee_paid :: "int option"
  ar_created_at :: timestamp
  ar_updated_at :: timestamp

datatype topup_status = TRequested | TSent | TIncluded | TConfirmed | TFailed

record topup_rec =
  tu_id :: uuid
  tu_chain_id :: int
  tu_treasury :: address
  tu_signer :: address
  tu_amount :: int
  tu_status :: topup_status
  tu_error :: "string option"
  tu_created_at :: timestamp
  tu_updated_at :: timestamp

section \<open>Pairs and signers\<close>

record pair_rec =
  pr_chain_id :: int
  pr_signer :: address
  pr_role :: pair_role
  pr_nonce_hwm :: "int option"
  pr_manual_pause :: bool
  pr_pause_reason :: "pause_reason option"
  pr_recovery_step :: "recovery_step option"
  pr_pause_detail :: "string option"
  pr_paused_at :: "timestamp option"
  pr_updated_at :: timestamp

record signer_rec =
  sg_address :: address
  sg_key_ref :: string
  sg_role :: pair_role
  sg_first_seen_at :: timestamp

section \<open>Webhook deliveries\<close>

text \<open>The body of an event: the members of the JSON object that \<open>payload\<close> builds.\<close>

record event_error =
  ee_code :: string
  ee_message :: "string option"
  ee_revert_data :: "bytes option"

record event_body =
  eb_event_id :: uuid
  eb_event :: webhook_event
  eb_sequence :: int
  eb_job_id :: job_id
  eb_chain_id :: u64
  eb_status :: job_status
  eb_outcome :: "outcome option"
  eb_tx_hash :: "b256 option"
  eb_block_number :: "int option"
  eb_block_hash :: "b256 option"
  eb_signer :: "address option"
  eb_nonce :: "int option"
  eb_gas_used :: "int option"
  eb_effective_gas_price :: "int option"
  eb_fee_paid :: "int option"
  eb_reincluded :: bool
  eb_receipt :: "json option"
  eb_error :: "event_error option"
  eb_timestamp :: timestamp

datatype delivery_status = DPending | DDelivered | DDead

record delivery_rec =
  wd_id :: uuid
  wd_job_id :: uuid
  wd_event :: webhook_event
  wd_version :: int
  wd_sequence :: int
  wd_url :: string
  wd_payload :: event_body
  wd_status :: delivery_status
  wd_attempts :: int
  wd_next_attempt_at :: timestamp
  wd_last_status_code :: "int option"
  wd_last_error :: "string option"
  wd_created_at :: timestamp
  wd_delivered_at :: "timestamp option"

section \<open>Accounting\<close>

record gas_rec =
  gl_chain_id :: int
  gl_signer :: address
  gl_purpose :: attempt_purpose
  gl_tx_count :: int
  gl_gas_used :: int
  gl_fee_paid :: int

datatype bucket = BSucceeded | BReverted | BFailed

text \<open>The signer column is the empty text when the job never reached a signer.\<close>

record rollup_rec =
  ru_chain_id :: int
  ru_signer :: "address option"
  ru_bucket :: bucket
  ru_count :: int

record dead_letter_rec =
  dl_id :: uuid
  dl_kind :: string
  dl_payload :: json
  dl_error :: string
  dl_created_at :: timestamp

section \<open>The database\<close>

record db =
  db_epoch :: int
  db_jobs :: "job_rec list"
  db_next_seq :: int
  db_slots :: "slot_rec list"
  db_topups :: "topup_rec list"
  db_attempts :: "attempt_rec list"
  db_pairs :: "pair_rec list"
  db_signers :: "signer_rec list"
  db_deliveries :: "delivery_rec list"
  db_gas :: "gas_rec list"
  db_rollup :: "rollup_rec list"
  db_dead :: "dead_letter_rec list"

text \<open>The database as the first migration leaves it.\<close>

definition empty_db :: db where
  "empty_db = \<lparr>db_epoch = 0, db_jobs = [], db_next_seq = 1, db_slots = [], db_topups = [],
     db_attempts = [], db_pairs = [], db_signers = [], db_deliveries = [], db_gas = [], db_rollup = [],
     db_dead = []\<rparr>"

text \<open>The nonce a row is about.\<close>

type_synonym nonce_key = "int \<times> address \<times> int"

definition slot_key :: "slot_rec \<Rightarrow> nonce_key" where
  "slot_key s = (sl_chain_id s, sl_signer s, sl_nonce s)"

definition att_key :: "attempt_rec \<Rightarrow> nonce_key" where
  "att_key r = (ar_chain_id r, ar_signer r, ar_nonce r)"

definition key_of :: "attempt \<Rightarrow> nonce_key" where
  "key_of a = (i64_of_u64 (at_chain_id a), at_signer a, i64_of_u64 (at_nonce a))"

definition pair_key_rec :: "pair_rec \<Rightarrow> int \<times> address" where
  "pair_key_rec p = (pr_chain_id p, pr_signer p)"

section \<open>Value conversions\<close>

text \<open>\<open>parse_u256\<close> and \<open>parse_u128\<close> on a \<open>NUMERIC\<close> column: the value when it fits the type.\<close>

definition parse_u256 :: "int \<Rightarrow> (u256, store_error) result" where
  "parse_u256 n = (if 0 \<le> n \<and> n < 2 ^ 256 then Ok (word_of_int n) else Err (Corrupt ''numeric''))"

definition parse_u128 :: "int \<Rightarrow> (u128, store_error) result" where
  "parse_u128 n = (if 0 \<le> n \<and> n < 2 ^ 128 then Ok (word_of_int n) else Err (Corrupt ''numeric''))"

lemma parse_u256_uint [simp]: "parse_u256 (uint v) = Ok v"
  using unsigned_less [of v, where ?'a = int] by (simp add: parse_u256_def)

lemma parse_u128_uint [simp]: "parse_u128 (uint v) = Ok v"
  using unsigned_less [of v, where ?'a = int] by (simp add: parse_u128_def)

end
