(* ===== verification/Store_Misc.thy ===== *)
theory Store_Misc
  imports Store_Schema
begin

text \<open>
  \<^verbatim>\<open>store/misc.rs\<close>: the gas ledger and the rollup counters (written inside the caller's
  transaction), pairs, the signer registry, top-ups and dead letters. Wall-clock time and fresh
  identifiers are arguments.
\<close>

section \<open>Accounting\<close>

text \<open>\<open>INSERT ... ON CONFLICT DO UPDATE\<close> on the gas ledger, with the clamps of the statement.\<close>

definition gas_key :: "gas_rec \<Rightarrow> int \<times> address \<times> attempt_purpose" where
  "gas_key g = (gl_chain_id g, gl_signer g, gl_purpose g)"

definition add_gas :: "u64 \<Rightarrow> address \<Rightarrow> attempt_purpose \<Rightarrow> int \<Rightarrow> int \<Rightarrow> int \<Rightarrow> gas_rec list \<Rightarrow> gas_rec list" where
  "add_gas chain_id signer purpose tx_count gas_used fee_paid t =
     (let k = (i64_of_u64 chain_id, signer, purpose) in
      if \<exists>g\<in>set t. gas_key g = k
      then sql_update (\<lambda>g. gas_key g = k)
             (\<lambda>g. g\<lparr>gl_tx_count := gl_tx_count g + tx_count,
                     gl_gas_used := max (gl_gas_used g + gas_used) 0,
                     gl_fee_paid := max (gl_fee_paid g + fee_paid) 0\<rparr>) t
      else t @ [\<lparr>gl_chain_id = i64_of_u64 chain_id, gl_signer = signer, gl_purpose = purpose,
                 gl_tx_count = max tx_count 0, gl_gas_used = max gas_used 0, gl_fee_paid = max fee_paid 0\<rparr>])"

definition rollup_key :: "rollup_rec \<Rightarrow> int \<times> address option \<times> bucket" where
  "rollup_key r = (ru_chain_id r, ru_signer r, ru_bucket r)"

definition bump_rollup :: "u64 \<Rightarrow> address option \<Rightarrow> bucket \<Rightarrow> rollup_rec list \<Rightarrow> rollup_rec list" where
  "bump_rollup chain_id signer b t =
     (let k = (i64_of_u64 chain_id, signer, b) in
      if \<exists>r\<in>set t. rollup_key r = k
      then sql_update (\<lambda>r. rollup_key r = k) (\<lambda>r. r\<lparr>ru_count := ru_count r + 1\<rparr>) t
      else t @ [\<lparr>ru_chain_id = i64_of_u64 chain_id, ru_signer = signer, ru_bucket = b, ru_count = 1\<rparr>])"

section \<open>Pairs and signers\<close>

definition register_signer :: "timestamp \<Rightarrow> address \<Rightarrow> string \<Rightarrow> pair_role \<Rightarrow> db \<Rightarrow> db" where
  "register_signer now address key_ref role d =
     (if \<exists>s\<in>set (db_signers d). sg_address s = address
      then d\<lparr>db_signers := sql_update (\<lambda>s. sg_address s = address) (\<lambda>s. s\<lparr>sg_key_ref := key_ref\<rparr>) (db_signers d)\<rparr>
      else d\<lparr>db_signers := db_signers d @ [\<lparr>sg_address = address, sg_key_ref = key_ref, sg_role = role,
               sg_first_seen_at = now\<rparr>]\<rparr>)"

record pair_record =
  prr_chain_id :: u64
  prr_signer :: address
  prr_nonce_hwm :: "u64 option"
  prr_manual_pause :: bool

definition new_pair :: "timestamp \<Rightarrow> u64 \<Rightarrow> address \<Rightarrow> pair_role \<Rightarrow> pair_rec" where
  "new_pair now chain_id signer role =
     \<lparr>pr_chain_id = i64_of_u64 chain_id, pr_signer = signer, pr_role = role, pr_nonce_hwm = None,
      pr_manual_pause = False, pr_pause_reason = None, pr_recovery_step = None, pr_pause_detail = None,
      pr_paused_at = None, pr_updated_at = now\<rparr>"

definition ensure_pair :: "timestamp \<Rightarrow> u64 \<Rightarrow> address \<Rightarrow> pair_role \<Rightarrow> db \<Rightarrow> db \<times> pair_record" where
  "ensure_pair now chain_id signer role d =
     (let k = (i64_of_u64 chain_id, signer) in
      case find (\<lambda>p. pair_key_rec p = k) (db_pairs d) of
        Some p \<Rightarrow> (d\<lparr>db_pairs := sql_update (\<lambda>p. pair_key_rec p = k) (\<lambda>p. p\<lparr>pr_role := role\<rparr>) (db_pairs d)\<rparr>,
           \<lparr>prr_chain_id = chain_id, prr_signer = signer, prr_nonce_hwm = map_option u64_of_i64 (pr_nonce_hwm p),
            prr_manual_pause = pr_manual_pause p\<rparr>)
      | None \<Rightarrow> (d\<lparr>db_pairs := db_pairs d @ [new_pair now chain_id signer role]\<rparr>,
           \<lparr>prr_chain_id = chain_id, prr_signer = signer, prr_nonce_hwm = None, prr_manual_pause = False\<rparr>))"

text \<open>Signers with a broadcast or included attempt, each once.\<close>

definition live_status :: "attempt_status \<Rightarrow> bool" where
  "live_status s = (s = ABroadcast \<or> s = AIncluded)"

definition signers_with_live_attempts :: "u64 \<Rightarrow> db \<Rightarrow> address list" where
  "signers_with_live_attempts chain_id d =
     remdups (map ar_signer (filter (\<lambda>r. ar_chain_id r = i64_of_u64 chain_id \<and> live_status (ar_status r)) (db_attempts d)))"

definition record_pause :: "timestamp \<Rightarrow> u64 \<Rightarrow> address \<Rightarrow> pause option \<Rightarrow> bool \<Rightarrow> db \<Rightarrow> db" where
  "record_pause now chain_id signer pz manual d =
     d\<lparr>db_pairs := sql_update (\<lambda>p. pair_key_rec p = (i64_of_u64 chain_id, signer))
         (\<lambda>p. p\<lparr>pr_pause_reason := map_option pz_reason pz, pr_recovery_step := map_option pz_recovery_step pz,
                 pr_pause_detail := map_option pz_detail pz, pr_paused_at := map_option pz_since pz,
                 pr_manual_pause := manual, pr_updated_at := now\<rparr>) (db_pairs d)\<rparr>"

section \<open>Top-ups\<close>

definition create_topup :: "timestamp \<Rightarrow> uuid \<Rightarrow> u64 \<Rightarrow> address \<Rightarrow> address \<Rightarrow> u256 \<Rightarrow> db \<Rightarrow> (db \<times> uuid, store_error) result" where
  "create_topup now new_id chain_id treasury signer amount d =
     (if \<exists>t\<in>set (db_topups d). tu_id t = new_id then Err unique_violation
      else Ok (d\<lparr>db_topups := db_topups d @ [\<lparr>tu_id = new_id, tu_chain_id = i64_of_u64 chain_id,
              tu_treasury = treasury, tu_signer = signer, tu_amount = uint amount, tu_status = TRequested,
              tu_error = None, tu_created_at = now, tu_updated_at = now\<rparr>]\<rparr>, new_id))"

definition fail_topup :: "timestamp \<Rightarrow> uuid \<Rightarrow> string \<Rightarrow> db \<Rightarrow> db" where
  "fail_topup now i err d =
     d\<lparr>db_topups := sql_update (\<lambda>t. tu_id t = i \<and> tu_status t = TRequested)
         (\<lambda>t. t\<lparr>tu_status := TFailed, tu_error := Some err, tu_updated_at := now\<rparr>) (db_topups d)\<rparr>"

definition fail_unbound_topups :: "timestamp \<Rightarrow> u64 \<Rightarrow> db \<Rightarrow> db \<times> nat" where
  "fail_unbound_topups now chain_id d =
     (let p = (\<lambda>t. tu_chain_id t = i64_of_u64 chain_id \<and> tu_status t = TRequested) in
      (d\<lparr>db_topups := sql_update p
          (\<lambda>t. t\<lparr>tu_status := TFailed, tu_error := Some ''engine restarted before the top-up was sent'',
                  tu_updated_at := now\<rparr>) (db_topups d)\<rparr>,
       sql_count p (db_topups d)))"

record topup_record =
  tr_id :: uuid
  tr_chain_id :: u64
  tr_signer :: address
  tr_amount :: u256
  tr_status :: topup_status

definition get_topup :: "uuid \<Rightarrow> db \<Rightarrow> (topup_record option, store_error) result" where
  "get_topup i d =
     (case find (\<lambda>t. tu_id t = i) (db_topups d) of
        None \<Rightarrow> Ok None
      | Some t \<Rightarrow> and_then (parse_u256 (tu_amount t)) (\<lambda>amount.
          Ok (Some \<lparr>tr_id = tu_id t, tr_chain_id = u64_of_i64 (tu_chain_id t), tr_signer = tu_signer t,
                    tr_amount = amount, tr_status = tu_status t\<rparr>)))"

definition ever_topped_up :: "u64 \<Rightarrow> address \<Rightarrow> db \<Rightarrow> bool" where
  "ever_topped_up chain_id signer d =
     (\<exists>t\<in>set (db_topups d). tu_chain_id t = i64_of_u64 chain_id \<and> tu_signer t = signer \<and> tu_status t \<noteq> TFailed)"

text \<open>One hour in microseconds.\<close>

definition one_hour :: int where
  "one_hour = 3600 * 1000000"

definition recent_topups :: "timestamp \<Rightarrow> u64 \<Rightarrow> address \<Rightarrow> db \<Rightarrow> u32" where
  "recent_topups now chain_id signer d =
     of_nat (sql_count (\<lambda>t. tu_chain_id t = i64_of_u64 chain_id \<and> tu_signer t = signer
        \<and> tu_status t \<noteq> TFailed \<and> now - one_hour < tu_created_at t) (db_topups d))"

section \<open>Dead letters\<close>

definition dead_letter :: "timestamp \<Rightarrow> uuid \<Rightarrow> string \<Rightarrow> json \<Rightarrow> string \<Rightarrow> db \<Rightarrow> (db, store_error) result" where
  "dead_letter now new_id kind pl err d =
     (if \<exists>l\<in>set (db_dead d). dl_id l = new_id then Err unique_violation
      else Ok (d\<lparr>db_dead := db_dead d @ [\<lparr>dl_id = new_id, dl_kind = kind, dl_payload = pl, dl_error = err,
              dl_created_at = now\<rparr>]\<rparr>))"

section \<open>The lease\<close>

text \<open>The statement that makes an instance the leader: it returns the new epoch
  (\<^verbatim>\<open>store/lease.rs\<close>, once the advisory lock is held).\<close>

definition bump_epoch :: "db \<Rightarrow> db \<times> int" where
  "bump_epoch d = (d\<lparr>db_epoch := db_epoch d + 1\<rparr>, db_epoch d + 1)"

section \<open>Facts\<close>

text \<open>A ledger row read by key, 0 where there is none.\<close>

definition gas_entry :: "(gas_rec \<Rightarrow> int) \<Rightarrow> int \<times> address \<times> attempt_purpose \<Rightarrow> gas_rec list \<Rightarrow> int" where
  "gas_entry col k t = (case find (\<lambda>g. gas_key g = k) t of Some g \<Rightarrow> col g | None \<Rightarrow> 0)"

lemma distinct_gas_key_add_gas:
  "distinct (map gas_key t) \<Longrightarrow> distinct (map gas_key (add_gas c s p n g f t))"
proof (cases "\<exists>x\<in>set t. gas_key x = (i64_of_u64 c, s, p)")
  case True
  moreover assume "distinct (map gas_key t)"
  ultimately show ?thesis
    by (simp add: add_gas_def Let_def map_sql_update gas_key_def)
next
  case False
  moreover assume "distinct (map gas_key t)"
  ultimately show ?thesis
    by (auto simp: add_gas_def Let_def gas_key_def)
qed

lemma find_sql_update_key:
  "(\<And>r. k (f r) = k r) \<Longrightarrow>
   find (\<lambda>r. k r = x) (sql_update (\<lambda>r. k r = y) f t) = map_option (\<lambda>r. if k r = y then f r else r) (find (\<lambda>r. k r = x) t)"
  by (induction t) auto

lemma find_None_ball: "find P t = None \<longleftrightarrow> (\<forall>r\<in>set t. \<not> P r)"
  by (induction t) auto

lemma find_append: "find P (t @ u) = (case find P t of Some r \<Rightarrow> Some r | None \<Rightarrow> find P u)"
  by (induction t) auto

text \<open>An addition that stays above zero is an exact addition, on the row of its key only.\<close>

lemma gas_entry_add_gas:
  assumes "0 \<le> gas_entry gl_tx_count (i64_of_u64 c, s, p) t + n"
    and "0 \<le> gas_entry gl_gas_used (i64_of_u64 c, s, p) t + g"
    and "0 \<le> gas_entry gl_fee_paid (i64_of_u64 c, s, p) t + f"
  shows "gas_entry gl_tx_count k (add_gas c s p n g f t) = gas_entry gl_tx_count k t + (if k = (i64_of_u64 c, s, p) then n else 0)"
    and "gas_entry gl_gas_used k (add_gas c s p n g f t) = gas_entry gl_gas_used k t + (if k = (i64_of_u64 c, s, p) then g else 0)"
    and "gas_entry gl_fee_paid k (add_gas c s p n g f t) = gas_entry gl_fee_paid k t + (if k = (i64_of_u64 c, s, p) then f else 0)"
proof -
  let ?k = "(i64_of_u64 c, s, p)"
  let ?u = "\<lambda>x. x\<lparr>gl_tx_count := gl_tx_count x + n, gl_gas_used := max (gl_gas_used x + g) 0, gl_fee_paid := max (gl_fee_paid x + f) 0\<rparr>"
  have key: "gas_key (?u x) = gas_key x" for x by (simp add: gas_key_def)
  have col: "gas_entry col k (add_gas c s p n g f t)
      = (case find (\<lambda>x. gas_key x = k) t of
           Some x \<Rightarrow> col (if k = ?k then ?u x else x)
         | None \<Rightarrow> if k = ?k then col \<lparr>gl_chain_id = i64_of_u64 c, gl_signer = s, gl_purpose = p,
                 gl_tx_count = max n 0, gl_gas_used = max g 0, gl_fee_paid = max f 0\<rparr> else 0)" for col
  proof (cases "\<exists>x\<in>set t. gas_key x = ?k")
    case True
    have "gas_key x = k" if "find (\<lambda>x. gas_key x = k) t = Some x" for x
      using that by (auto simp: find_Some_iff)
    moreover have "k \<noteq> ?k" if "find (\<lambda>x. gas_key x = k) t = None"
      using that True by (auto simp: find_None_ball)
    ultimately show ?thesis using True
      by (cases "find (\<lambda>x. gas_key x = k) t")
        (simp_all add: add_gas_def Let_def gas_entry_def find_sql_update_key [where k = gas_key, OF key])
  next
    case False
    then have "find (\<lambda>x. gas_key x = ?k) t = None" by (simp add: find_None_ball)
    moreover have "gas_key \<lparr>gl_chain_id = i64_of_u64 c, gl_signer = s, gl_purpose = p,
        gl_tx_count = max n 0, gl_gas_used = max g 0, gl_fee_paid = max f 0\<rparr> = ?k" by (simp add: gas_key_def)
    ultimately show ?thesis using False
      by (auto simp: add_gas_def gas_entry_def find_append split: option.splits)
  qed
  show "gas_entry gl_tx_count k (add_gas c s p n g f t) = gas_entry gl_tx_count k t + (if k = ?k then n else 0)"
    using assms(1) unfolding col by (auto simp: gas_entry_def split: option.splits)
  show "gas_entry gl_gas_used k (add_gas c s p n g f t) = gas_entry gl_gas_used k t + (if k = ?k then g else 0)"
    using assms(2) unfolding col by (auto simp: gas_entry_def split: option.splits)
  show "gas_entry gl_fee_paid k (add_gas c s p n g f t) = gas_entry gl_fee_paid k t + (if k = ?k then f else 0)"
    using assms(3) unfolding col by (auto simp: gas_entry_def split: option.splits)
qed

end
