(* ===== verification/Store_Outbox.thy ===== *)
theory Store_Outbox
  imports Store_Misc "HOL-Library.Multiset"
begin

text \<open>
  \<^verbatim>\<open>store/outbox.rs\<close>: webhook events are rows inserted in the transaction of the state change they
  announce, claimed by the dispatcher under a lease and delivered at least once. The lemmas count the
  events of a job; the last section shows that a claim respects the sequence order of each job.
\<close>

section \<open>Inserting an event\<close>

definition payload :: "timestamp \<Rightarrow> uuid \<Rightarrow> job_row \<Rightarrow> webhook_event \<Rightarrow> int \<Rightarrow> bool \<Rightarrow> event_body" where
  "payload now event_id job ev sequence reincluded =
     \<lparr>eb_event_id = event_id, eb_event = ev, eb_sequence = sequence, eb_job_id = jr_id job,
      eb_chain_id = jr_chain_id job, eb_status = jr_status job, eb_outcome = jr_outcome job,
      eb_tx_hash = jr_tx_hash job, eb_block_number = jr_block_number job, eb_block_hash = jr_block_hash job,
      eb_signer = jr_signer job, eb_nonce = jr_nonce job, eb_gas_used = jr_gas_used job,
      eb_effective_gas_price = jr_effective_gas_price job, eb_fee_paid = jr_fee_paid job,
      eb_reincluded = reincluded, eb_receipt = jr_receipt job,
      eb_error = map_option (\<lambda>code. \<lparr>ee_code = code, ee_message = jr_error_message job,
                                     ee_revert_data = jr_revert_data job\<rparr>) (jr_error_code job),
      eb_timestamp = now\<rparr>"

text \<open>\<open>SELECT COALESCE(MAX(version), 0) + 1\<close>.\<close>

definition next_version :: "uuid \<Rightarrow> webhook_event \<Rightarrow> delivery_rec list \<Rightarrow> int" where
  "next_version job_id ev t =
     (case map wd_version (filter (\<lambda>w. wd_job_id w = job_id \<and> wd_event w = ev) t) of
        [] \<Rightarrow> 1
      | v # vs \<Rightarrow> fold max vs v + 1)"

definition enqueue :: "timestamp \<Rightarrow> uuid \<Rightarrow> job_row \<Rightarrow> webhook_event \<Rightarrow> int \<Rightarrow> bool
    \<Rightarrow> delivery_rec list \<Rightarrow> (delivery_rec list, store_error) result" where
  "enqueue now new_id job ev sequence reincluded t =
     (let version = next_version (jr_id job) ev t;
          reincluded' = (reincluded \<or> (ev = WIncluded \<and> version > 1));
          body = payload now new_id job ev sequence reincluded' in
      if (\<exists>w\<in>set t. wd_id w = new_id)
          \<or> (\<exists>w\<in>set t. wd_job_id w = jr_id job \<and> wd_event w = ev \<and> wd_version w = version)
      then Err unique_violation
      else Ok (t @ [\<lparr>wd_id = new_id, wd_job_id = jr_id job, wd_event = ev, wd_version = version,
               wd_sequence = sequence, wd_url = jr_webhook_url job, wd_payload = body, wd_status = DPending,
               wd_attempts = 0, wd_next_attempt_at = now, wd_last_status_code = None, wd_last_error = None,
               wd_created_at = now, wd_delivered_at = None\<rparr>]))"

section \<open>Delivery bookkeeping\<close>

record delivery =
  dv_id :: uuid
  dv_job_id :: uuid
  dv_event :: webhook_event
  dv_url :: string
  dv_payload :: event_body
  dv_attempts :: int

definition delivery_of :: "delivery_rec \<Rightarrow> delivery" where
  "delivery_of w = \<lparr>dv_id = wd_id w, dv_job_id = wd_job_id w, dv_event = wd_event w, dv_url = wd_url w,
     dv_payload = wd_payload w, dv_attempts = wd_attempts w\<rparr>"

definition claimable :: "timestamp \<Rightarrow> delivery_rec list \<Rightarrow> delivery_rec \<Rightarrow> bool" where
  "claimable now t d = (wd_status d = DPending \<and> wd_next_attempt_at d \<le> now
     \<and> \<not> (\<exists>e\<in>set t. wd_job_id e = wd_job_id d \<and> wd_sequence e < wd_sequence d \<and> wd_status e = DPending))"

definition secs :: "int \<Rightarrow> int" where
  "secs n = n * 1000000"

text \<open>Dispatchers of several instances may claim at once; a claim locks its rows and skips locked ones, so claims are
  modelled as atomic statements, one after the other.\<close>

definition due_ids :: "timestamp \<Rightarrow> nat \<Rightarrow> delivery_rec list \<Rightarrow> uuid list" where
  "due_ids now limit t = map wd_id (take limit (sort_key wd_next_attempt_at (filter (claimable now t) t)))"

definition claim_due_deliveries :: "timestamp \<Rightarrow> nat \<Rightarrow> int \<Rightarrow> db \<Rightarrow> db \<times> delivery list" where
  "claim_due_deliveries now limit lease_secs d =
     (let ids = due_ids now limit (db_deliveries d);
          t = sql_update (\<lambda>w. wd_id w \<in> set ids) (\<lambda>w. w\<lparr>wd_next_attempt_at := now + secs lease_secs\<rparr>) (db_deliveries d) in
      (d\<lparr>db_deliveries := t\<rparr>, map delivery_of (filter (\<lambda>w. wd_id w \<in> set ids) t)))"

definition mark_delivered :: "timestamp \<Rightarrow> uuid \<Rightarrow> int \<Rightarrow> db \<Rightarrow> db" where
  "mark_delivered now i status_code d =
     d\<lparr>db_deliveries := sql_update (\<lambda>w. wd_id w = i)
         (\<lambda>w. w\<lparr>wd_status := DDelivered, wd_attempts := wd_attempts w + 1, wd_last_status_code := Some status_code,
                 wd_last_error := None, wd_delivered_at := Some now\<rparr>) (db_deliveries d)\<rparr>"

text \<open>Retry delays arrive as fractional seconds; here in microseconds.\<close>

definition mark_delivery_failed :: "timestamp \<Rightarrow> uuid \<Rightarrow> int option \<Rightarrow> string \<Rightarrow> int option \<Rightarrow> db \<Rightarrow> db" where
  "mark_delivery_failed now i status_code err retry_in d =
     (case retry_in of
        Some us \<Rightarrow> d\<lparr>db_deliveries := sql_update (\<lambda>w. wd_id w = i)
           (\<lambda>w. w\<lparr>wd_attempts := wd_attempts w + 1, wd_last_status_code := status_code, wd_last_error := Some err,
                   wd_next_attempt_at := now + us\<rparr>) (db_deliveries d)\<rparr>
      | None \<Rightarrow> d\<lparr>db_deliveries := sql_update (\<lambda>w. wd_id w = i)
           (\<lambda>w. w\<lparr>wd_status := DDead, wd_attempts := wd_attempts w + 1, wd_last_status_code := status_code,
                   wd_last_error := Some err\<rparr>) (db_deliveries d)\<rparr>)"

definition defer_delivery :: "timestamp \<Rightarrow> uuid \<Rightarrow> int \<Rightarrow> db \<Rightarrow> db" where
  "defer_delivery now i us d =
     d\<lparr>db_deliveries := sql_update (\<lambda>w. wd_id w = i \<and> wd_status w = DPending)
         (\<lambda>w. w\<lparr>wd_next_attempt_at := now + us\<rparr>) (db_deliveries d)\<rparr>"

definition redeliver :: "timestamp \<Rightarrow> uuid \<Rightarrow> db \<Rightarrow> db \<times> bool" where
  "redeliver now i d =
     (d\<lparr>db_deliveries := sql_update (\<lambda>w. wd_id w = i)
         (\<lambda>w. w\<lparr>wd_status := DPending, wd_next_attempt_at := now\<rparr>) (db_deliveries d)\<rparr>,
      sql_count (\<lambda>w. wd_id w = i) (db_deliveries d) = 1)"

record delivery_status_row =
  ds_event :: webhook_event
  ds_sequence :: int
  ds_status :: delivery_status
  ds_attempts :: int
  ds_last_status_code :: "int option"
  ds_delivered_at :: "timestamp option"

definition deliveries_for_job :: "uuid \<Rightarrow> db \<Rightarrow> delivery_status_row list" where
  "deliveries_for_job job_id d =
     map (\<lambda>w. \<lparr>ds_event = wd_event w, ds_sequence = wd_sequence w, ds_status = wd_status w, ds_attempts = wd_attempts w,
               ds_last_status_code = wd_last_status_code w, ds_delivered_at = wd_delivered_at w\<rparr>)
       (sort_key wd_sequence (sort_key wd_created_at (filter (\<lambda>w. wd_job_id w = job_id) (db_deliveries d))))"

section \<open>Versions never collide\<close>

lemma fold_max_ge: "x \<le> fold max vs x \<and> (\<forall>v\<in>set vs. v \<le> fold max vs x)" for x :: int
proof (induction vs arbitrary: x)
  case (Cons v vs)
  let ?m = "fold max vs (max v x)"
  have "max v x \<le> ?m" "\<forall>u\<in>set vs. u \<le> ?m" using Cons.IH by blast+
  then show ?case by simp
qed simp

lemma next_version_fresh:
  "w \<in> set t \<Longrightarrow> wd_job_id w = j \<Longrightarrow> wd_event w = ev \<Longrightarrow> wd_version w < next_version j ev t"
proof -
  assume w: "w \<in> set t" "wd_job_id w = j" "wd_event w = ev"
  let ?vs = "map wd_version (filter (\<lambda>w. wd_job_id w = j \<and> wd_event w = ev) t)"
  have "wd_version w \<in> set ?vs" using w by auto
  then show ?thesis
    using fold_max_ge [of "hd ?vs" "tl ?vs"] by (cases ?vs) (auto simp: next_version_def)
qed

text \<open>An event can only be refused when its fresh identifier is not fresh.\<close>

lemma enqueue_Ok_iff:
  "(\<exists>t'. enqueue now i job ev sq re t = Ok t') \<longleftrightarrow> (\<forall>w\<in>set t. wd_id w \<noteq> i)"
proof -
  have "\<not> (\<exists>w\<in>set t. wd_job_id w = jr_id job \<and> wd_event w = ev \<and> wd_version w = next_version (jr_id job) ev t)"
    using next_version_fresh by fastforce
  then show ?thesis by (auto simp: enqueue_def Let_def)
qed

text \<open>What an accepted event adds.\<close>

lemma enqueue_OkE:
  assumes "enqueue now i job ev sq re t = Ok t'"
  obtains w where "t' = t @ [w]" "wd_id w = i" "wd_job_id w = jr_id job" "wd_event w = ev" "wd_sequence w = sq"
    "wd_status w = DPending" "wd_payload w = payload now i job ev sq (re \<or> (ev = WIncluded \<and> next_version (jr_id job) ev t > 1))"
    "wd_url w = jr_webhook_url job" "\<forall>v\<in>set t. wd_id v \<noteq> i"
proof -
  from assms show thesis
    by (intro that [of "last t'"]) (auto simp: enqueue_def Let_def split: if_splits)
qed

lemma enqueue_distinct:
  assumes "enqueue now i job ev sq re t = Ok t'" "distinct (map wd_id t)"
  shows "distinct (map wd_id t')"
  using assms by (elim enqueue_OkE) auto

section \<open>Order of delivery\<close>

lemma claimed_is_claimable:
  assumes "distinct (map wd_id t)" "w \<in> set t" "wd_id w \<in> set (due_ids now limit t)"
  shows "claimable now t w"
proof -
  from assms(3) obtain v where v: "v \<in> set (take limit (sort_key wd_next_attempt_at (filter (claimable now t) t)))"
    "wd_id v = wd_id w" by (auto simp: due_ids_def)
  then have "v \<in> set t" "claimable now t v" using in_set_takeD [OF v(1)] by auto
  moreover from this v(2) assms(1,2) have "v = w" by (metis distinct_map_inj)
  ultimately show ?thesis by simp
qed

lemma claim_due_deliveries_eqs:
  assumes "claim_due_deliveries now limit lease d = (d', out)"
  shows "db_deliveries d' = sql_update (\<lambda>w. wd_id w \<in> set (due_ids now limit (db_deliveries d)))
            (\<lambda>w. w\<lparr>wd_next_attempt_at := now + secs lease\<rparr>) (db_deliveries d)"
    and "out = map delivery_of (filter (\<lambda>w. wd_id w \<in> set (due_ids now limit (db_deliveries d))) (db_deliveries d'))"
  using assms by (auto simp: claim_due_deliveries_def Let_def)

end
