(* ===== verification/Store_Jobs.thy ===== *)
theory Store_Jobs
  imports Store_Outbox "HOL-Library.Product_Lexorder"
begin

text \<open>
  \<^verbatim>\<open>store/jobs.rs\<close>: batched ingest with idempotency keys, loading the durable queue in pop order,
  requeueing and failing a job.
\<close>

section \<open>Ingest\<close>

record new_job =
  nj_id :: job_id
  nj_request :: job_request
  nj_idempotency_key :: "string option"
  nj_request_hash :: string

datatype insert_outcome = Created | Replayed job_id | Conflict

text \<open>The row an accepted job starts as.\<close>

definition new_job_rec :: "timestamp \<Rightarrow> int \<Rightarrow> new_job \<Rightarrow> job_rec" where
  "new_job_rec now seq j =
     (let r = nj_request j in
      \<lparr>jr_id = nj_id j, jr_chain_id = rq_chain_id r, jr_to_addr = rq_to r, jr_data = rq_data r,
       jr_value = uint (rq_value r), jr_gas_limit = map_option i64_of_u64 (rq_gas_limit r),
       jr_deadline = rq_deadline r, jr_webhook_url = rq_webhook_url r, jr_status = Queued, jr_outcome = None,
       jr_signer = None, jr_nonce = None, jr_tx_hash = None, jr_block_number = None, jr_block_hash = None,
       jr_gas_used = None, jr_effective_gas_price = None, jr_fee_paid = None, jr_l1_fee = None,
       jr_error_code = None, jr_error_message = None, jr_revert_data = None, jr_receipt = None,
       jr_created_at = now, jr_sent_at = None, jr_included_at = None, jr_confirmed_at = None, jr_failed_at = None,
       jc_seq = seq, jc_idempotency_key = nj_idempotency_key j, jc_request_hash = nj_request_hash j,
       jc_requeue_rank = 0, jc_requeue_count = 0, jc_webhook_seq = 0\<rparr>)"

definition key_taken :: "string option \<Rightarrow> job_rec list \<Rightarrow> bool" where
  "key_taken k t = (k \<noteq> None \<and> (\<exists>r\<in>set t. jc_idempotency_key r = k))"

text \<open>The single \<open>INSERT ... SELECT ... ON CONFLICT (idempotency_key) DO NOTHING RETURNING id\<close>: rows in
  order, one sequence number each, the conflicting ones skipped.\<close>

fun insert_rows :: "timestamp \<Rightarrow> int \<Rightarrow> new_job list \<Rightarrow> job_rec list
    \<Rightarrow> (job_rec list \<times> int \<times> job_id list, store_error) result" where
  "insert_rows now seq [] t = Ok (t, seq, [])"
| "insert_rows now seq (j # js) t =
     (if key_taken (nj_idempotency_key j) t then insert_rows now (seq + 1) js t
      else if \<exists>r\<in>set t. jr_id r = nj_id j then Err unique_violation
      else and_then (insert_rows now (seq + 1) js (t @ [new_job_rec now seq j]))
             (\<lambda>(t', seq', ids). Ok (t', seq', nj_id j # ids)))"

definition insert_outcome_of :: "job_rec list \<Rightarrow> job_id list \<Rightarrow> new_job \<Rightarrow> (insert_outcome, store_error) result" where
  "insert_outcome_of t inserted j =
     (if nj_id j \<in> set inserted then Ok Created
      else let key = (case nj_idempotency_key j of Some k \<Rightarrow> k | None \<Rightarrow> '''') in
        case find (\<lambda>r. jc_idempotency_key r = Some key) t of
          Some r \<Rightarrow> if jc_request_hash r = nj_request_hash j then Ok (Replayed (jr_id r)) else Ok Conflict
        | None \<Rightarrow> Err (Corrupt ''job was neither inserted nor found by its idempotency key''))"

text \<open>The insert is one statement; the look-ups after it run on their own.\<close>

definition insert_jobs :: "timestamp \<Rightarrow> new_job list \<Rightarrow> db \<Rightarrow> db \<times> (insert_outcome list, store_error) result" where
  "insert_jobs now jobs d =
     (if jobs = [] then (d, Ok [])
      else case insert_rows now (db_next_seq d) jobs (db_jobs d) of
        Err e \<Rightarrow> (d, Err e)
      | Ok (t, seq, ids) \<Rightarrow> (d\<lparr>db_jobs := t, db_next_seq := seq\<rparr>, collect_results (map (insert_outcome_of t ids) jobs)))"

section \<open>The durable queue\<close>

text \<open>\<open>JobRow::to_queued\<close>; \<open>inst\<close> is the monotonic clock's reading.\<close>

definition to_queued :: "instant \<Rightarrow> job_row \<Rightarrow> (queued_job, store_error) result" where
  "to_queued inst r =
     and_then (parse_u256 (jr_value r)) (\<lambda>value.
       Ok \<lparr>qj_id = jr_id r,
           qj_request = \<lparr>rq_chain_id = jr_chain_id r, rq_to = jr_to_addr r, rq_data = jr_data r, rq_value = value,
             rq_gas_limit = map_option u64_of_i64 (jr_gas_limit r), rq_deadline = jr_deadline r,
             rq_webhook_url = jr_webhook_url r\<rparr>,
           qj_requeue_count = 0, qj_created_at = jr_created_at r, qj_enqueued_at = inst\<rparr>)"

definition queued_on :: "u64 \<Rightarrow> job_rec \<Rightarrow> bool" where
  "queued_on chain_id r = (jr_chain_id r = chain_id \<and> jr_status r = Queued)"

definition pop_order :: "job_rec list \<Rightarrow> job_rec list" where
  "pop_order t = sort_key (\<lambda>r. (jc_requeue_rank r, jc_seq r)) t"

definition load_queued :: "instant \<Rightarrow> u64 \<Rightarrow> usize \<Rightarrow> db \<Rightarrow> (queued_job list, store_error) result" where
  "load_queued inst chain_id limit d =
     (if i64_of_u64 limit < 0 then Err (Db (Database (Some ''2201W'')))
      else collect_results (map (\<lambda>r. and_then (to_queued inst (job_row.truncate r))
               (\<lambda>q. Ok (q\<lparr>qj_requeue_count := word_of_int (jc_requeue_count r)\<rparr>)))
             (take (unat limit) (pop_order (filter (queued_on chain_id) (db_jobs d))))))"

definition count_queued :: "u64 \<Rightarrow> db \<Rightarrow> u64" where
  "count_queued chain_id d = of_nat (sql_count (queued_on chain_id) (db_jobs d))"

definition requeue_front :: "timestamp \<Rightarrow> job_id \<Rightarrow> db \<Rightarrow> (db \<times> u32, store_error) result" where
  "requeue_front clock job_id d =
     (let p = (\<lambda>r. jr_id r = job_id \<and> jr_status r = Queued);
          f = (\<lambda>r. r\<lparr>jc_requeue_rank := - clock, jc_requeue_count := jc_requeue_count r + 1\<rparr>) in
      case find p (db_jobs d) of
        Some r \<Rightarrow> Ok (d\<lparr>db_jobs := sql_update p f (db_jobs d)\<rparr>, word_of_int (jc_requeue_count (f r)))
      | None \<Rightarrow> Err (StateConflict ''job'' job_id ''queued''))"

section \<open>Failing a job\<close>

text \<open>The row change that a failure makes.\<close>

definition failed_row :: "timestamp \<Rightarrow> job_failure \<Rightarrow> string \<Rightarrow> bytes option \<Rightarrow> job_rec \<Rightarrow> job_rec" where
  "failed_row now failure message revert r =
     r\<lparr>jr_status := Failed, jr_error_code := Some (job_failure_code failure), jr_error_message := Some message,
       jr_revert_data := revert, jr_failed_at := Some now, jc_webhook_seq := jc_webhook_seq r + 1\<rparr>"

text \<open>An \<open>UPDATE jobs ... RETURNING\<close> with the event and counter it carries: the shape every state change
  that announces itself shares. No row: nothing happens.\<close>

definition announce :: "timestamp \<Rightarrow> uuid \<Rightarrow> (job_rec \<Rightarrow> bool) \<Rightarrow> (job_rec \<Rightarrow> job_rec) \<Rightarrow> webhook_event \<Rightarrow> bool
    \<Rightarrow> (job_rec \<Rightarrow> bucket option) \<Rightarrow> db \<Rightarrow> (db \<times> bool, store_error) result" where
  "announce now ev_id p f ev reincluded bkt d =
     (case find p (db_jobs d) of
        None \<Rightarrow> Ok (d, False)
      | Some r0 \<Rightarrow> let r = f r0; job = job_row.truncate r in
          and_then (enqueue now ev_id job ev (jc_webhook_seq r) reincluded (db_deliveries d)) (\<lambda>w.
            Ok (d\<lparr>db_jobs := sql_update p f (db_jobs d), db_deliveries := w,
                  db_rollup := (case bkt r of Some b \<Rightarrow> bump_rollup (jr_chain_id job) (jr_signer job) b (db_rollup d)
                                | None \<Rightarrow> db_rollup d)\<rparr>, True)))"

definition fail_job :: "timestamp \<Rightarrow> uuid \<Rightarrow> job_id \<Rightarrow> job_status list \<Rightarrow> job_failure \<Rightarrow> string \<Rightarrow> bytes option
    \<Rightarrow> db \<Rightarrow> (db \<times> bool, store_error) result" where
  "fail_job now ev_id job_id from failure message revert d =
     announce now ev_id (\<lambda>r. jr_id r = job_id \<and> jr_status r \<in> set from) (failed_row now failure message revert)
       WFailed False (\<lambda>r. Some BFailed) d"

definition cancel_queued :: "timestamp \<Rightarrow> uuid \<Rightarrow> job_id \<Rightarrow> db \<Rightarrow> (db \<times> bool, store_error) result" where
  "cancel_queued now ev_id job_id d =
     fail_job now ev_id job_id [Queued] Cancelled ''cancelled by operator before it was sent'' None d"

section \<open>Reads\<close>

definition get_job :: "job_id \<Rightarrow> db \<Rightarrow> job_row option" where
  "get_job job_id d = map_option job_row.truncate (find (\<lambda>r. jr_id r = job_id) (db_jobs d))"

text \<open>\<open>NULL\<close> sorts last.\<close>

definition nulls_last :: "'a::zero option \<Rightarrow> nat \<times> 'a" where
  "nulls_last x = (case x of Some v \<Rightarrow> (0, v) | None \<Rightarrow> (1, 0))"

definition load_live_jobs :: "u64 \<Rightarrow> db \<Rightarrow> job_row list" where
  "load_live_jobs chain_id d =
     map job_row.truncate (sort_key (\<lambda>r. (nulls_last (jr_signer r), nulls_last (jr_nonce r)))
       (filter (\<lambda>r. jr_chain_id r = chain_id \<and> jr_status r \<in> {Sent, Included, Cancelling}) (db_jobs d)))"

end
