(* ===== verification/Store_Attempts.thy ===== *)
theory Store_Attempts
  imports Store_Jobs
begin

text \<open>
  \<^verbatim>\<open>store/attempts.rs\<close>: binding a signed transaction to its nonce before it may be broadcast, and the
  state changes its life drives: inclusion, confirmation, demotion after a re-org and the voiding of a
  binding whose transaction can never execute. Each operation is one database transaction, so an error
  leaves the database as it was.
\<close>

datatype bind_kind = First | Replacement | Cancel

datatype void_mode = NonceUnused | NonceTakenByForeignTx

datatype void_disposition = Requeue | Fail job_failure string

datatype settled = Applied | Noop

definition mined_status :: "attempt_status \<Rightarrow> bool" where
  "mined_status s = (s = AIncluded \<or> s = AConfirmed)"

section \<open>Reading an attempt back\<close>

definition attempt_row :: "attempt_rec \<Rightarrow> (attempt, store_error) result" where
  "attempt_row r =
     and_then (case (ar_job_id r, ar_topup_id r) of
          (Some i, _) \<Rightarrow> Ok (OJob i)
        | (None, Some i) \<Rightarrow> Ok (OTopup i)
        | (None, None) \<Rightarrow> Err (Corrupt ''attempt has neither job_id nor topup_id'')) (\<lambda>owner.
     and_then (parse_u128 (ar_max_fee_per_gas r)) (\<lambda>max_fee.
     and_then (parse_u128 (ar_max_priority_fee_per_gas r)) (\<lambda>max_priority.
     and_then (parse_u256 (ar_value r)) (\<lambda>value.
     Ok \<lparr>at_id = ar_id r, at_chain_id = u64_of_i64 (ar_chain_id r), at_signer = ar_signer r,
         at_nonce = u64_of_i64 (ar_nonce r), at_purpose = ar_purpose r, at_owner = owner,
         at_tx_hash = ar_tx_hash r, at_raw_tx = (case ar_raw_tx r of Some b \<Rightarrow> b | None \<Rightarrow> []),
         at_gas_limit = u64_of_i64 (ar_gas_limit r), at_max_fee_per_gas = max_fee,
         at_max_priority_fee_per_gas = max_priority, at_value = value, at_status = ar_status r,
         at_block_number = map_option u64_of_i64 (ar_block_number r), at_block_hash = ar_block_hash r,
         at_created_at = ar_created_at r\<rparr>))))"

section \<open>Binding\<close>

definition new_attempt_rec :: "timestamp \<Rightarrow> attempt \<Rightarrow> attempt_rec" where
  "new_attempt_rec now a =
     \<lparr>ar_id = at_id a, ar_chain_id = i64_of_u64 (at_chain_id a), ar_signer = at_signer a,
      ar_nonce = i64_of_u64 (at_nonce a), ar_purpose = at_purpose a,
      ar_job_id = (case at_owner a of OJob i \<Rightarrow> Some i | OTopup i \<Rightarrow> None),
      ar_topup_id = (case at_owner a of OJob i \<Rightarrow> None | OTopup i \<Rightarrow> Some i),
      ar_tx_hash = at_tx_hash a, ar_raw_tx = Some (at_raw_tx a), ar_gas_limit = i64_of_u64 (at_gas_limit a),
      ar_max_fee_per_gas = uint (at_max_fee_per_gas a),
      ar_max_priority_fee_per_gas = uint (at_max_priority_fee_per_gas a), ar_value = uint (at_value a),
      ar_status = ABroadcast, ar_block_number = None, ar_block_hash = None, ar_gas_used = None,
      ar_fee_paid = None, ar_created_at = now, ar_updated_at = now\<rparr>"

text \<open>The compare-and-set on the nonce slot.\<close>

definition claim_slot :: "timestamp \<Rightarrow> attempt \<Rightarrow> bind_kind \<Rightarrow> db \<Rightarrow> (db, store_error) result" where
  "claim_slot now a kind d =
     (let held = find (\<lambda>s. slot_key s = key_of a) (db_slots d);
          taken = Err (NonceSlotTaken (at_chain_id a) (at_signer a) (at_nonce a)) in
      if kind = First then
        (case held of
           None \<Rightarrow> Ok (d\<lparr>db_slots := db_slots d @ [\<lparr>sl_chain_id = i64_of_u64 (at_chain_id a),
               sl_signer = at_signer a, sl_nonce = i64_of_u64 (at_nonce a),
               sl_owner_kind = owner_kind (at_owner a), sl_owner_id = owner_id (at_owner a),
               sl_created_at = now\<rparr>]\<rparr>)
         | Some s \<Rightarrow> taken)
      else if map_option sl_owner_id held \<noteq> Some (owner_id (at_owner a)) then taken else Ok d)"

definition owner_exists :: "slot_owner \<Rightarrow> db \<Rightarrow> bool" where
  "owner_exists ow d = (case ow of OJob i \<Rightarrow> \<exists>r\<in>set (db_jobs d). jr_id r = i
                                 | OTopup i \<Rightarrow> \<exists>t\<in>set (db_topups d). tu_id t = i)"

definition insert_attempt :: "timestamp \<Rightarrow> attempt \<Rightarrow> db \<Rightarrow> (db, store_error) result" where
  "insert_attempt now a d =
     (if \<exists>r\<in>set (db_attempts d). ar_id r = at_id a \<or> ar_tx_hash r = at_tx_hash a then Err unique_violation
      else if \<not> owner_exists (at_owner a) d then Err foreign_key_violation
      else Ok (d\<lparr>db_attempts := db_attempts d @ [new_attempt_rec now a]\<rparr>))"

text \<open>Moving the owner forward: the new database and the number of rows the update touched.\<close>

definition move_owner :: "timestamp \<Rightarrow> attempt \<Rightarrow> bind_kind \<Rightarrow> db \<Rightarrow> db \<times> nat" where
  "move_owner now a kind d =
     (case at_owner a of
        OJob i \<Rightarrow>
          (let (p, f) = (case kind of
              First \<Rightarrow> (\<lambda>r. jr_id r = i \<and> jr_status r = Queued,
                \<lambda>r. r\<lparr>jr_status := Sent, jr_signer := Some (at_signer a), jr_nonce := Some (i64_of_u64 (at_nonce a)),
                       jr_tx_hash := Some (at_tx_hash a), jr_sent_at := Some now\<rparr>)
            | Replacement \<Rightarrow> (\<lambda>r. jr_id r = i \<and> jr_status r \<in> {Sent, Cancelling},
                \<lambda>r. r\<lparr>jr_tx_hash := Some (at_tx_hash a)\<rparr>)
            | Cancel \<Rightarrow> (\<lambda>r. jr_id r = i \<and> jr_status r \<in> {Sent, Cancelling}, \<lambda>r. r\<lparr>jr_status := Cancelling\<rparr>)) in
           (d\<lparr>db_jobs := sql_update p f (db_jobs d)\<rparr>, sql_count p (db_jobs d)))
      | OTopup i \<Rightarrow>
          (let (p, f) = (if kind = First
              then (\<lambda>t. tu_id t = i \<and> tu_status t = TRequested, \<lambda>t. t\<lparr>tu_status := TSent, tu_updated_at := now\<rparr>)
              else (\<lambda>t. tu_id t = i \<and> tu_status t = TSent, \<lambda>t. t\<lparr>tu_updated_at := now\<rparr>)) in
           (d\<lparr>db_topups := sql_update p f (db_topups d)\<rparr>, sql_count p (db_topups d))))"

definition raise_hwm :: "timestamp \<Rightarrow> attempt \<Rightarrow> db \<Rightarrow> db" where
  "raise_hwm now a d =
     d\<lparr>db_pairs := sql_update (\<lambda>p. pair_key_rec p = (i64_of_u64 (at_chain_id a), at_signer a))
         (\<lambda>p. p\<lparr>pr_nonce_hwm := Some (max (case pr_nonce_hwm p of Some h \<Rightarrow> h | None \<Rightarrow> - 1) (i64_of_u64 (at_nonce a))),
                 pr_updated_at := now\<rparr>) (db_pairs d)\<rparr>"

definition bind_attempt :: "timestamp \<Rightarrow> int \<Rightarrow> attempt \<Rightarrow> bind_kind \<Rightarrow> db \<Rightarrow> (db, store_error) result" where
  "bind_attempt now epoch a kind d =
     (if db_epoch d \<noteq> epoch then Err (Fenced epoch)
      else and_then (claim_slot now a kind d) (\<lambda>d1.
           and_then (insert_attempt now a d1) (\<lambda>d2.
           let (d3, moved) = move_owner now a kind d2 in
           if moved \<noteq> 1 then Err (StateConflict (owner_kind (at_owner a)) (owner_id (at_owner a)) ''bindable'')
           else Ok (raise_hwm now a d3))))"

definition attempt_exists :: "b256 \<Rightarrow> db \<Rightarrow> bool" where
  "attempt_exists tx_hash d = (\<exists>r\<in>set (db_attempts d). ar_tx_hash r = tx_hash)"

section \<open>Settlement\<close>

definition confirmed_row :: "timestamp \<Rightarrow> job_rec \<Rightarrow> job_rec" where
  "confirmed_row now r =
     r\<lparr>jr_status := Confirmed, jr_confirmed_at := Some now, jc_webhook_seq := jc_webhook_seq r + 1\<rparr>"

definition outcome_bucket :: "job_rec \<Rightarrow> bucket" where
  "outcome_bucket r = (if jr_outcome r = Some Success then BSucceeded else BReverted)"

text \<open>The failure a confirmed cancel brings; the statement leaves the revert data alone.\<close>

definition failed_keep :: "timestamp \<Rightarrow> job_failure \<Rightarrow> string \<Rightarrow> job_rec \<Rightarrow> job_rec" where
  "failed_keep now failure message r = failed_row now failure message (jr_revert_data r) r"

definition cancel_message :: string where
  "cancel_message = ''the transaction could not be mined within the fee cap; its nonce was cancelled''"

definition confirm_attempts :: "timestamp \<Rightarrow> attempt \<Rightarrow> attempt_rec list \<Rightarrow> attempt_rec list" where
  "confirm_attempts now a t =
     sql_update (\<lambda>r. att_key r = key_of a \<and> ar_status r = AReplaced) (\<lambda>r. r\<lparr>ar_raw_tx := None\<rparr>)
       (sql_update (\<lambda>r. ar_id r = at_id a \<and> ar_status r = AIncluded)
          (\<lambda>r. r\<lparr>ar_status := AConfirmed, ar_raw_tx := None, ar_updated_at := now\<rparr>) t)"

definition confirm_in_tx :: "timestamp \<Rightarrow> uuid \<Rightarrow> attempt \<Rightarrow> db \<Rightarrow> (db \<times> settled, store_error) result" where
  "confirm_in_tx now ev_id a d =
     (if sql_count (\<lambda>r. ar_id r = at_id a \<and> ar_status r = AIncluded) (db_attempts d) \<noteq> 1 then Ok (d, Noop)
      else let d1 = d\<lparr>db_attempts := confirm_attempts now a (db_attempts d)\<rparr> in
        and_then
          (case (at_owner a, at_purpose a) of
             (OJob i, PJob) \<Rightarrow> announce now ev_id (\<lambda>r. jr_id r = i \<and> jr_status r = Included) (confirmed_row now)
                WConfirmed False (\<lambda>r. Some (outcome_bucket r)) d1
           | (OJob i, _) \<Rightarrow> announce now ev_id (\<lambda>r. jr_id r = i \<and> jr_status r = Cancelling)
                (failed_keep now StuckCancelled cancel_message) WFailed False (\<lambda>r. Some BFailed) d1
           | (OTopup i, _) \<Rightarrow> Ok (d1\<lparr>db_topups := sql_update (\<lambda>t. tu_id t = i \<and> tu_status t = TIncluded)
                (\<lambda>t. t\<lparr>tu_status := TConfirmed, tu_updated_at := now\<rparr>) (db_topups d1)\<rparr>, True))
          (\<lambda>(d2, _). Ok (d2, Applied)))"

definition included_row :: "timestamp \<Rightarrow> inclusion \<Rightarrow> job_rec \<Rightarrow> job_rec" where
  "included_row now inc r =
     r\<lparr>jr_status := Included, jr_outcome := Some (inc_outcome inc), jr_tx_hash := Some (inc_tx_hash inc),
       jr_block_number := Some (i64_of_u64 (inc_block_number inc)), jr_block_hash := Some (inc_block_hash inc),
       jr_gas_used := Some (uint (inc_gas_used inc)),
       jr_effective_gas_price := Some (uint (inc_effective_gas_price inc)),
       jr_fee_paid := Some (uint (inc_fee_paid inc)), jr_l1_fee := map_option uint (inc_l1_fee inc),
       jr_receipt := Some (inc_receipt inc), jr_included_at := Some now,
       jc_webhook_seq := jc_webhook_seq r + 1\<rparr>"

text \<open>The winner is marked mined, the other broadcasts at its nonce lost.\<close>

definition include_attempts :: "timestamp \<Rightarrow> attempt \<Rightarrow> inclusion \<Rightarrow> attempt_rec list \<Rightarrow> attempt_rec list" where
  "include_attempts now a inc t =
     sql_update (\<lambda>r. att_key r = key_of a \<and> ar_id r \<noteq> at_id a \<and> ar_status r = ABroadcast)
       (\<lambda>r. r\<lparr>ar_status := AReplaced, ar_updated_at := now\<rparr>)
       (sql_update (\<lambda>r. ar_id r = at_id a \<and> ar_status r = ABroadcast)
          (\<lambda>r. r\<lparr>ar_status := AIncluded, ar_block_number := Some (i64_of_u64 (inc_block_number inc)),
                  ar_block_hash := Some (inc_block_hash inc), ar_gas_used := Some (uint (inc_gas_used inc)),
                  ar_fee_paid := Some (uint (inc_fee_paid inc)), ar_updated_at := now\<rparr>) t)"

text \<open>The partial unique index \<open>tx_attempts_mined_idx\<close>.\<close>

definition mined_conflict :: "attempt \<Rightarrow> attempt_rec list \<Rightarrow> bool" where
  "mined_conflict a t =
     (\<exists>r\<in>set t. ar_id r = at_id a \<and> ar_status r = ABroadcast
        \<and> (\<exists>r'\<in>set t. att_key r' = att_key r \<and> mined_status (ar_status r')))"

definition settle_inclusion :: "timestamp \<Rightarrow> uuid \<Rightarrow> uuid \<Rightarrow> attempt \<Rightarrow> inclusion \<Rightarrow> bool \<Rightarrow> bool
    \<Rightarrow> db \<Rightarrow> (db \<times> settled, store_error) result" where
  "settle_inclusion now ev1 ev2 a inc confirm_now reincluded d =
     (if mined_conflict a (db_attempts d) then Err unique_violation
      else if sql_count (\<lambda>r. ar_id r = at_id a \<and> ar_status r = ABroadcast) (db_attempts d) \<noteq> 1 then Ok (d, Noop)
      else let d1 = d\<lparr>db_attempts := include_attempts now a inc (db_attempts d),
                       db_gas := add_gas (at_chain_id a) (at_signer a) (at_purpose a) 1 (uint (inc_gas_used inc))
                                   (uint (inc_fee_paid inc)) (db_gas d)\<rparr> in
        and_then
          (case (at_owner a, at_purpose a) of
             (OJob i, PJob) \<Rightarrow>
                and_then (announce now ev1 (\<lambda>r. jr_id r = i \<and> jr_status r \<in> {Sent, Cancelling}) (included_row now inc)
                            WIncluded reincluded (\<lambda>r. None) d1)
                  (\<lambda>(d2, found). if found then Ok d2 else Err (StateConflict ''job'' i ''sent|cancelling''))
           | (OJob i, _) \<Rightarrow> Ok d1
           | (OTopup i, _) \<Rightarrow> Ok (d1\<lparr>db_topups := sql_update (\<lambda>t. tu_id t = i \<and> tu_status t = TSent)
                (\<lambda>t. t\<lparr>tu_status := TIncluded, tu_updated_at := now\<rparr>) (db_topups d1)\<rparr>))
          (\<lambda>d2. if confirm_now then and_then (confirm_in_tx now ev2 a d2) (\<lambda>(d3, _). Ok (d3, Applied))
                else Ok (d2, Applied)))"

definition settle_confirmation :: "timestamp \<Rightarrow> uuid \<Rightarrow> attempt \<Rightarrow> db \<Rightarrow> (db \<times> settled, store_error) result" where
  "settle_confirmation now ev_id a d = confirm_in_tx now ev_id a d"

definition update_inclusion_block :: "timestamp \<Rightarrow> attempt \<Rightarrow> u64 \<Rightarrow> b256 \<Rightarrow> json \<Rightarrow> db \<Rightarrow> db" where
  "update_inclusion_block now a block_number block_hash receipt d =
     (let d1 = d\<lparr>db_attempts := sql_update (\<lambda>r. ar_id r = at_id a \<and> ar_status r = AIncluded)
              (\<lambda>r. r\<lparr>ar_block_number := Some (i64_of_u64 block_number), ar_block_hash := Some block_hash,
                      ar_updated_at := now\<rparr>) (db_attempts d)\<rparr> in
      case (at_owner a, at_purpose a) of
        (OJob i, PJob) \<Rightarrow> d1\<lparr>db_jobs := sql_update (\<lambda>r. jr_id r = i \<and> jr_status r = Included)
              (\<lambda>r. r\<lparr>jr_block_number := Some (i64_of_u64 block_number), jr_block_hash := Some block_hash,
                      jr_receipt := Some receipt\<rparr>) (db_jobs d1)\<rparr>
      | _ \<Rightarrow> d1)"

section \<open>Taking things back\<close>

definition demoted_row :: "job_rec \<Rightarrow> job_rec" where
  "demoted_row r =
     r\<lparr>jr_status := Sent, jr_outcome := None, jr_block_number := None, jr_block_hash := None, jr_gas_used := None,
       jr_effective_gas_price := None, jr_fee_paid := None, jr_l1_fee := None, jr_receipt := None,
       jr_included_at := None\<rparr>"

definition demote_inclusion :: "timestamp \<Rightarrow> attempt \<Rightarrow> db \<Rightarrow> db \<times> settled" where
  "demote_inclusion now a d =
     (let p = (\<lambda>r. ar_id r = at_id a \<and> ar_status r = AIncluded) in
      case find p (db_attempts d) of
        None \<Rightarrow> (d, Noop)
      | Some r \<Rightarrow>
         let d1 = d\<lparr>db_attempts := sql_update p (\<lambda>r. r\<lparr>ar_status := ABroadcast, ar_block_number := None,
                        ar_block_hash := None, ar_updated_at := now\<rparr>) (db_attempts d),
                    db_gas := add_gas (at_chain_id a) (at_signer a) (at_purpose a) (- 1)
                        (- (case ar_gas_used r of Some g \<Rightarrow> g | None \<Rightarrow> 0))
                        (- (case ar_fee_paid r of Some f \<Rightarrow> f | None \<Rightarrow> 0)) (db_gas d)\<rparr> in
         (case (at_owner a, at_purpose a) of
            (OJob i, PJob) \<Rightarrow> d1\<lparr>db_jobs := sql_update (\<lambda>r. jr_id r = i \<and> jr_status r = Included) demoted_row (db_jobs d1)\<rparr>
          | (OJob i, _) \<Rightarrow> d1
          | (OTopup i, _) \<Rightarrow> d1\<lparr>db_topups := sql_update (\<lambda>t. tu_id t = i \<and> tu_status t = TIncluded)
                (\<lambda>t. t\<lparr>tu_status := TSent, tu_updated_at := now\<rparr>) (db_topups d1)\<rparr>, Applied))"

definition requeued_row :: "timestamp \<Rightarrow> job_rec \<Rightarrow> job_rec" where
  "requeued_row clock r =
     r\<lparr>jr_status := Queued, jr_signer := None, jr_nonce := None, jr_tx_hash := None, jr_sent_at := None,
       jc_requeue_count := jc_requeue_count r + 1, jc_requeue_rank := - clock\<rparr>"

text \<open>Releasing the nonce: the slot goes and the high-water mark steps back.\<close>

definition release_nonce :: "timestamp \<Rightarrow> attempt \<Rightarrow> db \<Rightarrow> db" where
  "release_nonce now a d =
     (let n = i64_of_u64 (at_nonce a) in
      d\<lparr>db_slots := sql_delete (\<lambda>s. slot_key s = key_of a \<and> sl_owner_id s = owner_id (at_owner a)) (db_slots d),
        db_pairs := sql_update (\<lambda>p. pair_key_rec p = (i64_of_u64 (at_chain_id a), at_signer a) \<and> pr_nonce_hwm p = Some n)
          (\<lambda>p. p\<lparr>pr_nonce_hwm := (if n = 0 then None else Some (n - 1)), pr_updated_at := now\<rparr>) (db_pairs d)\<rparr>)"

definition void_attempts :: "timestamp \<Rightarrow> attempt \<Rightarrow> attempt_rec list \<Rightarrow> attempt_rec list" where
  "void_attempts now a t =
     sql_update (\<lambda>r. att_key r = key_of a \<and> ar_status r = ABroadcast)
       (\<lambda>r. r\<lparr>ar_status := ADropped, ar_raw_tx := None, ar_updated_at := now\<rparr>) t"

definition void_binding :: "timestamp \<Rightarrow> timestamp \<Rightarrow> uuid \<Rightarrow> int \<Rightarrow> attempt \<Rightarrow> void_mode \<Rightarrow> void_disposition
    \<Rightarrow> db \<Rightarrow> (db, store_error) result" where
  "void_binding now clock ev_id epoch a mode disposition d =
     (if db_epoch d \<noteq> epoch then Err (Fenced epoch)
      else
        let d1 = d\<lparr>db_attempts := void_attempts now a (db_attempts d)\<rparr>;
            d2 = (if mode = NonceUnused then release_nonce now a d1 else d1) in
        case (at_owner a, disposition) of
          (OJob i, Requeue) \<Rightarrow> Ok (d2\<lparr>db_jobs := sql_update (\<lambda>r. jr_id r = i \<and> jr_status r \<in> {Sent, Cancelling})
              (requeued_row clock) (db_jobs d2)\<rparr>)
        | (OJob i, Fail failure message) \<Rightarrow>
            and_then (announce now ev_id (\<lambda>r. jr_id r = i \<and> jr_status r \<in> {Sent, Cancelling})
                (failed_keep now failure message) WFailed False (\<lambda>r. Some BFailed) d2) (\<lambda>(d3, _). Ok d3)
        | (OTopup i, _) \<Rightarrow> Ok (d2\<lparr>db_topups := sql_update (\<lambda>t. tu_id t = i \<and> tu_status t = TSent)
              (\<lambda>t. t\<lparr>tu_status := TFailed, tu_error := Some ''transaction was rejected before it could be sent'',
                      tu_updated_at := now\<rparr>) (db_topups d2)\<rparr>))"

section \<open>Loading\<close>

definition load_live_attempts :: "u64 \<Rightarrow> db \<Rightarrow> (attempt list, store_error) result" where
  "load_live_attempts chain_id d =
     collect_results (map attempt_row (sort_key (\<lambda>r. (ar_signer r, ar_nonce r, ar_created_at r))
       (filter (\<lambda>r. ar_chain_id r = i64_of_u64 chain_id \<and> live_status (ar_status r)) (db_attempts d))))"

definition load_live_attempts_for :: "u64 \<Rightarrow> address \<Rightarrow> db \<Rightarrow> (attempt list, store_error) result" where
  "load_live_attempts_for chain_id signer d =
     collect_results (map attempt_row (sort_key (\<lambda>r. (ar_nonce r, ar_created_at r))
       (filter (\<lambda>r. ar_chain_id r = i64_of_u64 chain_id \<and> ar_signer r = signer \<and> live_status (ar_status r)) (db_attempts d))))"

definition attempts_for_job :: "job_id \<Rightarrow> db \<Rightarrow> (attempt list, store_error) result" where
  "attempts_for_job job_id d =
     collect_results (map attempt_row (sort_key ar_created_at (filter (\<lambda>r. ar_job_id r = Some job_id) (db_attempts d))))"

end
