(* ===== verification/Nonce_Protocol.thy ===== *)
theory Nonce_Protocol
  imports Store_Schema
begin

text \<open>
  The protocol that the store promises to its callers, without tables: owners (jobs and top-ups) with
  a status, attempts with a status, and nonce slots. A step of this machine is what one committed
  transaction of \<^verbatim>\<open>store/attempts.rs\<close> or \<^verbatim>\<open>store/jobs.rs\<close> means; the theory
  \<open>Store_Refinement\<close> shows that the transactions are such steps. The invariant is proved here by rule
  induction over the steps.

  A top-up uses the statuses of a job (requested is \<open>Queued\<close>). An attempt is \<^emph>\<open>main\<close> when its
  inclusion means that the owner's own transaction was mined: every attempt but the cancel of a job.
\<close>

section \<open>States and steps\<close>

record att =
  a_key :: nonce_key
  a_owner :: slot_owner
  a_main :: bool
  a_status :: attempt_status

record proto =
  p_owner :: "slot_owner \<Rightarrow> job_status option"
  p_att :: "uuid \<Rightarrow> att option"
  p_slot :: "nonce_key \<Rightarrow> slot_owner option"

definition p_empty :: proto where
  "p_empty = \<lparr>p_owner = (\<lambda>_. None), p_att = (\<lambda>_. None), p_slot = (\<lambda>_. None)\<rparr>"

text \<open>Statuses in which an attempt holds its nonce.\<close>

definition holds :: "attempt_status \<Rightarrow> bool" where
  "holds s = (s = ABroadcast \<or> s = AIncluded \<or> s = AConfirmed)"

definition mined :: "attempt_status \<Rightarrow> bool" where
  "mined s = (s = AIncluded \<or> s = AConfirmed)"

definition set_status :: "attempt_status \<Rightarrow> att \<Rightarrow> att" where
  "set_status st c = c\<lparr>a_status := st\<rparr>"

text \<open>Every broadcast attempt at a nonce, other than \<open>i\<close>, gets status \<open>st\<close>.\<close>

definition sweep :: "nonce_key \<Rightarrow> (uuid \<Rightarrow> bool) \<Rightarrow> attempt_status \<Rightarrow> (uuid \<Rightarrow> att option) \<Rightarrow> uuid \<Rightarrow> att option" where
  "sweep k keep st m i = (case m i of
      None \<Rightarrow> None
    | Some c \<Rightarrow> Some (if a_key c = k \<and> a_status c = ABroadcast \<and> \<not> keep i then set_status st c else c))"

definition do_first :: "uuid \<Rightarrow> nonce_key \<Rightarrow> slot_owner \<Rightarrow> proto \<Rightarrow> proto" where
  "do_first i k ow s = \<lparr>p_owner = (p_owner s)(ow \<mapsto> Sent),
     p_att = (p_att s)(i \<mapsto> \<lparr>a_key = k, a_owner = ow, a_main = True, a_status = ABroadcast\<rparr>),
     p_slot = (p_slot s)(k \<mapsto> ow)\<rparr>"

definition do_again :: "uuid \<Rightarrow> nonce_key \<Rightarrow> slot_owner \<Rightarrow> bool \<Rightarrow> proto \<Rightarrow> proto" where
  "do_again i k ow m s = s\<lparr>p_owner := (if m then p_owner s else (p_owner s)(ow \<mapsto> Cancelling)),
     p_att := (p_att s)(i \<mapsto> \<lparr>a_key = k, a_owner = ow, a_main = m, a_status = ABroadcast\<rparr>)\<rparr>"

definition do_include :: "uuid \<Rightarrow> att \<Rightarrow> proto \<Rightarrow> proto" where
  "do_include i b s = s\<lparr>p_owner := (if a_main b then (p_owner s)(a_owner b \<mapsto> Included) else p_owner s),
     p_att := (sweep (a_key b) (\<lambda>i'. i' = i) AReplaced (p_att s))(i \<mapsto> set_status AIncluded b)\<rparr>"

definition do_confirm :: "uuid \<Rightarrow> att \<Rightarrow> proto \<Rightarrow> proto" where
  "do_confirm i b s = s\<lparr>p_owner := (p_owner s)(a_owner b \<mapsto> (if a_main b then Confirmed else Failed)),
     p_att := (p_att s)(i \<mapsto> set_status AConfirmed b)\<rparr>"

definition do_demote :: "uuid \<Rightarrow> att \<Rightarrow> proto \<Rightarrow> proto" where
  "do_demote i b s = s\<lparr>p_owner := (if a_main b then (p_owner s)(a_owner b \<mapsto> Sent) else p_owner s),
     p_att := (p_att s)(i \<mapsto> set_status ABroadcast b)\<rparr>"

definition do_void :: "att \<Rightarrow> bool \<Rightarrow> job_status \<Rightarrow> proto \<Rightarrow> proto" where
  "do_void b release st s = \<lparr>p_owner = (p_owner s)(a_owner b \<mapsto> st),
     p_att = sweep (a_key b) (\<lambda>_. False) ADropped (p_att s),
     p_slot = (if release then (p_slot s)(a_key b := None) else p_slot s)\<rparr>"

inductive pstep :: "proto \<Rightarrow> proto \<Rightarrow> bool" where
  submit: "p_owner s ow = None \<Longrightarrow> pstep s (s\<lparr>p_owner := (p_owner s)(ow \<mapsto> Queued)\<rparr>)"
| withdraw: "p_owner s ow = Some Queued \<Longrightarrow> pstep s (s\<lparr>p_owner := (p_owner s)(ow \<mapsto> Failed)\<rparr>)"
| first: "p_owner s ow = Some Queued \<Longrightarrow> p_slot s k = None \<Longrightarrow> p_att s i = None \<Longrightarrow> pstep s (do_first i k ow s)"
| again: "p_att s i' = Some b \<Longrightarrow> a_status b = ABroadcast \<Longrightarrow> p_att s i = None \<Longrightarrow>
    p_owner s (a_owner b) \<in> {Some Sent, Some Cancelling} \<Longrightarrow> pstep s (do_again i (a_key b) (a_owner b) m s)"
| incl: "p_att s i = Some b \<Longrightarrow> a_status b = ABroadcast \<Longrightarrow> pstep s (do_include i b s)"
| confirm: "p_att s i = Some b \<Longrightarrow> a_status b = AIncluded \<Longrightarrow> pstep s (do_confirm i b s)"
| demote: "p_att s i = Some b \<Longrightarrow> a_status b = AIncluded \<Longrightarrow> pstep s (do_demote i b s)"
| void: "p_att s i = Some b \<Longrightarrow> a_status b = ABroadcast \<Longrightarrow> st = Queued \<or> st = Failed \<Longrightarrow>
    pstep s (do_void b release st s)"

inductive_cases pstepE: "pstep s s'"

section \<open>The invariant\<close>

text \<open>The owner status that an attempt which holds its nonce implies.\<close>

definition fits :: "att \<Rightarrow> job_status \<Rightarrow> bool" where
  "fits c st = (case a_status c of
      ABroadcast \<Rightarrow> if a_main c then st = Sent \<or> st = Cancelling else st = Cancelling
    | AIncluded \<Rightarrow> if a_main c then st = Included else st = Cancelling
    | AConfirmed \<Rightarrow> if a_main c then st = Confirmed else st = Failed
    | _ \<Rightarrow> True)"

text \<open>The attempt that an owner status calls for.\<close>

definition backs :: "job_status \<Rightarrow> att \<Rightarrow> bool" where
  "backs st c = (case st of
      Sent \<Rightarrow> a_main c \<and> a_status c = ABroadcast
    | Cancelling \<Rightarrow> \<not> a_main c \<and> (a_status c = ABroadcast \<or> a_status c = AIncluded)
    | Included \<Rightarrow> a_main c \<and> a_status c = AIncluded
    | Confirmed \<Rightarrow> a_main c \<and> a_status c = AConfirmed
    | _ \<Rightarrow> True)"

definition owned :: "proto \<Rightarrow> bool" where
  "owned s = (\<forall>i c. p_att s i = Some c \<longrightarrow> p_owner s (a_owner c) \<noteq> None
     \<and> (holds (a_status c) \<longrightarrow> p_slot s (a_key c) = Some (a_owner c)))"

definition one_nonce :: "proto \<Rightarrow> bool" where
  "one_nonce s = (\<forall>i c i' c'. p_att s i = Some c \<longrightarrow> p_att s i' = Some c' \<longrightarrow> holds (a_status c) \<longrightarrow>
     holds (a_status c') \<longrightarrow> a_owner c = a_owner c' \<longrightarrow> a_key c = a_key c')"

definition one_mined :: "proto \<Rightarrow> bool" where
  "one_mined s = (\<forall>i c i' c'. p_att s i = Some c \<longrightarrow> p_att s i' = Some c' \<longrightarrow> mined (a_status c) \<longrightarrow>
     holds (a_status c') \<longrightarrow> a_key c = a_key c' \<longrightarrow> i = i')"

definition status_fits :: "proto \<Rightarrow> bool" where
  "status_fits s = (\<forall>i c st. p_att s i = Some c \<longrightarrow> p_owner s (a_owner c) = Some st \<longrightarrow> fits c st)"

definition status_backed :: "proto \<Rightarrow> bool" where
  "status_backed s = (\<forall>ow st. p_owner s ow = Some st \<longrightarrow> st \<noteq> Queued \<longrightarrow> st \<noteq> Failed \<longrightarrow>
     (\<exists>i c. p_att s i = Some c \<and> a_owner c = ow \<and> backs st c))"

definition pinv :: "proto \<Rightarrow> bool" where
  "pinv s = (owned s \<and> one_nonce s \<and> one_mined s \<and> status_fits s \<and> status_backed s)"

lemmas pinv_parts = owned_def one_nonce_def one_mined_def status_fits_def status_backed_def

lemma holds_mined: "mined st \<Longrightarrow> holds st"
  by (auto simp: holds_def mined_def)

lemma sweep_Some:
  "sweep k keep st m i = Some c \<longleftrightarrow>
     (\<exists>c0. m i = Some c0 \<and> c = (if a_key c0 = k \<and> a_status c0 = ABroadcast \<and> \<not> keep i then set_status st c0 else c0))"
  by (auto simp: sweep_def split: option.splits)

lemma set_status_simps [simp]:
  "a_key (set_status st c) = a_key c" "a_owner (set_status st c) = a_owner c"
  "a_main (set_status st c) = a_main c" "a_status (set_status st c) = st"
  by (simp_all add: set_status_def)

lemma holds_simps [simp]: "holds ABroadcast" "holds AIncluded" "holds AConfirmed" "\<not> holds AReplaced" "\<not> holds ADropped"
  "mined AIncluded" "mined AConfirmed" "\<not> mined ABroadcast" "\<not> mined AReplaced" "\<not> mined ADropped"
  by (simp_all add: holds_def mined_def)

text \<open>Attempts that hold one nonce have one owner.\<close>

lemma same_key_same_owner:
  "owned s \<Longrightarrow> p_att s i = Some c \<Longrightarrow> p_att s i' = Some c' \<Longrightarrow> holds (a_status c) \<Longrightarrow> holds (a_status c') \<Longrightarrow>
   a_key c = a_key c' \<Longrightarrow> a_owner c = a_owner c'"
  unfolding owned_def by (metis option.inject)

lemma ownedD: "owned s \<Longrightarrow> p_att s i = Some c \<Longrightarrow> \<exists>st. p_owner s (a_owner c) = Some st"
  unfolding owned_def by blast

lemma slotD: "owned s \<Longrightarrow> p_att s i = Some c \<Longrightarrow> holds (a_status c) \<Longrightarrow> p_slot s (a_key c) = Some (a_owner c)"
  unfolding owned_def by blast

lemma one_nonceD:
  "one_nonce s \<Longrightarrow> p_att s i = Some c \<Longrightarrow> p_att s i' = Some c' \<Longrightarrow> holds (a_status c) \<Longrightarrow> holds (a_status c') \<Longrightarrow>
   a_owner c = a_owner c' \<Longrightarrow> a_key c = a_key c'"
  unfolding one_nonce_def by blast

lemma one_minedD:
  "one_mined s \<Longrightarrow> p_att s i = Some c \<Longrightarrow> p_att s i' = Some c' \<Longrightarrow> mined (a_status c) \<Longrightarrow> holds (a_status c') \<Longrightarrow>
   a_key c = a_key c' \<Longrightarrow> i = i'"
  unfolding one_mined_def by blast

lemma fitsD: "status_fits s \<Longrightarrow> p_att s i = Some c \<Longrightarrow> p_owner s (a_owner c) = Some st \<Longrightarrow> fits c st"
  unfolding status_fits_def by blast

lemma backedD:
  "status_backed s \<Longrightarrow> p_owner s ow = Some st \<Longrightarrow> st \<noteq> Queued \<Longrightarrow> st \<noteq> Failed \<Longrightarrow>
   \<exists>i c. p_att s i = Some c \<and> a_owner c = ow \<and> backs st c"
  unfolding status_backed_def by blast

lemma pinvI:
  assumes "\<And>i c. p_att s i = Some c \<Longrightarrow> p_owner s (a_owner c) \<noteq> None"
    and "\<And>i c. p_att s i = Some c \<Longrightarrow> holds (a_status c) \<Longrightarrow> p_slot s (a_key c) = Some (a_owner c)"
    and "\<And>i c i' c'. p_att s i = Some c \<Longrightarrow> p_att s i' = Some c' \<Longrightarrow> holds (a_status c) \<Longrightarrow> holds (a_status c') \<Longrightarrow>
       a_owner c = a_owner c' \<Longrightarrow> a_key c = a_key c'"
    and "\<And>i c i' c'. p_att s i = Some c \<Longrightarrow> p_att s i' = Some c' \<Longrightarrow> mined (a_status c) \<Longrightarrow> holds (a_status c') \<Longrightarrow>
       a_key c = a_key c' \<Longrightarrow> i = i'"
    and "\<And>i c st. p_att s i = Some c \<Longrightarrow> p_owner s (a_owner c) = Some st \<Longrightarrow> fits c st"
    and "\<And>ow st. p_owner s ow = Some st \<Longrightarrow> st \<noteq> Queued \<Longrightarrow> st \<noteq> Failed \<Longrightarrow>
       \<exists>i c. p_att s i = Some c \<and> a_owner c = ow \<and> backs st c"
  shows "pinv s"
  unfolding pinv_def owned_def one_nonce_def one_mined_def status_fits_def status_backed_def
  using assms by blast

lemma fits_not_holds: "\<not> holds (a_status c) \<Longrightarrow> fits c st"
  by (cases "a_status c") (simp_all add: fits_def)

lemma fits_Queued: "fits c Queued \<Longrightarrow> \<not> holds (a_status c)"
  by (cases "a_status c") (simp_all add: fits_def split: if_splits)

lemma backs_fits: "backs st c \<Longrightarrow> st \<noteq> Queued \<Longrightarrow> st \<noteq> Failed \<Longrightarrow> holds (a_status c)"
  by (cases st) (auto simp: backs_def)

lemma fits_backs:
  "fits c st \<Longrightarrow> holds (a_status c) \<Longrightarrow> a_main c \<Longrightarrow> a_status c \<noteq> ABroadcast \<Longrightarrow> backs st c"
  by (cases "a_status c") (simp_all add: fits_def backs_def)

lemma pinv_empty: "pinv p_empty"
  by (rule pinvI) (simp_all add: p_empty_def)

lemma pinv_submit:
  assumes "pinv s" "p_owner s ow = None"
  shows "pinv (s\<lparr>p_owner := (p_owner s)(ow \<mapsto> Queued)\<rparr>)"
proof -
  from assms(1) have *: "owned s" "one_nonce s" "one_mined s" "status_fits s" "status_backed s" by (simp_all add: pinv_def)
  have ne: "a_owner c \<noteq> ow" if "p_att s i = Some c" for i c using ownedD [OF *(1) that] assms(2) by auto
  show ?thesis
    by (rule pinvI)
      (use ne *(1) in \<open>auto simp: owned_def intro: one_nonceD [OF *(2)] one_minedD [OF *(3)] fitsD [OF *(4)] dest: backedD [OF *(5)]
         split: if_splits\<close>)
qed

lemma pinv_withdraw:
  assumes "pinv s" "p_owner s ow = Some Queued"
  shows "pinv (s\<lparr>p_owner := (p_owner s)(ow \<mapsto> Failed)\<rparr>)"
proof -
  from assms(1) have *: "owned s" "one_nonce s" "one_mined s" "status_fits s" "status_backed s" by (simp_all add: pinv_def)
  have nh: "\<not> holds (a_status c)" if "p_att s i = Some c" "a_owner c = ow" for i c
    using fitsD [OF *(4) that(1), of Queued] that(2) assms(2) fits_Queued by auto
  show ?thesis
    by (rule pinvI)
      (use nh *(1) in \<open>auto simp: owned_def fits_not_holds intro: one_nonceD [OF *(2)] one_minedD [OF *(3)] fitsD [OF *(4)]
         dest: backedD [OF *(5)] split: if_splits\<close>)
qed

lemma pinv_first:
  assumes "pinv s" "p_owner s ow = Some Queued" "p_slot s k = None" "p_att s i = None"
  shows "pinv (do_first i k ow s)"
proof -
  from assms(1) have *: "owned s" "one_nonce s" "one_mined s" "status_fits s" "status_backed s" by (simp_all add: pinv_def)
  let ?n = "\<lparr>a_key = k, a_owner = ow, a_main = True, a_status = ABroadcast\<rparr>"
  have nh: "\<not> holds (a_status c)" if "p_att s j = Some c" "a_owner c = ow" for j c
    using fitsD [OF *(4) that(1), of Queued] that(2) assms(2) fits_Queued by auto
  have nk: "\<not> holds (a_status c)" if "p_att s j = Some c" "a_key c = k" for j c
    using slotD [OF *(1) that(1)] that(2) assms(3) by auto
  have nm: "\<not> mined (a_status c)" if "p_att s j = Some c" "a_key c = k" for j c
    using nk [OF that] holds_mined by blast
  show ?thesis
  proof (rule pinvI)
    fix ow' st
    assume "p_owner (do_first i k ow s) ow' = Some st" "st \<noteq> Queued" "st \<noteq> Failed"
    then show "\<exists>j c. p_att (do_first i k ow s) j = Some c \<and> a_owner c = ow' \<and> backs st c"
    proof (cases "ow' = ow")
      case True
      with \<open>p_owner _ ow' = Some st\<close> have "st = Sent" by (simp add: do_first_def)
      with True show ?thesis by (intro exI [of _ i] exI [of _ ?n]) (simp add: do_first_def backs_def)
    next
      case False
      with \<open>p_owner _ ow' = Some st\<close> have "p_owner s ow' = Some st" by (simp add: do_first_def)
      from backedD [OF *(5) this \<open>st \<noteq> Queued\<close> \<open>st \<noteq> Failed\<close>] assms(4) obtain j c
        where "p_att s j = Some c" "a_owner c = ow'" "backs st c" "j \<noteq> i" by (metis option.distinct(1))
      then show ?thesis by (intro exI [of _ j] exI [of _ c]) (simp add: do_first_def)
    qed
  qed (use nh nk nm *(1) in \<open>auto simp: do_first_def owned_def fits_not_holds fits_def [of ?n] intro: one_nonceD [OF *(2)]
      one_minedD [OF *(3)] fitsD [OF *(4)] split: if_splits\<close>)
qed

lemma pinv_again:
  assumes "pinv s" "p_att s i' = Some b" "a_status b = ABroadcast" "p_att s i = None"
    "p_owner s (a_owner b) \<in> {Some Sent, Some Cancelling}"
  shows "pinv (do_again i (a_key b) (a_owner b) m s)"
proof -
  from assms(1) have *: "owned s" "one_nonce s" "one_mined s" "status_fits s" "status_backed s" by (simp_all add: pinv_def)
  let ?n = "\<lparr>a_key = a_key b, a_owner = a_owner b, a_main = m, a_status = ABroadcast\<rparr>"
  let ?s = "do_again i (a_key b) (a_owner b) m s"
  have nm: "\<not> mined (a_status c)" if c: "p_att s j = Some c" and k: "a_key c = a_key b" for j c
  proof
    assume "mined (a_status c)"
    with one_minedD [OF *(3) c assms(2)] k assms(3) have "j = i'" by simp
    with c assms(2,3) \<open>mined (a_status c)\<close> show False by simp
  qed
  have key: "a_key c = a_key b" if "p_att s j = Some c" "holds (a_status c)" "a_owner c = a_owner b" for j c
    using one_nonceD [OF *(2) that(1) assms(2) that(2)] assms(3) that(3) by simp
  have bc: "a_status c = ABroadcast" if "p_att s j = Some c" "holds (a_status c)" "a_owner c = a_owner b" for j c
    using nm [OF that(1) key [OF that]] that(2) by (auto simp: holds_def mined_def)
  have fit: "fits c Cancelling" if "p_att s j = Some c" "a_owner c = a_owner b" for j c
    using bc [OF that(1) _ that(2)] fits_not_holds [of c] by (cases "holds (a_status c)") (simp_all add: fits_def)
  show ?thesis
  proof (rule pinvI)
    fix ow' st
    assume o: "p_owner ?s ow' = Some st" "st \<noteq> Queued" "st \<noteq> Failed"
    show "\<exists>j c. p_att ?s j = Some c \<and> a_owner c = ow' \<and> backs st c"
    proof (cases "ow' = a_owner b \<and> \<not> m")
      case True
      with o have "st = Cancelling" by (simp add: do_again_def)
      with True show ?thesis by (intro exI [of _ i] exI [of _ ?n]) (simp add: do_again_def backs_def)
    next
      case False
      with o have "p_owner s ow' = Some st" by (auto simp: do_again_def split: if_splits)
      from backedD [OF *(5) this o(2,3)] assms(4) obtain j c
        where "p_att s j = Some c" "a_owner c = ow'" "backs st c" "j \<noteq> i" by (metis option.distinct(1))
      then show ?thesis by (intro exI [of _ j] exI [of _ c]) (simp add: do_again_def)
    qed
  next
    fix j c st assume "p_att ?s j = Some c" "p_owner ?s (a_owner c) = Some st"
    then show "fits c st" using assms(5) fit [of j c] fitsD [OF *(4), of j c]
      by (cases "j = i") (auto simp: do_again_def fits_def split: if_splits)
  next
    fix j c j' c' assume "p_att ?s j = Some c" "p_att ?s j' = Some c'" "holds (a_status c)" "holds (a_status c')" "a_owner c = a_owner c'"
    then show "a_key c = a_key c'" using key by (auto simp: do_again_def intro: one_nonceD [OF *(2)] split: if_splits)
  next
    fix j c j' c' assume "p_att ?s j = Some c" "p_att ?s j' = Some c'" "mined (a_status c)" "holds (a_status c')" "a_key c = a_key c'"
    then show "j = j'" using nm by (auto simp: do_again_def intro: one_minedD [OF *(3)] split: if_splits)
  qed (use slotD [OF *(1) assms(2)] assms(3,5) *(1) in \<open>auto simp: do_again_def owned_def split: if_splits\<close>)
qed

text \<open>A mined attempt is the only one that still holds its nonce, and the only one of its owner.\<close>

lemma sole_holder:
  assumes "pinv s" "p_att s i = Some b" "mined (a_status b)" "p_att s j = Some c" "holds (a_status c)"
    "a_owner c = a_owner b \<or> a_key c = a_key b"
  shows "j = i"
proof -
  from assms(1) have *: "one_nonce s" "one_mined s" by (simp_all add: pinv_def)
  have "a_key c = a_key b"
    using assms(6) one_nonceD [OF *(1) assms(4,2,5)] holds_mined [OF assms(3)] by blast
  then show ?thesis using one_minedD [OF *(2) assms(2,4,3,5)] by simp
qed

text \<open>While one attempt of a nonce is broadcast, all that hold it are, and they have one owner.\<close>

lemma broadcast_siblings:
  assumes "pinv s" "p_att s i = Some b" "a_status b = ABroadcast" "p_att s j = Some c" "holds (a_status c)"
    "a_owner c = a_owner b \<or> a_key c = a_key b"
  shows "a_status c = ABroadcast \<and> a_key c = a_key b \<and> a_owner c = a_owner b"
proof -
  from assms(1) have *: "owned s" "one_nonce s" "one_mined s" by (simp_all add: pinv_def)
  have b: "holds (a_status b)" using assms(3) by simp
  have k: "a_key c = a_key b" using assms(6) one_nonceD [OF *(2) assms(4,2,5) b] by blast
  have o: "a_owner c = a_owner b" using same_key_same_owner [OF *(1) assms(4,2,5) b k] .
  have "\<not> mined (a_status c)"
  proof
    assume m: "mined (a_status c)"
    from one_minedD [OF *(3) assms(4,2) m b k] assms(2,3,4) m show False by simp
  qed
  with assms(5) k o show ?thesis by (auto simp: holds_def mined_def)
qed

text \<open>After a step that leaves attempt \<open>i\<close> as the only one of its owner and of its nonce that holds,
  the invariant is a matter of the owner's status alone.\<close>

lemma pinv_sole:
  assumes inv: "pinv s"
    and b: "p_att s i = Some b"
    and at: "p_att s' i = Some b'" "a_key b' = a_key b" "a_owner b' = a_owner b" "holds (a_status b')"
    and others: "\<And>j. j \<noteq> i \<Longrightarrow> p_att s' j = p_att s j \<or>
        (\<exists>c. p_att s j = Some c \<and> p_att s' j = Some (set_status AReplaced c) \<and> a_owner c = a_owner b)"
    and sole: "\<And>j c. p_att s' j = Some c \<Longrightarrow> holds (a_status c) \<Longrightarrow> a_owner c = a_owner b \<or> a_key c = a_key b \<Longrightarrow> j = i"
    and slot: "p_slot s' = p_slot s" "p_slot s (a_key b) = Some (a_owner b)"
    and ow: "p_owner s' = (p_owner s)(a_owner b \<mapsto> st)" "fits b' st" "st \<noteq> Queued \<Longrightarrow> st \<noteq> Failed \<Longrightarrow> backs st b'"
  shows "pinv s'"
proof -
  from inv have *: "owned s" "one_nonce s" "one_mined s" "status_fits s" "status_backed s" by (simp_all add: pinv_def)
  have old: "\<exists>c0. p_att s j = Some c0 \<and> a_key c = a_key c0 \<and> a_owner c = a_owner c0 \<and> (c = c0 \<or> \<not> holds (a_status c))"
    if "p_att s' j = Some c" "j \<noteq> i" for j c
    using others [OF that(2)] that(1) by (metis holds_simps(4) option.inject set_status_simps)
  show ?thesis
  proof (rule pinvI)
    fix j c assume "p_att s' j = Some c"
    then show "p_owner s' (a_owner c) \<noteq> None"
      using old [of j c] ownedD [OF *(1), of j] at ow(1) by (cases "j = i") fastforce+
  next
    fix j c assume c: "p_att s' j = Some c" "holds (a_status c)"
    then show "p_slot s' (a_key c) = Some (a_owner c)"
      using old [of j c] slotD [OF *(1), of j] at slot by (cases "j = i") auto
  next
    fix j c j' c'
    assume c: "p_att s' j = Some c" "p_att s' j' = Some c'" "holds (a_status c)" "holds (a_status c')" "a_owner c = a_owner c'"
    show "a_key c = a_key c'"
    proof (cases "a_owner c = a_owner b")
      case True
      with c sole have "j = i" "j' = i" by metis+
      with c show ?thesis by simp
    next
      case False
      with c at have "j \<noteq> i" "j' \<noteq> i" by auto
      with old [OF c(1)] old [OF c(2)] c(3,4,5) show ?thesis by (metis one_nonceD [OF *(2)])
    qed
  next
    fix j c j' c'
    assume c: "p_att s' j = Some c" "p_att s' j' = Some c'" "mined (a_status c)" "holds (a_status c')" "a_key c = a_key c'"
    have h: "holds (a_status c)" using c(3) by (rule holds_mined)
    show "j = j'"
    proof (cases "a_key c = a_key b")
      case True
      with c h sole show ?thesis by metis
    next
      case False
      with c at have "j \<noteq> i" "j' \<noteq> i" by auto
      with old [OF c(1)] old [OF c(2)] c h show ?thesis by (metis one_minedD [OF *(3)])
    qed
  next
    fix j c st' assume c: "p_att s' j = Some c" "p_owner s' (a_owner c) = Some st'"
    show "fits c st'"
    proof (cases "j = i")
      case True
      with c at ow show ?thesis by simp
    next
      case False
      show ?thesis
      proof (cases "holds (a_status c)")
        case True
        with sole [OF c(1)] False have "a_owner c \<noteq> a_owner b" by blast
        with c ow(1) old [OF c(1) False] True show ?thesis by (auto intro: fitsD [OF *(4)])
      qed (simp add: fits_not_holds)
    qed
  next
    fix ow' st' assume o: "p_owner s' ow' = Some st'" "st' \<noteq> Queued" "st' \<noteq> Failed"
    show "\<exists>j c. p_att s' j = Some c \<and> a_owner c = ow' \<and> backs st' c"
    proof (cases "ow' = a_owner b")
      case True
      with o ow at show ?thesis by (intro exI [of _ i] exI [of _ b']) simp
    next
      case False
      with o ow(1) have "p_owner s ow' = Some st'" by simp
      from backedD [OF *(5) this o(2,3)] obtain j c where "p_att s j = Some c" "a_owner c = ow'" "backs st' c" by blast
      moreover from this False b have "j \<noteq> i" by auto
      ultimately show ?thesis using others [of j] False by auto
    qed
  qed
qed

lemma sweep_cases:
  "sweep k keep st m i = (case m i of Some c \<Rightarrow> if a_key c = k \<and> a_status c = ABroadcast \<and> \<not> keep i
     then Some (set_status st c) else Some c | None \<Rightarrow> None)"
  by (simp add: sweep_def split: option.splits)

lemma pinv_incl:
  assumes "pinv s" "p_att s i = Some b" "a_status b = ABroadcast"
  shows "pinv (do_include i b s)"
proof -
  from assms(1) have *: "owned s" "status_fits s" by (simp_all add: pinv_def)
  let ?s = "do_include i b s"
  let ?b = "set_status AIncluded b"
  obtain st0 where st0: "p_owner s (a_owner b) = Some st0" using ownedD [OF *(1) assms(2)] by blast
  have canc: "st0 = Cancelling" if "\<not> a_main b" using fitsD [OF *(2) assms(2) st0] that assms(3) by (simp add: fits_def)
  define st where "st = (if a_main b then Included else Cancelling)"
  have own: "p_owner ?s = (p_owner s)(a_owner b \<mapsto> st)"
    using canc st0 by (auto simp: do_include_def st_def fun_upd_idem)
  have swept: "p_att ?s j = Some c \<Longrightarrow> j \<noteq> i \<Longrightarrow> \<exists>c0. p_att s j = Some c0 \<and>
      c = (if a_key c0 = a_key b \<and> a_status c0 = ABroadcast then set_status AReplaced c0 else c0)" for j c
    by (simp add: do_include_def sweep_Some)
  show ?thesis
  proof (rule pinv_sole [OF assms(1,2), where b' = ?b and st = st])
    fix j assume "j \<noteq> i"
    then show "p_att ?s j = p_att s j \<or>
        (\<exists>c. p_att s j = Some c \<and> p_att ?s j = Some (set_status AReplaced c) \<and> a_owner c = a_owner b)"
      using broadcast_siblings [OF assms] by (fastforce simp: do_include_def sweep_cases split: option.splits)
  next
    fix j c assume c: "p_att ?s j = Some c" "holds (a_status c)" "a_owner c = a_owner b \<or> a_key c = a_key b"
    show "j = i"
    proof (rule ccontr)
      assume "j \<noteq> i"
      from swept [OF c(1) this] obtain c0 where c0: "p_att s j = Some c0"
        "c = (if a_key c0 = a_key b \<and> a_status c0 = ABroadcast then set_status AReplaced c0 else c0)" by blast
      have nb: "\<not> (a_key c0 = a_key b \<and> a_status c0 = ABroadcast)" using c0(2) c(2) by auto
      then have "c = c0" using c0(2) by simp
      with broadcast_siblings [OF assms c0(1)] c(2,3) nb show False by blast
    qed
  next
    show "p_slot s (a_key b) = Some (a_owner b)" using slotD [OF *(1) assms(2)] assms(3) by simp
  qed (use own in \<open>simp_all add: do_include_def st_def fits_def backs_def\<close>)
qed

lemma pinv_confirm:
  assumes "pinv s" "p_att s i = Some b" "a_status b = AIncluded"
  shows "pinv (do_confirm i b s)"
proof -
  have m: "mined (a_status b)" using assms(3) by simp
  show ?thesis
  proof (rule pinv_sole [OF assms(1,2), where b' = "set_status AConfirmed b" and st = "if a_main b then Confirmed else Failed"])
    fix j c assume "p_att (do_confirm i b s) j = Some c" "holds (a_status c)" "a_owner c = a_owner b \<or> a_key c = a_key b"
    then show "j = i" using sole_holder [OF assms(1,2) m, of j c] by (auto simp: do_confirm_def split: if_splits)
  next
    show "p_slot s (a_key b) = Some (a_owner b)"
      using slotD [of s i b] assms(1,2) holds_mined [OF m] by (simp add: pinv_def)
  qed (simp_all add: do_confirm_def fits_def backs_def)
qed

lemma pinv_demote:
  assumes "pinv s" "p_att s i = Some b" "a_status b = AIncluded"
  shows "pinv (do_demote i b s)"
proof -
  have m: "mined (a_status b)" using assms(3) by simp
  from assms(1) have *: "owned s" "status_fits s" by (simp_all add: pinv_def)
  obtain st0 where st0: "p_owner s (a_owner b) = Some st0" using ownedD [OF *(1) assms(2)] by blast
  have canc: "st0 = Cancelling" if "\<not> a_main b" using fitsD [OF *(2) assms(2) st0] that assms(3) by (simp add: fits_def)
  show ?thesis
  proof (rule pinv_sole [OF assms(1,2), where b' = "set_status ABroadcast b" and st = "if a_main b then Sent else Cancelling"])
    fix j c assume "p_att (do_demote i b s) j = Some c" "holds (a_status c)" "a_owner c = a_owner b \<or> a_key c = a_key b"
    then show "j = i" using sole_holder [OF assms(1,2) m, of j c] by (auto simp: do_demote_def split: if_splits)
  next
    show "p_slot s (a_key b) = Some (a_owner b)"
      using slotD [of s i b] assms(1,2) holds_mined [OF m] by (simp add: pinv_def)
    show "p_owner (do_demote i b s) = (p_owner s)(a_owner b \<mapsto> if a_main b then Sent else Cancelling)"
      using canc st0 by (auto simp: do_demote_def fun_upd_idem)
  qed (simp_all add: do_demote_def fits_def backs_def)
qed

lemma pinv_void:
  assumes "pinv s" "p_att s i = Some b" "a_status b = ABroadcast" "st = Queued \<or> st = Failed"
  shows "pinv (do_void b release st s)"
proof -
  from assms(1) have *: "owned s" "one_nonce s" "one_mined s" "status_fits s" "status_backed s" by (simp_all add: pinv_def)
  let ?s = "do_void b release st s"
  have kept: "p_att s j = Some c \<and> a_owner c \<noteq> a_owner b \<and> a_key c \<noteq> a_key b"
    if j: "p_att ?s j = Some c" "holds (a_status c)" for j c
  proof -
    from j obtain c0 where c0: "p_att s j = Some c0"
      "c = (if a_key c0 = a_key b \<and> a_status c0 = ABroadcast then set_status ADropped c0 else c0)"
      by (auto simp: do_void_def sweep_Some)
    have nb: "\<not> (a_key c0 = a_key b \<and> a_status c0 = ABroadcast)" using c0(2) j(2) by auto
    then have "c = c0" using c0(2) by simp
    with broadcast_siblings [OF assms(1-3) c0(1)] j(2) c0(1) nb show ?thesis by blast
  qed
  have old: "\<exists>c0. p_att s j = Some c0 \<and> a_owner c = a_owner c0" if "p_att ?s j = Some c" for j c
    using that by (auto simp: do_void_def sweep_Some)
  show ?thesis
  proof (rule pinvI)
    fix j c st' assume c: "p_att ?s j = Some c" "p_owner ?s (a_owner c) = Some st'"
    show "fits c st'"
    proof (cases "holds (a_status c)")
      case True
      with kept [OF c(1)] c(2) fitsD [OF *(4)] show ?thesis by (auto simp: do_void_def)
    qed (simp add: fits_not_holds)
  next
    fix ow' st' assume o: "p_owner ?s ow' = Some st'" "st' \<noteq> Queued" "st' \<noteq> Failed"
    with assms(4) have "ow' \<noteq> a_owner b" "p_owner s ow' = Some st'" by (auto simp: do_void_def split: if_splits)
    from backedD [OF *(5) this(2) o(2,3)] obtain j c where jc: "p_att s j = Some c" "a_owner c = ow'" "backs st' c" by blast
    moreover have "a_key c \<noteq> a_key b"
      using broadcast_siblings [OF assms(1-3) jc(1) backs_fits [OF jc(3) o(2,3)]] jc(2) \<open>ow' \<noteq> a_owner b\<close> by blast
    ultimately show "\<exists>j c. p_att ?s j = Some c \<and> a_owner c = ow' \<and> backs st' c"
      by (intro exI [of _ j] exI [of _ c]) (simp add: do_void_def sweep_def)
  next
    fix j c assume "p_att ?s j = Some c" "holds (a_status c)"
    then show "p_slot ?s (a_key c) = Some (a_owner c)"
      using kept slotD [OF *(1)] by (auto simp: do_void_def)
  next
    fix j c assume "p_att ?s j = Some c"
    from old [OF this] show "p_owner ?s (a_owner c) \<noteq> None" using ownedD [OF *(1)] by (fastforce simp: do_void_def)
  next
    fix j c j' c'
    assume c: "p_att ?s j = Some c" "p_att ?s j' = Some c'" "holds (a_status c)" "holds (a_status c')" "a_owner c = a_owner c'"
    show "a_key c = a_key c'"
      using one_nonceD [OF *(2) _ _ c(3-5)] kept [OF c(1,3)] kept [OF c(2,4)] by blast
  next
    fix j c j' c'
    assume c: "p_att ?s j = Some c" "p_att ?s j' = Some c'" "mined (a_status c)" "holds (a_status c')" "a_key c = a_key c'"
    show "j = j'"
      using one_minedD [OF *(3) _ _ c(3-5)] kept [OF c(1) holds_mined [OF c(3)]] kept [OF c(2,4)] by blast
  qed
qed

lemma pinv_step: "pstep s s' \<Longrightarrow> pinv s \<Longrightarrow> pinv s'"
proof (induction rule: pstep.induct)
  case (again s i' b i m)
  then show ?case by (intro pinv_again)
qed (simp_all add: pinv_submit pinv_withdraw pinv_first pinv_incl pinv_confirm pinv_demote pinv_void)

inductive preach :: "proto \<Rightarrow> bool" where
  init: "preach p_empty"
| step: "preach s \<Longrightarrow> pstep s s' \<Longrightarrow> preach s'"

lemma preach_inv: "preach s \<Longrightarrow> pinv s"
  by (induction rule: preach.induct) (auto intro: pinv_empty pinv_step)

lemma preach_steps: "pstep\<^sup>*\<^sup>* s s' \<Longrightarrow> preach s \<Longrightarrow> preach s'"
  by (induction rule: rtranclp_induct) (auto intro: preach.step)

section \<open>What the protocol guarantees\<close>

text \<open>At most one attempt of an owner is ever mined.\<close>

lemma at_most_one_mined:
  assumes "pinv s" "p_att s i = Some c" "p_att s i' = Some c'" "mined (a_status c)" "mined (a_status c')"
    "a_owner c = a_owner c'"
  shows "i = i'"
  using sole_holder [OF assms(1,3,5,2)] assms(4,6) holds_mined by simp

text \<open>Terminal statuses are final.\<close>

lemma terminal_is_final:
  assumes "pstep s s'" "pinv s" "p_owner s ow = Some st" "is_terminal st"
  shows "p_owner s' ow = Some st"
  using assms(1)
proof cases
  case (incl i b)
  have "a_owner b \<noteq> ow"
    using fitsD [of s i b st] assms incl by (auto simp: pinv_def fits_def is_terminal_def split: if_splits)
  with incl assms(3) show ?thesis by (auto simp: do_include_def)
next
  case (confirm i b)
  have "a_owner b \<noteq> ow"
    using fitsD [of s i b st] assms confirm by (auto simp: pinv_def fits_def is_terminal_def split: if_splits)
  with confirm assms(3) show ?thesis by (auto simp: do_confirm_def)
next
  case (demote i b)
  have "a_owner b \<noteq> ow"
    using fitsD [of s i b st] assms demote by (auto simp: pinv_def fits_def is_terminal_def split: if_splits)
  with demote assms(3) show ?thesis by (auto simp: do_demote_def)
next
  case (void i b st' release)
  have "a_owner b \<noteq> ow"
    using fitsD [of s i b st] assms void by (auto simp: pinv_def fits_def is_terminal_def split: if_splits)
  with void assms(3) show ?thesis by (auto simp: do_void_def)
qed (use assms(3,4) in \<open>auto simp: do_first_def do_again_def is_terminal_def\<close>)

end
