(* ===== verification/Store_Refinement.thy ===== *)
theory Store_Refinement
  imports Store_Attempts Nonce_Protocol
begin

text \<open>
  The transactions of the store as steps of the nonce protocol. The abstraction forgets every column
  but identities, nonces, owners and statuses; each transaction is then one step of the protocol (an
  inclusion that confirms at once is two, a batch is one per row), under the obligations its callers
  keep, which are the premises of \<open>store_step\<close>.
\<close>

section \<open>Abstraction\<close>

definition tab_view :: "('r \<Rightarrow> 'k) \<Rightarrow> ('r \<Rightarrow> 'v) \<Rightarrow> 'r list \<Rightarrow> 'k \<Rightarrow> 'v option" where
  "tab_view k v t = map_of (map (\<lambda>r. (k r, v r)) t)"

definition rec_owner :: "attempt_rec \<Rightarrow> slot_owner" where
  "rec_owner r = (case ar_job_id r of Some i \<Rightarrow> OJob i
     | None \<Rightarrow> (case ar_topup_id r of Some i \<Rightarrow> OTopup i | None \<Rightarrow> OTopup 0))"

definition main_of :: "slot_owner \<Rightarrow> attempt_purpose \<Rightarrow> bool" where
  "main_of ow p = (case ow of OJob i \<Rightarrow> p = PJob | OTopup i \<Rightarrow> True)"

definition att_of :: "attempt_rec \<Rightarrow> att" where
  "att_of r = \<lparr>a_key = att_key r, a_owner = rec_owner r, a_main = main_of (rec_owner r) (ar_purpose r),
     a_status = ar_status r\<rparr>"

primrec topup_as_job :: "topup_status \<Rightarrow> job_status" where
  "topup_as_job TRequested = Queued"
| "topup_as_job TSent = Sent"
| "topup_as_job TIncluded = Included"
| "topup_as_job TConfirmed = Confirmed"
| "topup_as_job TFailed = Failed"

definition slot_owner_of :: "slot_rec \<Rightarrow> slot_owner" where
  "slot_owner_of s = (if sl_owner_kind s = ''job'' then OJob (sl_owner_id s) else OTopup (sl_owner_id s))"

definition abs_owner :: "db \<Rightarrow> slot_owner \<Rightarrow> job_status option" where
  "abs_owner d ow = (case ow of
      OJob i \<Rightarrow> tab_view jr_id jr_status (db_jobs d) i
    | OTopup i \<Rightarrow> map_option topup_as_job (tab_view tu_id tu_status (db_topups d) i))"

definition protocol_of :: "db \<Rightarrow> proto" where
  "protocol_of d = \<lparr>p_owner = abs_owner d, p_att = tab_view ar_id att_of (db_attempts d), p_slot = tab_view slot_key slot_owner_of (db_slots d)\<rparr>"

text \<open>The primary keys the schema declares.\<close>

definition keys_ok :: "db \<Rightarrow> bool" where
  "keys_ok d = (distinct (map jr_id (db_jobs d)) \<and> distinct (map ar_id (db_attempts d))
     \<and> distinct (map slot_key (db_slots d)) \<and> distinct (map tu_id (db_topups d))
     \<and> distinct (map pair_key_rec (db_pairs d)) \<and> distinct (map gas_key (db_gas d))
     \<and> distinct (map wd_id (db_deliveries d)))"

section \<open>Views of tables\<close>

lemma tab_view_Nil [simp]: "tab_view k v [] = (\<lambda>_. None)"
  by (simp add: tab_view_def)

lemma tab_view_Cons [simp]: "tab_view k v (r # t) = (tab_view k v t)(k r \<mapsto> v r)"
  by (simp add: tab_view_def)

lemma tab_view_None: "tab_view k v t x = None \<longleftrightarrow> (\<forall>r\<in>set t. k r \<noteq> x)"
  by (induction t) auto

lemma tab_view_Some_ex: "tab_view k v t x = Some y \<Longrightarrow> \<exists>r\<in>set t. k r = x \<and> v r = y"
  by (induction t) (auto split: if_splits)

lemma key_notin: "k r \<notin> k ` set t \<Longrightarrow> \<forall>r'\<in>set t. k r' \<noteq> k r"
  by (metis imageI)

lemma tab_view_row: "distinct (map k t) \<Longrightarrow> r \<in> set t \<Longrightarrow> tab_view k v t (k r) = Some (v r)"
  by (induction t) (auto dest: key_notin)

lemma tab_view_append: "tab_view k v (t @ u) = tab_view k v u ++ tab_view k v t"
  by (simp add: tab_view_def)

lemma tab_view_insert: "\<forall>r'\<in>set t. k r' \<noteq> k r \<Longrightarrow> tab_view k v (t @ [r]) = (tab_view k v t)(k r \<mapsto> v r)"
proof -
  assume "\<forall>r'\<in>set t. k r' \<noteq> k r"
  then have "tab_view k v t (k r) = None" by (simp add: tab_view_None)
  then show ?thesis by (auto simp: tab_view_append map_add_def tab_view_def [of k v "[r]"] fun_eq_iff split: option.splits)
qed

lemma tab_view_update:
  assumes "\<And>r. r \<in> set t \<Longrightarrow> p r = P (k r) (v r)" "\<And>r. p r \<Longrightarrow> k (f r) = k r" "\<And>r. p r \<Longrightarrow> v (f r) = g (v r)"
  shows "tab_view k v (sql_update p f t) = (\<lambda>x. map_option (\<lambda>y. if P x y then g y else y) (tab_view k v t x))"
  using assms(1)
proof (induction t)
  case (Cons r t)
  then have "tab_view k v (sql_update p f t) = (\<lambda>x. map_option (\<lambda>y. if P x y then g y else y) (tab_view k v t x))" by simp
  then show ?case using Cons.prems [of r] assms(2,3) by (auto simp: tab_view_def)
qed simp

lemma tab_view_update_same:
  assumes "\<And>r. p r \<Longrightarrow> k (f r) = k r" "\<And>r. p r \<Longrightarrow> v (f r) = v r"
  shows "tab_view k v (sql_update p f t) = tab_view k v t"
  using assms by (induction t) (auto simp: tab_view_def)

lemma tab_view_delete:
  assumes "distinct (map k t)"
  shows "tab_view k v (sql_delete (\<lambda>r. k r = x \<and> q r) t) =
     (if \<exists>r\<in>set t. k r = x \<and> q r then (tab_view k v t)(x := None) else tab_view k v t)"
  using assms
proof (induction t)
  case (Cons r t)
  have no: "\<forall>r'\<in>set t. k r' \<noteq> k r" using Cons.prems by (intro key_notin) simp
  show ?case
  proof (cases "k r = x \<and> q r")
    case True
    then have "sql_delete (\<lambda>r. k r = x \<and> q r) t = t" using no by (auto simp: sql_delete_def filter_id_conv)
    moreover have "tab_view k v t x = None" using no True by (auto simp: tab_view_None)
    ultimately show ?thesis using True by (auto simp: tab_view_def sql_delete_def fun_eq_iff)
  next
    case False
    have "sql_delete (\<lambda>r. k r = x \<and> q r) (r # t) = r # sql_delete (\<lambda>r. k r = x \<and> q r) t"
      using False by (simp add: sql_delete_def)
    moreover have "k r \<noteq> x" if "r' \<in> set t" "k r' = x" for r' using that no by blast
    moreover have "tab_view k v (sql_delete (\<lambda>r. k r = x \<and> q r) t) =
        (if \<exists>r\<in>set t. k r = x \<and> q r then (tab_view k v t)(x := None) else tab_view k v t)"
      using Cons by simp
    ultimately show ?thesis using False by (auto simp: fun_upd_twist)
  qed
qed (simp add: sql_delete_def)

text \<open>An update of the one row with a key.\<close>

lemma tab_view_update_row:
  assumes "distinct (map k t)" "r \<in> set t" "p r" "\<And>r'. p r' \<Longrightarrow> k r' = k r" "\<And>r. p r \<Longrightarrow> k (f r) = k r"
  shows "tab_view k v (sql_update p f t) = (tab_view k v t)(k r \<mapsto> v (f r))"
  using assms
proof (induction t)
  case (Cons r' t)
  show ?case
  proof (cases "r' = r")
    case True
    have "\<forall>x\<in>set t. k x \<noteq> k r" using Cons.prems(1) True by (intro key_notin) simp
    then have "\<forall>x\<in>set t. \<not> p x" using Cons.prems(4) by blast
    then have "sql_update p f t = t" by (rule sql_update_none)
    then show ?thesis using True Cons.prems(3,5) by (auto simp: tab_view_def fun_eq_iff)
  next
    case False
    then have r: "r \<in> set t" using Cons.prems(2) by simp
    have kr: "k r' \<noteq> k r" using imageI [OF r, of k] Cons.prems(1) by auto
    then have "\<not> p r'" using Cons.prems(4) by metis
    moreover have "tab_view k v (sql_update p f t) = (tab_view k v t)(k r \<mapsto> v (f r))"
      by (rule Cons.IH [OF _ r Cons.prems(3-5)]) (use Cons.prems(1) in simp)
    ultimately show ?thesis using kr by (simp add: fun_eq_iff)
  qed
next
  case Nil
  from Nil.prems(2) show ?case by simp
qed

lemma distinct_sql_update:
  "(\<And>r. p r \<Longrightarrow> k (f r) = k r) \<Longrightarrow> distinct (map k (sql_update p f t)) = distinct (map k t)"
  by (simp add: map_sql_update)

lemma distinct_sql_delete: "distinct (map k t) \<Longrightarrow> distinct (map k (sql_delete p t))"
  by (simp add: sql_delete_def distinct_map_filter)

section \<open>Callers' obligations and the step relation\<close>

text \<open>The in-memory attempt a caller passes describes its row.\<close>

definition matches :: "attempt_rec \<Rightarrow> attempt \<Rightarrow> bool" where
  "matches r a = (ar_id r = at_id a \<and> att_key r = key_of a \<and> ar_purpose r = at_purpose a \<and> rec_owner r = at_owner a)"

definition faithful :: "attempt \<Rightarrow> db \<Rightarrow> bool" where
  "faithful a d = (\<forall>r\<in>set (db_attempts d). ar_id r = at_id a \<longrightarrow> matches r a)"

text \<open>A cancel is bound as such; jobs send job transactions and top-ups send top-ups.\<close>

definition typed :: "attempt \<Rightarrow> bind_kind \<Rightarrow> bool" where
  "typed a kind = ((kind = Cancel) = (at_purpose a = PCancel)
     \<and> (at_purpose a = PCancel \<or> (case at_owner a of OJob i \<Rightarrow> at_purpose a = PJob | OTopup i \<Rightarrow> at_purpose a = PTopup)))"

text \<open>A further attempt is bound only while an earlier one of the same owner is out at that nonce.\<close>

definition has_live_sibling :: "attempt \<Rightarrow> db \<Rightarrow> bool" where
  "has_live_sibling a d = (\<exists>r\<in>set (db_attempts d). att_key r = key_of a \<and> rec_owner r = at_owner a \<and> ar_status r = ABroadcast)"

definition has_pair :: "attempt \<Rightarrow> db \<Rightarrow> bool" where
  "has_pair a d = (\<exists>p\<in>set (db_pairs d). pair_key_rec p = (i64_of_u64 (at_chain_id a), at_signer a))"

definition may_bind :: "attempt \<Rightarrow> bind_kind \<Rightarrow> db \<Rightarrow> bool" where
  "may_bind a kind d = (typed a kind \<and> has_pair a d \<and> unat (at_nonce a) < 2 ^ 63 \<and> (kind \<noteq> First \<longrightarrow> has_live_sibling a d))"

text \<open>A binding is voided only while the attempt is still recorded as out, at a nonce that fits the column.\<close>

definition may_void :: "attempt \<Rightarrow> db \<Rightarrow> bool" where
  "may_void a d = (unat (at_nonce a) < 2 ^ 63 \<and> (\<exists>r\<in>set (db_attempts d). matches r a \<and> ar_status r = ABroadcast))"

inductive store_step :: "db \<Rightarrow> db \<Rightarrow> bool" where
  lease: "bump_epoch d = (d', e) \<Longrightarrow> store_step d d'"
| ingest: "insert_jobs now jobs d = (d', out) \<Longrightarrow> store_step d d'"
| requeue: "requeue_front clock i d = Ok (d', n) \<Longrightarrow> store_step d d'"
| fail: "fail_job now ev i [Queued] failure message revert d = Ok (d', b) \<Longrightarrow> store_step d d'"
| cancel: "cancel_queued now ev i d = Ok (d', b) \<Longrightarrow> store_step d d'"
| topup: "create_topup now i chain treasury signer amount d = Ok (d', j) \<Longrightarrow> store_step d d'"
| topup_failed: "store_step d (fail_topup now i err d)"
| topups_unbound: "fail_unbound_topups now chain d = (d', n) \<Longrightarrow> store_step d d'"
| signer: "store_step d (register_signer now address key_ref role d)"
| pair: "ensure_pair now chain signer role d = (d', pr) \<Longrightarrow> store_step d d'"
| pause: "store_step d (record_pause now chain signer pz manual d)"
| dead: "dead_letter now i kind pl err d = Ok d' \<Longrightarrow> store_step d d'"
| bind: "bind_attempt now epoch a kind d = Ok d' \<Longrightarrow> may_bind a kind d \<Longrightarrow> store_step d d'"
| include_tx: "settle_inclusion now ev1 ev2 a inc confirm_now re d = Ok (d', s) \<Longrightarrow> faithful a d \<Longrightarrow> store_step d d'"
| confirm_tx: "settle_confirmation now ev a d = Ok (d', s) \<Longrightarrow> faithful a d \<Longrightarrow> store_step d d'"
| move_block: "faithful a d \<Longrightarrow> store_step d (update_inclusion_block now a bn bh rc d)"
| demote_tx: "demote_inclusion now a d = (d', s) \<Longrightarrow> faithful a d \<Longrightarrow> store_step d d'"
| void_tx: "void_binding now clock ev epoch a mode disp d = Ok d' \<Longrightarrow> may_void a d \<Longrightarrow> store_step d d'"
| claim: "claim_due_deliveries now limit lease_secs d = (d', out) \<Longrightarrow> store_step d d'"
| delivered: "store_step d (mark_delivered now i code d)"
| undelivered: "store_step d (mark_delivery_failed now i code err retry d)"
| defer_ev: "store_step d (defer_delivery now i us d)"
| redeliver_ev: "redeliver now i d = (d', b) \<Longrightarrow> store_step d d'"

inductive store_reach :: "db \<Rightarrow> bool" where
  init: "store_reach empty_db"
| step: "store_reach d \<Longrightarrow> store_step d d' \<Longrightarrow> store_reach d'"

end
