(* ===== verification/Store_Simulation.thy ===== *)
theory Store_Simulation
  imports Store_Refinement
begin

text \<open>
  The simulation: every transaction of the store keeps the declared keys and is a sequence of protocol
  steps on the abstraction (\<open>store_step_sim\<close>), so every reachable database satisfies the invariant of
  the protocol (\<open>store_reach_inv\<close>).
\<close>

section \<open>Effects on the abstraction\<close>

lemma tab_view_move:
  assumes "\<And>r. k (f r) = k r" "\<And>r. Q (v r) \<Longrightarrow> v (f r) = g (v r)"
  shows "tab_view k v (sql_update (\<lambda>r. k r = i \<and> Q (v r)) f t) =
     (case tab_view k v t i of Some y \<Rightarrow> if Q y then (tab_view k v t)(i \<mapsto> g y) else tab_view k v t | None \<Rightarrow> tab_view k v t)"
proof -
  have "tab_view k v (sql_update (\<lambda>r. k r = i \<and> Q (v r)) f t)
      = (\<lambda>x. map_option (\<lambda>y. if x = i \<and> Q y then g y else y) (tab_view k v t x))"
    by (rule tab_view_update) (use assms in auto)
  moreover have "map_option (\<lambda>y. if x = i \<and> Q y then g y else y) (tab_view k v t x) =
      (case tab_view k v t i of Some y \<Rightarrow> if Q y then (tab_view k v t)(i \<mapsto> g y) else tab_view k v t | None \<Rightarrow> tab_view k v t) x" for x
    by (cases "x = i"; cases "tab_view k v t x"; cases "tab_view k v t i") simp_all
  ultimately show ?thesis by (simp add: fun_eq_iff)
qed

lemma abs_simps [simp]:
  "p_owner (protocol_of d) = abs_owner d" "p_att (protocol_of d) = tab_view ar_id att_of (db_attempts d)"
  "p_slot (protocol_of d) = tab_view slot_key slot_owner_of (db_slots d)"
  by (simp_all add: protocol_of_def)

lemma abs_owner_simps [simp]:
  "abs_owner d (OJob i) = tab_view jr_id jr_status (db_jobs d) i"
  "abs_owner d (OTopup i) = map_option topup_as_job (tab_view tu_id tu_status (db_topups d) i)"
  by (simp_all add: abs_owner_def)

lemma att_of_simps [simp]:
  "a_key (att_of r) = att_key r" "a_owner (att_of r) = rec_owner r" "a_status (att_of r) = ar_status r"
  "a_main (att_of r) = main_of (rec_owner r) (ar_purpose r)"
  by (simp_all add: att_of_def)

lemma att_of_new:
  "att_of (new_attempt_rec now a) = \<lparr>a_key = key_of a, a_owner = at_owner a,
     a_main = main_of (at_owner a) (at_purpose a), a_status = ABroadcast\<rparr>"
  by (simp add: att_of_def new_attempt_rec_def rec_owner_def att_key_def key_of_def split: slot_owner.splits)

lemma slot_owner_of_new: "slot_owner_of \<lparr>sl_chain_id = c, sl_signer = s, sl_nonce = n,
    sl_owner_kind = owner_kind ow, sl_owner_id = owner_id ow, sl_created_at = t\<rparr> = ow"
  by (cases ow) (simp_all add: slot_owner_of_def)

lemma owner_eqI: "(\<And>i. f (OJob i) = g (OJob i)) \<Longrightarrow> (\<And>i. f (OTopup i) = g (OTopup i)) \<Longrightarrow> f = g"
  by (metis (no_types) ext slot_owner.exhaust)

lemma abs_owner_job:
  "tab_view jr_id jr_status (db_jobs d') = (tab_view jr_id jr_status (db_jobs d))(i \<mapsto> st) \<Longrightarrow>
   db_topups d' = db_topups d \<Longrightarrow> abs_owner d' = (abs_owner d)(OJob i \<mapsto> st)"
  by (rule owner_eqI) simp_all

lemma abs_owner_topup:
  "tab_view tu_id tu_status (db_topups d') = (tab_view tu_id tu_status (db_topups d))(i \<mapsto> st) \<Longrightarrow>
   db_jobs d' = db_jobs d \<Longrightarrow> abs_owner d' = (abs_owner d)(OTopup i \<mapsto> topup_as_job st)"
  by (rule owner_eqI) simp_all

lemma abs_owner_same:
  "tab_view jr_id jr_status (db_jobs d') = tab_view jr_id jr_status (db_jobs d) \<Longrightarrow>
   tab_view tu_id tu_status (db_topups d') = tab_view tu_id tu_status (db_topups d) \<Longrightarrow> abs_owner d' = abs_owner d"
  by (rule owner_eqI) simp_all

lemma proto_eqI: "p_owner s = p_owner s' \<Longrightarrow> p_att s = p_att s' \<Longrightarrow> p_slot s = p_slot s' \<Longrightarrow> s = (s' :: proto)"
  by (cases s; cases s') simp

text \<open>What an announced state change does, when there is a row and when there is none.\<close>

lemma announceE:
  assumes "announce now ev_id p f ev re bkt d = Ok (d', found)"
  obtains (none) "find p (db_jobs d) = None" "d' = d" "\<not> found"
  | (one) r w where "find p (db_jobs d) = Some r" "found"
      "enqueue now ev_id (job_row.truncate (f r)) ev (jc_webhook_seq (f r)) re (db_deliveries d) = Ok w"
      "db_jobs d' = sql_update p f (db_jobs d)" "db_deliveries d' = w" "db_topups d' = db_topups d"
      "db_attempts d' = db_attempts d" "db_slots d' = db_slots d" "db_pairs d' = db_pairs d" "db_gas d' = db_gas d"
      "db_epoch d' = db_epoch d" "db_next_seq d' = db_next_seq d"
proof (cases "find p (db_jobs d)")
  case None
  with assms show thesis by (intro none) (auto simp: announce_def)
next
  case (Some r)
  with assms obtain w where
    w: "enqueue now ev_id (job_row.truncate (f r)) ev (jc_webhook_seq (f r)) re (db_deliveries d) = Ok w"
    by (auto simp: announce_def Let_def and_then_eq_Ok)
  with assms Some show thesis by (intro one [OF Some _ w]) (auto simp: announce_def Let_def)
qed

lemma find_ex: "find p t = Some r \<Longrightarrow> r \<in> set t \<and> p r"
  by (metis find_Some_iff nth_mem)

text \<open>An announced change of one job, seen from the protocol.\<close>

lemma announce_job:
  assumes "announce now ev_id (\<lambda>r. jr_id r = i \<and> jr_status r \<in> S) f ev re bkt d = Ok (d', found)"
    and f: "\<And>r. jr_id (f r) = jr_id r" "\<And>r. jr_status (f r) = st"
    and k: "distinct (map jr_id (db_jobs d))"
    and st: "abs_owner d (OJob i) = Some st0" "st0 \<in> S"
  shows "found \<and> abs_owner d' = (abs_owner d)(OJob i \<mapsto> st)"
  using assms(1)
proof (cases rule: announceE)
  case none
  from st(1) tab_view_Some_ex obtain r where "r \<in> set (db_jobs d)" "jr_id r = i" "jr_status r = st0"
    by (metis abs_owner_simps(1))
  with none(1) st(2) show ?thesis by (auto simp: find_None_iff)
next
  case (one r w)
  have "tab_view jr_id jr_status (db_jobs d') = (tab_view jr_id jr_status (db_jobs d))(i \<mapsto> st)"
    using st f unfolding one(4) by (subst tab_view_move [where Q = "\<lambda>y. y \<in> S" and g = "\<lambda>_. st"]) auto
  then show ?thesis using one(2,6) by (simp add: abs_owner_job)
qed

lemma announce_keys:
  assumes "announce now ev_id p f ev re bkt d = Ok (d', found)" "keys_ok d" "\<And>r. jr_id (f r) = jr_id r"
  shows "keys_ok d'"
  using assms(1)
proof (cases rule: announceE)
  case (one r w)
  have "distinct (map wd_id (db_deliveries d))" using assms(2) by (simp add: keys_ok_def)
  then have "distinct (map wd_id w)" by (rule enqueue_distinct [OF one(3)])
  with one(4-10) assms(2,3) show ?thesis by (simp add: keys_ok_def distinct_sql_update)
qed (use assms in simp)

section \<open>Ingest, queue and top-ups\<close>

lemma abs_frame:
  "db_jobs d' = db_jobs d \<Longrightarrow> db_topups d' = db_topups d \<Longrightarrow> db_attempts d' = db_attempts d \<Longrightarrow>
   db_slots d' = db_slots d \<Longrightarrow> protocol_of d' = protocol_of d"
  by (rule proto_eqI) (auto intro: abs_owner_same)

lemma insert_rows_sim:
  assumes "insert_rows now sq js t = Ok (t', sq', ids)" "distinct (map jr_id t)"
  shows "distinct (map jr_id t') \<and> (\<forall>d. db_jobs d = t \<longrightarrow> pstep\<^sup>*\<^sup>* (protocol_of d) (protocol_of (d\<lparr>db_jobs := t'\<rparr>)))"
  using assms
proof (induction now sq js t arbitrary: ids rule: insert_rows.induct)
  case (1 now sq t)
  have "protocol_of (d\<lparr>db_jobs := t\<rparr>) = protocol_of d" if "db_jobs d = t" for d
    by (rule abs_frame) (simp_all add: that)
  with 1 show ?case by simp
next
  case (2 now sq j js t)
  let ?r = "new_job_rec now sq j"
  have id: "jr_id ?r = nj_id j" "jr_status ?r = Queued" by (simp_all add: new_job_rec_def Let_def)
  show ?case
  proof (cases "key_taken (nj_idempotency_key j) t")
    case True
    with 2 show ?thesis by simp
  next
    case False
    with "2.prems"(1) have fresh: "\<forall>r\<in>set t. jr_id r \<noteq> jr_id ?r" by (auto simp: id split: if_splits)
    from False "2.prems"(1) fresh obtain ids' where
      rest: "insert_rows now (sq + 1) js (t @ [?r]) = Ok (t', sq', ids')"
      by (auto simp: id and_then_eq_Ok split: if_splits)
    have dist: "distinct (map jr_id (t @ [?r]))" using fresh "2.prems"(2) by auto
    have "\<not> (\<exists>r\<in>set t. jr_id r = nj_id j)" using fresh by (simp add: id)
    from "2.IH"(2) [OF False this rest dist] have
      IH: "distinct (map jr_id t')" "\<And>d. db_jobs d = t @ [?r] \<Longrightarrow> pstep\<^sup>*\<^sup>* (protocol_of d) (protocol_of (d\<lparr>db_jobs := t'\<rparr>))" by auto
    have "pstep\<^sup>*\<^sup>* (protocol_of d) (protocol_of (d\<lparr>db_jobs := t'\<rparr>))" if d: "db_jobs d = t" for d
    proof -
      let ?d = "d\<lparr>db_jobs := t @ [?r]\<rparr>"
      have "abs_owner ?d = (abs_owner d)(OJob (nj_id j) \<mapsto> Queued)"
        using tab_view_insert [OF fresh, of jr_status] d by (intro abs_owner_job) (simp_all add: id)
      then have "protocol_of ?d = (protocol_of d)\<lparr>p_owner := (p_owner (protocol_of d))(OJob (nj_id j) \<mapsto> Queued)\<rparr>"
        by (intro proto_eqI) simp_all
      moreover have "p_owner (protocol_of d) (OJob (nj_id j)) = None"
        using fresh d by (auto simp: tab_view_None id)
      ultimately have "pstep (protocol_of d) (protocol_of ?d)" using pstep.submit by metis
      moreover have "pstep\<^sup>*\<^sup>* (protocol_of ?d) (protocol_of (?d\<lparr>db_jobs := t'\<rparr>))" by (rule IH(2)) simp
      ultimately show ?thesis by (simp add: converse_rtranclp_into_rtranclp)
    qed
    with IH(1) show ?thesis by blast
  qed
qed

lemma sim_ingest:
  assumes "insert_jobs now jobs d = (d', out)" "keys_ok d"
  shows "pstep\<^sup>*\<^sup>* (protocol_of d) (protocol_of d') \<and> keys_ok d'"
proof (cases "insert_rows now (db_next_seq d) jobs (db_jobs d)")
  case (Inl e)
  with assms show ?thesis by (auto simp: insert_jobs_def split: if_splits)
next
  case (Inr x)
  obtain t sq ids where x: "x = (t, sq, ids)" by (cases x)
  from insert_rows_sim [OF Inr [unfolded x]] assms(2)
  have *: "distinct (map jr_id t)" "pstep\<^sup>*\<^sup>* (protocol_of d) (protocol_of (d\<lparr>db_jobs := t\<rparr>))" by (auto simp: keys_ok_def)
  have "d' = d \<or> d' = d\<lparr>db_jobs := t, db_next_seq := sq\<rparr>"
    using assms(1) Inr x by (auto simp: insert_jobs_def split: if_splits)
  moreover have "protocol_of (d\<lparr>db_jobs := t, db_next_seq := sq\<rparr>) = protocol_of (d\<lparr>db_jobs := t\<rparr>)" by (rule abs_frame) simp_all
  ultimately show ?thesis using * assms(2) by (auto simp: keys_ok_def)
qed

lemma sim_requeue:
  assumes "requeue_front clock i d = Ok (d', n)" "keys_ok d"
  shows "protocol_of d' = protocol_of d \<and> keys_ok d'"
proof -
  from assms(1) have d': "d' = d\<lparr>db_jobs := sql_update (\<lambda>r. jr_id r = i \<and> jr_status r = Queued)
      (\<lambda>r. r\<lparr>jc_requeue_rank := - clock, jc_requeue_count := jc_requeue_count r + 1\<rparr>) (db_jobs d)\<rparr>"
    by (auto simp: requeue_front_def Let_def split: option.splits)
  have "abs_owner d' = abs_owner d"
    unfolding d' by (rule abs_owner_same) (simp_all add: tab_view_update_same)
  then show ?thesis using assms(2) unfolding d' by (auto intro!: proto_eqI simp: keys_ok_def distinct_sql_update)
qed

lemma sim_fail:
  assumes "fail_job now ev i [Queued] failure message revert d = Ok (d', b)" "keys_ok d"
  shows "pstep\<^sup>*\<^sup>* (protocol_of d) (protocol_of d') \<and> keys_ok d'"
proof -
  have row: "jr_id (failed_row now failure message revert r) = jr_id r"
    "jr_status (failed_row now failure message revert r) = Failed" for r by (simp_all add: failed_row_def)
  have an: "announce now ev (\<lambda>r. jr_id r = i \<and> jr_status r \<in> {Queued}) (failed_row now failure message revert)
      WFailed False (\<lambda>r. Some BFailed) d = Ok (d', b)" using assms(1) by (simp add: fail_job_def)
  have keys: "keys_ok d'" by (rule announce_keys [OF an assms(2) row(1)])
  from an show ?thesis
  proof (cases rule: announceE)
    case (one r w)
    from find_ex [OF one(1)] have r: "r \<in> set (db_jobs d)" "jr_id r = i" "jr_status r = Queued" by auto
    have q: "abs_owner d (OJob i) = Some Queued"
      using tab_view_row [of jr_id "db_jobs d" r jr_status] r assms(2) by (simp add: keys_ok_def)
    have "abs_owner d' = (abs_owner d)(OJob i \<mapsto> Failed)"
      using announce_job [OF an row _ q] assms(2) by (simp add: keys_ok_def)
    then have "protocol_of d' = (protocol_of d)\<lparr>p_owner := (p_owner (protocol_of d))(OJob i \<mapsto> Failed)\<rparr>"
      using one(7,8) by (intro proto_eqI) simp_all
    then have "pstep (protocol_of d) (protocol_of d')" using pstep.withdraw [of "protocol_of d" "OJob i"] q by simp
    with keys show ?thesis by blast
  qed (use keys in simp)
qed

lemma sim_topup:
  assumes "create_topup now i chain treasury signer amount d = Ok (d', j)" "keys_ok d"
  shows "pstep (protocol_of d) (protocol_of d') \<and> keys_ok d'"
proof -
  let ?t = "\<lparr>tu_id = i, tu_chain_id = i64_of_u64 chain, tu_treasury = treasury, tu_signer = signer, tu_amount = uint amount,
     tu_status = TRequested, tu_error = None, tu_created_at = now, tu_updated_at = now\<rparr>"
  from assms(1) have fresh: "\<forall>t\<in>set (db_topups d). tu_id t \<noteq> tu_id ?t"
    and d': "d' = d\<lparr>db_topups := db_topups d @ [?t]\<rparr>" by (auto simp: create_topup_def split: if_splits)
  have "abs_owner d' = (abs_owner d)(OTopup i \<mapsto> topup_as_job TRequested)"
    using tab_view_insert [OF fresh, of tu_status] unfolding d' by (intro abs_owner_topup) simp_all
  then have "protocol_of d' = (protocol_of d)\<lparr>p_owner := (p_owner (protocol_of d))(OTopup i \<mapsto> Queued)\<rparr>"
    unfolding d' by (intro proto_eqI) simp_all
  moreover have "p_owner (protocol_of d) (OTopup i) = None" using fresh by (auto simp: tab_view_None)
  ultimately have "pstep (protocol_of d) (protocol_of d')" using pstep.submit by metis
  moreover have "keys_ok d'" using assms(2) fresh unfolding d' by (auto simp: keys_ok_def)
  ultimately show ?thesis by blast
qed

text \<open>Any set of requested top-ups can be withdrawn, one after the other.\<close>

lemma withdraw_many:
  assumes "\<forall>ow\<in>set ows. p_owner s ow = Some Queued" "distinct ows"
  shows "pstep\<^sup>*\<^sup>* s (s\<lparr>p_owner := (\<lambda>ow. if ow \<in> set ows then Some Failed else p_owner s ow)\<rparr>)"
  using assms
proof (induction ows arbitrary: s)
  case Nil
  then show ?case by simp
next
  case (Cons ow ows)
  let ?s = "s\<lparr>p_owner := (p_owner s)(ow \<mapsto> Failed)\<rparr>"
  have "pstep s ?s" using Cons.prems by (intro pstep.withdraw) simp
  moreover have "pstep\<^sup>*\<^sup>* ?s (?s\<lparr>p_owner := (\<lambda>o'. if o' \<in> set ows then Some Failed else p_owner ?s o')\<rparr>)"
    using Cons.prems by (intro Cons.IH) auto
  moreover have "?s\<lparr>p_owner := (\<lambda>o'. if o' \<in> set ows then Some Failed else p_owner ?s o')\<rparr>
      = s\<lparr>p_owner := (\<lambda>o'. if o' \<in> set (ow # ows) then Some Failed else p_owner s o')\<rparr>"
    by (auto intro!: proto_eqI simp: fun_eq_iff)
  ultimately show ?case by (metis converse_rtranclp_into_rtranclp)
qed

lemma sim_withdraw_topups:
  assumes keys: "keys_ok d"
    and f: "\<And>t. tu_id (f t) = tu_id t" "\<And>t. tu_status (f t) = TFailed"
    and d': "d' = d\<lparr>db_topups := sql_update (\<lambda>t. q t \<and> tu_status t = TRequested) f (db_topups d)\<rparr>"
  shows "pstep\<^sup>*\<^sup>* (protocol_of d) (protocol_of d') \<and> keys_ok d'"
proof -
  let ?ts = "filter (\<lambda>t. q t \<and> tu_status t = TRequested) (db_topups d)"
  let ?ows = "map (\<lambda>t. OTopup (tu_id t)) ?ts"
  have dist: "distinct (map tu_id (db_topups d))" using keys by (simp add: keys_ok_def)
  have st: "tab_view tu_id tu_status (db_topups d) (tu_id t) = Some (tu_status t)" if "t \<in> set (db_topups d)" for t
    using tab_view_row [OF dist that] .
  have "distinct ?ows"
    using dist by (simp add: distinct_map inj_on_def)
  moreover have "\<forall>ow\<in>set ?ows. p_owner (protocol_of d) ow = Some Queued" using st by auto
  ultimately have "pstep\<^sup>*\<^sup>* (protocol_of d) ((protocol_of d)\<lparr>p_owner := (\<lambda>ow. if ow \<in> set ?ows then Some Failed else p_owner (protocol_of d) ow)\<rparr>)"
    by (intro withdraw_many)
  moreover have "abs_owner d' = (\<lambda>ow. if ow \<in> set ?ows then Some Failed else abs_owner d ow)"
  proof (rule owner_eqI)
    fix i
    show "abs_owner d' (OTopup i) = (if OTopup i \<in> set ?ows then Some Failed else abs_owner d (OTopup i))"
    proof (cases "tab_view tu_id tu_status (db_topups d) i")
      case None
      then have "\<forall>t\<in>set (db_topups d). tu_id t \<noteq> i" by (simp add: tab_view_None)
      moreover from this have "tab_view tu_id tu_status (db_topups d') i = None"
        unfolding d' by (auto simp: tab_view_None set_sql_update f)
      ultimately show ?thesis using None by auto
    next
      case (Some y)
      then obtain t where t: "t \<in> set (db_topups d)" "tu_id t = i" "tu_status t = y" using tab_view_Some_ex by metis
      have mem: "OTopup i \<in> set ?ows \<longleftrightarrow> q t \<and> tu_status t = TRequested"
        using t dist by (auto dest: distinct_map_inj)
      let ?t = "if q t \<and> tu_status t = TRequested then f t else t"
      have "?t \<in> set (db_topups d')" unfolding d' using t(1) by (auto simp: set_sql_update)
      moreover have "distinct (map tu_id (db_topups d'))" unfolding d' using dist f by (simp add: distinct_sql_update)
      ultimately have "tab_view tu_id tu_status (db_topups d') (tu_id ?t) = Some (tu_status ?t)" by (rule tab_view_row [rotated])
      then show ?thesis using mem t Some f by (auto split: if_splits)
    qed
  qed (auto simp: d')
  then have "protocol_of d' = (protocol_of d)\<lparr>p_owner := (\<lambda>ow. if ow \<in> set ?ows then Some Failed else p_owner (protocol_of d) ow)\<rparr>"
    by (intro proto_eqI) (simp_all add: d' fun_eq_iff)
  ultimately show ?thesis using keys f by (simp add: d' keys_ok_def distinct_sql_update)
qed

section \<open>Binding\<close>

lemma sql_count_row: "sql_count p t = 1 \<Longrightarrow> \<exists>r\<in>set t. p r"
  by (rule sql_count_1_ex)

lemma insert_attemptE:
  assumes "insert_attempt now a d = Ok d'"
  shows "d' = d\<lparr>db_attempts := db_attempts d @ [new_attempt_rec now a]\<rparr>"
    and "\<forall>r\<in>set (db_attempts d). ar_id r \<noteq> at_id a"
  using assms by (auto simp: insert_attempt_def split: if_splits)

lemma tab_view_new_attempt:
  assumes "\<forall>r\<in>set t. ar_id r \<noteq> at_id a"
  shows "tab_view ar_id att_of (t @ [new_attempt_rec now a]) = (tab_view ar_id att_of t)(at_id a \<mapsto>
     \<lparr>a_key = key_of a, a_owner = at_owner a, a_main = main_of (at_owner a) (at_purpose a), a_status = ABroadcast\<rparr>)"
proof -
  have id: "ar_id (new_attempt_rec now a) = at_id a" by (simp add: new_attempt_rec_def)
  show ?thesis using tab_view_insert [of t ar_id "new_attempt_rec now a" att_of] assms by (simp add: id att_of_new)
qed

text \<open>The four fields a committed bind leaves, by parts of the statement sequence.\<close>

lemma bind_attemptE:
  assumes "bind_attempt now epoch a kind d = Ok d'"
  obtains d1 d2 d3 where "claim_slot now a kind d = Ok d1" "insert_attempt now a d1 = Ok d2"
    "move_owner now a kind d2 = (d3, 1)" "d' = raise_hwm now a d3" "db_epoch d = epoch"
proof -
  from assms have "db_epoch d = epoch" by (simp add: bind_attempt_def split: if_splits)
  with assms obtain d1 d2 where 1: "claim_slot now a kind d = Ok d1" "insert_attempt now a d1 = Ok d2"
    and 2: "(let (d3, moved) = move_owner now a kind d2 in if moved \<noteq> 1
       then Err (StateConflict (owner_kind (at_owner a)) (owner_id (at_owner a)) ''bindable'') else Ok (raise_hwm now a d3)) = Ok d'"
    by (auto simp: bind_attempt_def and_then_eq_Ok simp del: One_nat_def)
  obtain d3 n where 3: "move_owner now a kind d2 = (d3, n)" by (cases "move_owner now a kind d2")
  with 2 have "n = 1" "d' = raise_hwm now a d3" by (simp_all split: if_splits)
  with 1 3 \<open>db_epoch d = epoch\<close> show thesis by (intro that) simp_all
qed

lemma raise_hwm_fields [simp]:
  "db_jobs (raise_hwm now a d) = db_jobs d" "db_topups (raise_hwm now a d) = db_topups d"
  "db_attempts (raise_hwm now a d) = db_attempts d" "db_slots (raise_hwm now a d) = db_slots d"
  "db_gas (raise_hwm now a d) = db_gas d" "db_deliveries (raise_hwm now a d) = db_deliveries d"
  "db_epoch (raise_hwm now a d) = db_epoch d" "db_next_seq (raise_hwm now a d) = db_next_seq d"
  by (simp_all add: raise_hwm_def)

lemma move_owner_fields:
  assumes "move_owner now a kind d = (d', n)"
  shows "db_attempts d' = db_attempts d" "db_slots d' = db_slots d" "db_pairs d' = db_pairs d" "db_gas d' = db_gas d"
    "db_deliveries d' = db_deliveries d" "db_epoch d' = db_epoch d" "db_next_seq d' = db_next_seq d"
  using assms by (auto simp: move_owner_def Let_def split: slot_owner.splits bind_kind.splits if_splits)

lemma claim_slot_fields:
  assumes "claim_slot now a kind d = Ok d'"
  shows "db_attempts d' = db_attempts d" "db_jobs d' = db_jobs d" "db_topups d' = db_topups d" "db_pairs d' = db_pairs d"
    "db_gas d' = db_gas d" "db_deliveries d' = db_deliveries d" "db_epoch d' = db_epoch d" "db_next_seq d' = db_next_seq d"
  using assms by (auto simp: claim_slot_def Let_def split: if_splits option.splits)

lemma move_owner_keys: "move_owner now a kind d = (d', n) \<Longrightarrow> keys_ok d \<Longrightarrow> keys_ok d'"
  by (auto simp: move_owner_def Let_def keys_ok_def distinct_sql_update split: slot_owner.splits bind_kind.splits if_splits)

text \<open>How a bind moves its owner.\<close>

lemma move_owner_sim:
  assumes "move_owner now a kind d = (d', 1)" "keys_ok d" "typed a kind"
  shows "if kind = First then abs_owner d (at_owner a) = Some Queued \<and> abs_owner d' = (abs_owner d)(at_owner a \<mapsto> Sent)
     else abs_owner d (at_owner a) \<in> {Some Sent, Some Cancelling} \<and>
       abs_owner d' = (if main_of (at_owner a) (at_purpose a) then abs_owner d else (abs_owner d)(at_owner a \<mapsto> Cancelling))"
proof (cases "at_owner a")
  case (OJob i)
  have dist: "distinct (map jr_id (db_jobs d))" using assms(2) by (simp add: keys_ok_def)
  have row: "\<exists>r. tab_view jr_id jr_status (db_jobs d) i = Some (jr_status r) \<and> jr_id r = i \<and> q r"
    if "sql_count (\<lambda>r. jr_id r = i \<and> q r) (db_jobs d) = 1" for q
    using sql_count_1_ex [OF that] tab_view_row [OF dist, where v = jr_status] by auto
  show ?thesis
  proof (cases kind)
    case First
    with assms(1) OJob have d': "db_jobs d' = sql_update (\<lambda>r. jr_id r = i \<and> jr_status r = Queued)
        (\<lambda>r. r\<lparr>jr_status := Sent, jr_signer := Some (at_signer a), jr_nonce := Some (i64_of_u64 (at_nonce a)),
           jr_tx_hash := Some (at_tx_hash a), jr_sent_at := Some now\<rparr>) (db_jobs d)" "db_topups d' = db_topups d"
      and n: "sql_count (\<lambda>r. jr_id r = i \<and> jr_status r = Queued) (db_jobs d) = 1"
      by (auto simp: move_owner_def)
    from row [OF n] have q: "tab_view jr_id jr_status (db_jobs d) i = Some Queued" by auto
    have "tab_view jr_id jr_status (db_jobs d') = (tab_view jr_id jr_status (db_jobs d))(i \<mapsto> Sent)"
      unfolding d' using q by (subst tab_view_move [where Q = "\<lambda>y. y = Queued" and g = "\<lambda>_. Sent"]) auto
    then show ?thesis using q First OJob d'(2) by (simp add: abs_owner_job)
  next
    case Replacement
    with assms(1) OJob have d': "db_jobs d' = sql_update (\<lambda>r. jr_id r = i \<and> jr_status r \<in> {Sent, Cancelling})
        (\<lambda>r. r\<lparr>jr_tx_hash := Some (at_tx_hash a)\<rparr>) (db_jobs d)" "db_topups d' = db_topups d"
      and n: "sql_count (\<lambda>r. jr_id r = i \<and> jr_status r \<in> {Sent, Cancelling}) (db_jobs d) = 1"
      by (auto simp: move_owner_def)
    have "main_of (at_owner a) (at_purpose a)" using assms(3) Replacement OJob by (auto simp: typed_def main_of_def)
    moreover have "abs_owner d' = abs_owner d" by (rule abs_owner_same) (simp_all add: d' tab_view_update_same)
    moreover from row [OF n] have "tab_view jr_id jr_status (db_jobs d) i \<in> {Some Sent, Some Cancelling}" by auto
    ultimately show ?thesis using Replacement OJob by simp
  next
    case Cancel
    with assms(1) OJob have d': "db_jobs d' = sql_update (\<lambda>r. jr_id r = i \<and> jr_status r \<in> {Sent, Cancelling})
        (\<lambda>r. r\<lparr>jr_status := Cancelling\<rparr>) (db_jobs d)" "db_topups d' = db_topups d"
      and n: "sql_count (\<lambda>r. jr_id r = i \<and> jr_status r \<in> {Sent, Cancelling}) (db_jobs d) = 1"
      by (auto simp: move_owner_def)
    have "\<not> main_of (at_owner a) (at_purpose a)" using assms(3) Cancel OJob by (auto simp: typed_def main_of_def)
    moreover from row [OF n] have q: "tab_view jr_id jr_status (db_jobs d) i \<in> {Some Sent, Some Cancelling}" by auto
    moreover have "tab_view jr_id jr_status (db_jobs d') = (tab_view jr_id jr_status (db_jobs d))(i \<mapsto> Cancelling)"
      unfolding d' using q by (subst tab_view_move [where Q = "\<lambda>y. y \<in> {Sent, Cancelling}" and g = "\<lambda>_. Cancelling"]) auto
    ultimately show ?thesis using Cancel OJob d'(2) by (simp add: abs_owner_job)
  qed
next
  case (OTopup i)
  have dist: "distinct (map tu_id (db_topups d))" using assms(2) by (simp add: keys_ok_def)
  have row: "\<exists>r. tab_view tu_id tu_status (db_topups d) i = Some (tu_status r) \<and> q r"
    if "sql_count (\<lambda>r. tu_id r = i \<and> q r) (db_topups d) = 1" for q
    using sql_count_1_ex [OF that] tab_view_row [OF dist, where v = tu_status] by auto
  show ?thesis
  proof (cases "kind = First")
    case True
    with assms(1) OTopup have d': "db_topups d' = sql_update (\<lambda>t. tu_id t = i \<and> tu_status t = TRequested)
        (\<lambda>t. t\<lparr>tu_status := TSent, tu_updated_at := now\<rparr>) (db_topups d)" "db_jobs d' = db_jobs d"
      and n: "sql_count (\<lambda>t. tu_id t = i \<and> tu_status t = TRequested) (db_topups d) = 1"
      by (auto simp: move_owner_def)
    from row [OF n] have q: "tab_view tu_id tu_status (db_topups d) i = Some TRequested" by auto
    have "tab_view tu_id tu_status (db_topups d') = (tab_view tu_id tu_status (db_topups d))(i \<mapsto> TSent)"
      unfolding d' using q by (subst tab_view_move [where Q = "\<lambda>y. y = TRequested" and g = "\<lambda>_. TSent"]) auto
    then have "abs_owner d' = (abs_owner d)(OTopup i \<mapsto> topup_as_job TSent)" using d'(2) by (rule abs_owner_topup)
    then show ?thesis using q True OTopup by simp
  next
    case False
    with assms(1) OTopup have d': "db_topups d' = sql_update (\<lambda>t. tu_id t = i \<and> tu_status t = TSent)
        (\<lambda>t. t\<lparr>tu_updated_at := now\<rparr>) (db_topups d)" "db_jobs d' = db_jobs d"
      and n: "sql_count (\<lambda>t. tu_id t = i \<and> tu_status t = TSent) (db_topups d) = 1"
      by (auto simp: move_owner_def)
    have "main_of (at_owner a) (at_purpose a)" using OTopup by (simp add: main_of_def)
    moreover have "abs_owner d' = abs_owner d" by (rule abs_owner_same) (simp_all add: d' tab_view_update_same)
    moreover from row [OF n] have "tab_view tu_id tu_status (db_topups d) i = Some TSent" by auto
    ultimately show ?thesis using False OTopup by simp
  qed
qed

text \<open>What the compare-and-set does to the slots.\<close>

lemma claim_slot_sim:
  assumes "claim_slot now a kind d = Ok d'" "keys_ok d"
  shows "if kind = First then tab_view slot_key slot_owner_of (db_slots d) (key_of a) = None \<and>
      tab_view slot_key slot_owner_of (db_slots d') = (tab_view slot_key slot_owner_of (db_slots d))(key_of a \<mapsto> at_owner a)
    else d' = d"
    and "keys_ok d'"
proof -
  let ?s = "\<lparr>sl_chain_id = i64_of_u64 (at_chain_id a), sl_signer = at_signer a, sl_nonce = i64_of_u64 (at_nonce a),
     sl_owner_kind = owner_kind (at_owner a), sl_owner_id = owner_id (at_owner a), sl_created_at = now\<rparr>"
  have key: "slot_key ?s = key_of a" by (simp add: slot_key_def key_of_def)
  have first: "(\<forall>s\<in>set (db_slots d). slot_key s \<noteq> key_of a) \<and> d' = d\<lparr>db_slots := db_slots d @ [?s]\<rparr>" if "kind = First"
    using assms(1) that by (auto simp: claim_slot_def Let_def find_None_ball split: option.splits)
  have other: "d' = d" if "kind \<noteq> First" using assms(1) that by (auto simp: claim_slot_def Let_def split: if_splits)
  show "if kind = First then tab_view slot_key slot_owner_of (db_slots d) (key_of a) = None \<and>
      tab_view slot_key slot_owner_of (db_slots d') = (tab_view slot_key slot_owner_of (db_slots d))(key_of a \<mapsto> at_owner a) else d' = d"
    using first other tab_view_insert [of "db_slots d" slot_key ?s slot_owner_of] by (auto simp: key slot_owner_of_new tab_view_None)
  show "keys_ok d'"
  proof (cases "kind = First")
    case True
    with first assms(2) show ?thesis by (auto simp: keys_ok_def key)
  next
    case False
    with other assms(2) show ?thesis by simp
  qed
qed

lemma sim_bind:
  assumes "bind_attempt now epoch a kind d = Ok d'" "may_bind a kind d" "keys_ok d"
  shows "pstep (protocol_of d) (protocol_of d') \<and> keys_ok d'"
  using assms(1)
proof (rule bind_attemptE)
  fix d1 d2 d3
  assume c: "claim_slot now a kind d = Ok d1" and i: "insert_attempt now a d1 = Ok d2"
    and m: "move_owner now a kind d2 = (d3, 1)" and d': "d' = raise_hwm now a d3"
  note cs = claim_slot_sim [OF c assms(3)] and ia = insert_attemptE [OF i] and mo = move_owner_fields [OF m]
  have ty: "typed a kind" using assms(2) by (simp add: may_bind_def)
  have k2: "keys_ok d2" using cs(2) ia by (auto simp: keys_ok_def new_attempt_rec_def)
  have o2: "abs_owner d2 = abs_owner d" by (rule abs_owner_same) (simp_all add: ia(1) claim_slot_fields [OF c])
  have o3: "abs_owner d' = abs_owner d3" by (rule abs_owner_same) (simp_all add: d')
  note ms = move_owner_sim [OF m k2 ty, unfolded o2, folded o3]
  have fresh: "\<forall>r\<in>set (db_attempts d). ar_id r \<noteq> at_id a" using ia(2) claim_slot_fields [OF c] by simp
  have none: "p_att (protocol_of d) (at_id a) = None" using fresh by (simp add: tab_view_None)
  have att: "tab_view ar_id att_of (db_attempts d') = (tab_view ar_id att_of (db_attempts d))(at_id a \<mapsto>
     \<lparr>a_key = key_of a, a_owner = at_owner a, a_main = main_of (at_owner a) (at_purpose a), a_status = ABroadcast\<rparr>)"
    using tab_view_new_attempt [OF fresh] by (simp add: d' mo ia(1) claim_slot_fields [OF c])
  have slots: "db_slots d' = db_slots d1" by (simp add: d' mo ia(1))
  have "pstep (protocol_of d) (protocol_of d')"
  proof (cases "kind = First")
    case True
    have "main_of (at_owner a) (at_purpose a)"
      using ty True by (auto simp: typed_def main_of_def split: slot_owner.splits)
    then have "protocol_of d' = do_first (at_id a) (key_of a) (at_owner a) (protocol_of d)"
      using True cs(1) ms att slots by (intro proto_eqI) (simp_all add: do_first_def)
    then show ?thesis using pstep.first [of "protocol_of d" "at_owner a" "key_of a" "at_id a"] True cs(1) ms none by simp
  next
    case False
    then have "has_live_sibling a d" using assms(2) by (simp add: may_bind_def)
    then obtain r where r: "r \<in> set (db_attempts d)" "att_key r = key_of a" "rec_owner r = at_owner a" "ar_status r = ABroadcast"
      by (auto simp: has_live_sibling_def)
    have v: "p_att (protocol_of d) (ar_id r) = Some (att_of r)"
      using tab_view_row [of ar_id "db_attempts d" r att_of] r(1) assms(3) by (simp add: keys_ok_def)
    have "protocol_of d' = do_again (at_id a) (key_of a) (at_owner a) (main_of (at_owner a) (at_purpose a)) (protocol_of d)"
      using False cs(1) ms att slots by (intro proto_eqI) (simp_all add: do_again_def)
    then show ?thesis
      using pstep.again [OF v _ none, of "main_of (at_owner a) (at_purpose a)"] False ms r by simp
  qed
  moreover have "keys_ok d'" using move_owner_keys [OF m k2] by (simp add: d' keys_ok_def raise_hwm_def distinct_sql_update pair_key_rec_def)
  ultimately show ?thesis by blast
qed

section \<open>Settlement\<close>

lemma att_of_upd:
  "att_of (r\<lparr>ar_status := s\<rparr>) = set_status s (att_of r)" "att_of (r\<lparr>ar_raw_tx := b\<rparr>) = att_of r"
  "att_of (r\<lparr>ar_updated_at := u\<rparr>) = att_of r" "att_of (r\<lparr>ar_block_number := n\<rparr>) = att_of r"
  "att_of (r\<lparr>ar_block_hash := h\<rparr>) = att_of r" "att_of (r\<lparr>ar_gas_used := g\<rparr>) = att_of r"
  "att_of (r\<lparr>ar_fee_paid := f\<rparr>) = att_of r"
  by (simp_all add: att_of_def set_status_def att_key_def rec_owner_def split: option.splits)

lemma att_key_upd [simp]:
  "att_key (r\<lparr>ar_status := s\<rparr>) = att_key r" "att_key (r\<lparr>ar_raw_tx := b\<rparr>) = att_key r"
  "att_key (r\<lparr>ar_updated_at := u\<rparr>) = att_key r" "att_key (r\<lparr>ar_block_number := n\<rparr>) = att_key r"
  "att_key (r\<lparr>ar_block_hash := h\<rparr>) = att_key r" "att_key (r\<lparr>ar_gas_used := g\<rparr>) = att_key r"
  "att_key (r\<lparr>ar_fee_paid := f\<rparr>) = att_key r"
  by (simp_all add: att_key_def)

lemma tab_view_confirm_attempts:
  assumes "distinct (map ar_id t)" "r \<in> set t" "ar_id r = at_id a" "ar_status r = AIncluded"
  shows "tab_view ar_id att_of (confirm_attempts now a t) = (tab_view ar_id att_of t)(at_id a \<mapsto> set_status AConfirmed (att_of r))"
proof -
  have "tab_view ar_id att_of (confirm_attempts now a t) = tab_view ar_id att_of (sql_update (\<lambda>r. ar_id r = at_id a \<and> ar_status r = AIncluded)
      (\<lambda>r. r\<lparr>ar_status := AConfirmed, ar_raw_tx := None, ar_updated_at := now\<rparr>) t)"
    unfolding confirm_attempts_def by (rule tab_view_update_same) (simp_all add: att_of_upd)
  also have "\<dots> = (tab_view ar_id att_of t)(ar_id r \<mapsto> att_of (r\<lparr>ar_status := AConfirmed, ar_raw_tx := None, ar_updated_at := now\<rparr>))"
    by (rule tab_view_update_row [OF assms(1,2)]) (use assms in auto)
  finally show ?thesis by (simp add: att_of_upd assms(3))
qed

lemma tab_view_include_attempts:
  assumes "distinct (map ar_id t)" "r \<in> set t" "ar_id r = at_id a" "ar_status r = ABroadcast"
  shows "tab_view ar_id att_of (include_attempts now a inc t) =
     (sweep (key_of a) (\<lambda>i. i = at_id a) AReplaced (tab_view ar_id att_of t))(at_id a \<mapsto> set_status AIncluded (att_of r))"
proof -
  let ?f = "\<lambda>r. r\<lparr>ar_status := AIncluded, ar_block_number := Some (i64_of_u64 (inc_block_number inc)),
     ar_block_hash := Some (inc_block_hash inc), ar_gas_used := Some (uint (inc_gas_used inc)),
     ar_fee_paid := Some (uint (inc_fee_paid inc)), ar_updated_at := now\<rparr>"
  let ?t = "sql_update (\<lambda>r. ar_id r = at_id a \<and> ar_status r = ABroadcast) ?f t"
  have 1: "tab_view ar_id att_of ?t = (tab_view ar_id att_of t)(ar_id r \<mapsto> att_of (?f r))"
    by (rule tab_view_update_row [OF assms(1,2)]) (use assms in auto)
  have 2: "tab_view ar_id att_of (include_attempts now a inc t) = (\<lambda>x. map_option
      (\<lambda>y. if a_key y = key_of a \<and> x \<noteq> at_id a \<and> a_status y = ABroadcast then set_status AReplaced y else y) (tab_view ar_id att_of ?t x))"
    unfolding include_attempts_def by (rule tab_view_update) (simp_all add: att_of_upd)
  show ?thesis
  proof
    fix x
    show "tab_view ar_id att_of (include_attempts now a inc t) x =
      ((sweep (key_of a) (\<lambda>i. i = at_id a) AReplaced (tab_view ar_id att_of t))(at_id a \<mapsto> set_status AIncluded (att_of r))) x"
      unfolding 2 1 by (cases "x = at_id a"; cases "tab_view ar_id att_of t x") (simp_all add: sweep_def assms(3) att_of_upd)
  qed
qed

lemma keys_confirm_attempts: "distinct (map ar_id (confirm_attempts now a t)) = distinct (map ar_id t)"
  by (simp add: confirm_attempts_def distinct_sql_update)

lemma keys_include_attempts: "distinct (map ar_id (include_attempts now a inc t)) = distinct (map ar_id t)"
  by (simp add: include_attempts_def distinct_sql_update)

text \<open>A row that the caller's attempt describes, seen from the protocol.\<close>

lemma faithful_row:
  assumes "keys_ok d" "faithful a d" "r \<in> set (db_attempts d)" "ar_id r = at_id a"
  shows "p_att (protocol_of d) (at_id a) = Some (att_of r)" "att_key r = key_of a" "rec_owner r = at_owner a"
    "ar_purpose r = at_purpose a"
  using tab_view_row [of ar_id "db_attempts d" r att_of] assms by (auto simp: keys_ok_def faithful_def matches_def)

text \<open>The owner status of a top-up is never cancelling.\<close>

lemma topup_not_cancelling: "topup_as_job x \<noteq> Cancelling"
  by (cases x) simp_all

lemma topup_as_job_iff:
  "topup_as_job x = Sent \<longleftrightarrow> x = TSent" "topup_as_job x = Included \<longleftrightarrow> x = TIncluded" "topup_as_job x = Queued \<longleftrightarrow> x = TRequested"
  by (cases x; simp)+

lemma topup_status_of:
  "abs_owner d (OTopup i) = Some Sent \<Longrightarrow> tab_view tu_id tu_status (db_topups d) i = Some TSent"
  "abs_owner d (OTopup i) = Some Included \<Longrightarrow> tab_view tu_id tu_status (db_topups d) i = Some TIncluded"
  by (auto simp: topup_as_job_iff)

lemma topup_move:
  assumes "db_topups d' = sql_update (\<lambda>t. tu_id t = i \<and> tu_status t = frm) f (db_topups d)" "db_jobs d' = db_jobs d"
    "tab_view tu_id tu_status (db_topups d) i = Some frm"
    "\<And>t. tu_id (f t) = tu_id t" "\<And>t. tu_status (f t) = to"
  shows "abs_owner d' = (abs_owner d)(OTopup i \<mapsto> topup_as_job to)"
proof -
  have "tab_view tu_id tu_status (db_topups d') = (tab_view tu_id tu_status (db_topups d))(i \<mapsto> to)"
    unfolding assms(1) using assms(3-5) by (subst tab_view_move [where Q = "\<lambda>y. y = frm" and g = "\<lambda>_. to"]) auto
  then show ?thesis using assms(2) by (rule abs_owner_topup)
qed

lemma job_row_ids [simp]:
  "jr_id (confirmed_row now r) = jr_id r" "jr_status (confirmed_row now r) = Confirmed"
  "jr_id (failed_keep now fl ms r) = jr_id r" "jr_status (failed_keep now fl ms r) = Failed"
  "jr_id (included_row now inc r) = jr_id r" "jr_status (included_row now inc r) = Included"
  "jr_id (demoted_row r) = jr_id r" "jr_status (demoted_row r) = Sent"
  "jr_id (requeued_row clock r) = jr_id r" "jr_status (requeued_row clock r) = Queued"
  by (simp_all add: confirmed_row_def failed_keep_def failed_row_def included_row_def demoted_row_def requeued_row_def)

text \<open>The part of a confirmation after its gate.\<close>

definition confirm_owner :: "timestamp \<Rightarrow> uuid \<Rightarrow> attempt \<Rightarrow> db \<Rightarrow> (db \<times> bool, store_error) result" where
  "confirm_owner now ev_id a d1 =
     (case (at_owner a, at_purpose a) of
        (OJob i, PJob) \<Rightarrow> announce now ev_id (\<lambda>r. jr_id r = i \<and> jr_status r = Included) (confirmed_row now)
           WConfirmed False (\<lambda>r. Some (outcome_bucket r)) d1
      | (OJob i, _) \<Rightarrow> announce now ev_id (\<lambda>r. jr_id r = i \<and> jr_status r = Cancelling)
           (failed_keep now StuckCancelled cancel_message) WFailed False (\<lambda>r. Some BFailed) d1
      | (OTopup i, _) \<Rightarrow> Ok (d1\<lparr>db_topups := sql_update (\<lambda>t. tu_id t = i \<and> tu_status t = TIncluded)
           (\<lambda>t. t\<lparr>tu_status := TConfirmed, tu_updated_at := now\<rparr>) (db_topups d1)\<rparr>, True))"

lemma confirm_in_txE:
  assumes "confirm_in_tx now ev a d = Ok (d', s)"
  obtains (noop) "\<forall>r\<in>set (db_attempts d). \<not> (ar_id r = at_id a \<and> ar_status r = AIncluded) \<or> \<not> distinct (map ar_id (db_attempts d))"
      "d' = d" "s = Noop"
  | (gate) r found where "r \<in> set (db_attempts d)" "ar_id r = at_id a" "ar_status r = AIncluded"
      "confirm_owner now ev a (d\<lparr>db_attempts := confirm_attempts now a (db_attempts d)\<rparr>) = Ok (d', found)" "s = Applied"
proof (cases "sql_count (\<lambda>r. ar_id r = at_id a \<and> ar_status r = AIncluded) (db_attempts d) = 1")
  case False
  then have "\<forall>r\<in>set (db_attempts d). \<not> (ar_id r = at_id a \<and> ar_status r = AIncluded) \<or> \<not> distinct (map ar_id (db_attempts d))"
    using sql_count_key_ne_1 [of ar_id "db_attempts d" "at_id a" "\<lambda>r. ar_status r = AIncluded"] by blast
  moreover from False assms have "d' = d" "s = Noop" by (simp_all add: confirm_in_tx_def)
  ultimately show thesis by (rule noop)
next
  case True
  from sql_count_1_ex [OF True] obtain r where r: "r \<in> set (db_attempts d)" "ar_id r = at_id a" "ar_status r = AIncluded" by blast
  from True assms obtain found where
    "confirm_owner now ev a (d\<lparr>db_attempts := confirm_attempts now a (db_attempts d)\<rparr>) = Ok (d', found)" "s = Applied"
    by (auto simp: confirm_in_tx_def confirm_owner_def Let_def and_then_eq_Ok)
  with r show thesis by (rule gate)
qed

lemma confirm_owner_keys: "confirm_owner now ev a d = Ok (d', b) \<Longrightarrow> keys_ok d \<Longrightarrow> keys_ok d'"
  by (auto simp: confirm_owner_def keys_ok_def distinct_sql_update split: slot_owner.splits attempt_purpose.splits
      elim!: announce_keys [unfolded keys_ok_def])

lemma confirm_owner_fields:
  assumes "confirm_owner now ev a d = Ok (d', b)"
  shows "db_attempts d' = db_attempts d" "db_slots d' = db_slots d" "db_pairs d' = db_pairs d" "db_gas d' = db_gas d"
    "db_epoch d' = db_epoch d"
  using assms by (auto simp: confirm_owner_def split: slot_owner.splits attempt_purpose.splits elim!: announceE)

lemma confirm_owner_sim:
  assumes "confirm_owner now ev a d = Ok (d', b)" "keys_ok d"
    and st: "abs_owner d (at_owner a) = Some (if main_of (at_owner a) (at_purpose a) then Included else Cancelling)"
  shows "abs_owner d' = (abs_owner d)(at_owner a \<mapsto> (if main_of (at_owner a) (at_purpose a) then Confirmed else Failed))"
proof (cases "at_owner a")
  case (OJob i)
  have dist: "distinct (map jr_id (db_jobs d))" using assms(2) by (simp add: keys_ok_def)
  show ?thesis
  proof (cases "at_purpose a = PJob")
    case True
    from assms(1) OJob True have an: "announce now ev (\<lambda>r. jr_id r = i \<and> jr_status r \<in> {Included}) (confirmed_row now)
        WConfirmed False (\<lambda>r. Some (outcome_bucket r)) d = Ok (d', b)" by (simp add: confirm_owner_def)
    then show ?thesis using announce_job [OF an _ _ dist, where st = Confirmed and st0 = Included] st True OJob
      by (simp add: main_of_def)
  next
    case False
    from assms(1) OJob False have an: "announce now ev (\<lambda>r. jr_id r = i \<and> jr_status r \<in> {Cancelling})
        (failed_keep now StuckCancelled cancel_message) WFailed False (\<lambda>r. Some BFailed) d = Ok (d', b)"
      by (auto simp: confirm_owner_def split: attempt_purpose.splits)
    then show ?thesis using announce_job [OF an _ _ dist, where st = Failed and st0 = Cancelling] st False OJob
      by (simp add: main_of_def)
  qed
next
  case (OTopup i)
  from assms(1) OTopup have "db_topups d' = sql_update (\<lambda>t. tu_id t = i \<and> tu_status t = TIncluded)
      (\<lambda>t. t\<lparr>tu_status := TConfirmed, tu_updated_at := now\<rparr>) (db_topups d)" "db_jobs d' = db_jobs d"
    by (auto simp: confirm_owner_def)
  moreover have "tab_view tu_id tu_status (db_topups d) i = Some TIncluded"
    using st OTopup by (intro topup_status_of) (simp add: main_of_def)
  ultimately have "abs_owner d' = (abs_owner d)(OTopup i \<mapsto> topup_as_job TConfirmed)"
    by (rule topup_move) simp_all
  with OTopup show ?thesis by (simp add: main_of_def)
qed

lemma sim_confirm:
  assumes "confirm_in_tx now ev a d = Ok (d', s)" "faithful a d" "keys_ok d" "pinv (protocol_of d)"
  shows "pstep\<^sup>*\<^sup>* (protocol_of d) (protocol_of d') \<and> keys_ok d'"
  using assms(1)
proof (cases rule: confirm_in_txE)
  case noop
  with assms show ?thesis by simp
next
  case (gate r found)
  let ?d = "d\<lparr>db_attempts := confirm_attempts now a (db_attempts d)\<rparr>"
  note fr = faithful_row [OF assms(3,2) gate(1,2)]
  have kd: "keys_ok ?d" using assms(3) by (simp add: keys_ok_def keys_confirm_attempts)
  have own: "abs_owner ?d = abs_owner d" by (rule abs_owner_same) simp_all
  have "status_fits (protocol_of d)" "owned (protocol_of d)" using assms(4) by (simp_all add: pinv_def)
  then have "abs_owner d (at_owner a) = Some (if main_of (at_owner a) (at_purpose a) then Included else Cancelling)"
    using ownedD [OF _ fr(1)] fitsD [OF _ fr(1)] gate(3) fr(3,4) by (fastforce simp: fits_def split: if_splits)
  then have ow: "abs_owner d' = (abs_owner d)(at_owner a \<mapsto> (if main_of (at_owner a) (at_purpose a) then Confirmed else Failed))"
    using confirm_owner_sim [OF gate(4) kd] own by simp
  have "tab_view ar_id att_of (db_attempts d') = (tab_view ar_id att_of (db_attempts d))(at_id a \<mapsto> set_status AConfirmed (att_of r))"
    using tab_view_confirm_attempts [OF _ gate(1-3)] confirm_owner_fields(1) [OF gate(4)] assms(3) by (simp add: keys_ok_def)
  then have "protocol_of d' = do_confirm (at_id a) (att_of r) (protocol_of d)"
    using ow confirm_owner_fields(2) [OF gate(4)] fr by (intro proto_eqI) (simp_all add: do_confirm_def)
  then have "pstep (protocol_of d) (protocol_of d')" using pstep.confirm [OF fr(1)] gate(3) by simp
  with confirm_owner_keys [OF gate(4) kd] show ?thesis by blast
qed

text \<open>The part of an inclusion between its gate and its commit.\<close>

definition include_owner :: "timestamp \<Rightarrow> uuid \<Rightarrow> attempt \<Rightarrow> inclusion \<Rightarrow> bool \<Rightarrow> db \<Rightarrow> (db, store_error) result" where
  "include_owner now ev1 a inc re d1 =
     (case (at_owner a, at_purpose a) of
        (OJob i, PJob) \<Rightarrow>
           and_then (announce now ev1 (\<lambda>r. jr_id r = i \<and> jr_status r \<in> {Sent, Cancelling}) (included_row now inc)
                       WIncluded re (\<lambda>r. None) d1)
             (\<lambda>(d2, found). if found then Ok d2 else Err (StateConflict ''job'' i ''sent|cancelling''))
      | (OJob i, _) \<Rightarrow> Ok d1
      | (OTopup i, _) \<Rightarrow> Ok (d1\<lparr>db_topups := sql_update (\<lambda>t. tu_id t = i \<and> tu_status t = TSent)
           (\<lambda>t. t\<lparr>tu_status := TIncluded, tu_updated_at := now\<rparr>) (db_topups d1)\<rparr>))"

abbreviation gate_inclusion :: "timestamp \<Rightarrow> attempt \<Rightarrow> inclusion \<Rightarrow> db \<Rightarrow> db" where
  "gate_inclusion now a inc d \<equiv> d\<lparr>db_attempts := include_attempts now a inc (db_attempts d),
     db_gas := add_gas (at_chain_id a) (at_signer a) (at_purpose a) 1 (uint (inc_gas_used inc)) (uint (inc_fee_paid inc)) (db_gas d)\<rparr>"

lemma settle_inclusionE:
  assumes "settle_inclusion now ev1 ev2 a inc confirm_now re d = Ok (d', s)"
  obtains (noop) "sql_count (\<lambda>r. ar_id r = at_id a \<and> ar_status r = ABroadcast) (db_attempts d) \<noteq> 1" "d' = d" "s = Noop"
  | (gate) r d2 where "r \<in> set (db_attempts d)" "ar_id r = at_id a" "ar_status r = ABroadcast"
      "\<not> mined_conflict a (db_attempts d)" "include_owner now ev1 a inc re (gate_inclusion now a inc d) = Ok d2" "s = Applied"
      "if confirm_now then \<exists>s'. confirm_in_tx now ev2 a d2 = Ok (d', s') else d' = d2"
proof (cases "sql_count (\<lambda>r. ar_id r = at_id a \<and> ar_status r = ABroadcast) (db_attempts d) = 1")
  case False
  with assms have "d' = d" "s = Noop" by (auto simp: settle_inclusion_def split: if_splits)
  with False show thesis by (rule noop)
next
  case True
  from sql_count_1_ex [OF True] obtain r where r: "r \<in> set (db_attempts d)" "ar_id r = at_id a" "ar_status r = ABroadcast" by blast
  have nc: "\<not> mined_conflict a (db_attempts d)" using assms by (auto simp: settle_inclusion_def split: if_splits)
  with True assms have *: "and_then (include_owner now ev1 a inc re (gate_inclusion now a inc d))
      (\<lambda>d2. if confirm_now then and_then (confirm_in_tx now ev2 a d2) (\<lambda>(d3, _). Ok (d3, Applied)) else Ok (d2, Applied)) = Ok (d', s)"
    by (simp add: settle_inclusion_def include_owner_def Let_def)
  then obtain d2 where d2: "include_owner now ev1 a inc re (gate_inclusion now a inc d) = Ok d2"
    "(if confirm_now then and_then (confirm_in_tx now ev2 a d2) (\<lambda>(d3, _). Ok (d3, Applied)) else Ok (d2, Applied)) = Ok (d', s)"
    by (auto simp: and_then_eq_Ok)
  then have "s = Applied" "if confirm_now then \<exists>s'. confirm_in_tx now ev2 a d2 = Ok (d', s') else d' = d2"
    by (auto simp: and_then_eq_Ok split: if_splits)
  with r nc d2(1) show thesis by (intro gate)
qed

lemma include_owner_fields:
  assumes "include_owner now ev a inc re d = Ok d'"
  shows "db_attempts d' = db_attempts d" "db_slots d' = db_slots d" "db_pairs d' = db_pairs d" "db_gas d' = db_gas d"
    "db_epoch d' = db_epoch d"
  using assms by (auto simp: include_owner_def and_then_eq_Ok split: slot_owner.splits attempt_purpose.splits if_splits elim!: announceE)

lemma include_owner_keys: "include_owner now ev a inc re d = Ok d' \<Longrightarrow> keys_ok d \<Longrightarrow> keys_ok d'"
  by (auto simp: include_owner_def and_then_eq_Ok keys_ok_def distinct_sql_update
      split: slot_owner.splits attempt_purpose.splits if_splits elim!: announce_keys [unfolded keys_ok_def])

lemma include_owner_sim:
  assumes "include_owner now ev a inc re d = Ok d'" "keys_ok d"
    and st: "abs_owner d (at_owner a) = Some st0" "main_of (at_owner a) (at_purpose a) \<Longrightarrow> st0 \<in> {Sent, Cancelling}"
  shows "abs_owner d' = (if main_of (at_owner a) (at_purpose a) then (abs_owner d)(at_owner a \<mapsto> Included) else abs_owner d)"
proof (cases "at_owner a")
  case (OJob i)
  have dist: "distinct (map jr_id (db_jobs d))" using assms(2) by (simp add: keys_ok_def)
  show ?thesis
  proof (cases "at_purpose a = PJob")
    case True
    from assms(1) OJob True have an: "announce now ev (\<lambda>r. jr_id r = i \<and> jr_status r \<in> {Sent, Cancelling}) (included_row now inc)
        WIncluded re (\<lambda>r. None) d = Ok (d', True)" by (auto simp: include_owner_def and_then_eq_Ok split: if_splits)
    then show ?thesis using announce_job [OF an _ _ dist, where st = Included] st True OJob
      by (auto simp: main_of_def)
  next
    case False
    from assms(1) OJob False have "d' = d" by (auto simp: include_owner_def split: attempt_purpose.splits)
    then show ?thesis using False OJob by (simp add: main_of_def)
  qed
next
  case (OTopup i)
  from assms(1) OTopup have "db_topups d' = sql_update (\<lambda>t. tu_id t = i \<and> tu_status t = TSent)
      (\<lambda>t. t\<lparr>tu_status := TIncluded, tu_updated_at := now\<rparr>) (db_topups d)" "db_jobs d' = db_jobs d"
    by (auto simp: include_owner_def)
  moreover have "tab_view tu_id tu_status (db_topups d) i = Some TSent"
    using st OTopup topup_not_cancelling by (intro topup_status_of) (auto simp: main_of_def)
  ultimately have "abs_owner d' = (abs_owner d)(OTopup i \<mapsto> topup_as_job TIncluded)"
    by (rule topup_move) simp_all
  with OTopup show ?thesis by (simp add: main_of_def)
qed

lemma sim_include_only:
  assumes r: "r \<in> set (db_attempts d)" "ar_id r = at_id a" "ar_status r = ABroadcast"
    and i: "include_owner now ev a inc re (gate_inclusion now a inc d) = Ok d'"
    and inv: "faithful a d" "keys_ok d" "pinv (protocol_of d)"
  shows "pstep (protocol_of d) (protocol_of d')" "keys_ok d'" "faithful a d'"
proof -
  let ?d = "gate_inclusion now a inc d"
  note fr = faithful_row [OF inv(2,1) r(1,2)] and fields = include_owner_fields [OF i]
  have kd: "keys_ok ?d" using inv(2) by (simp add: keys_ok_def keys_include_attempts distinct_gas_key_add_gas)
  have own: "abs_owner ?d = abs_owner d" by (rule abs_owner_same) simp_all
  obtain st0 where st0: "abs_owner d (at_owner a) = Some st0" using ownedD [OF _ fr(1)] inv(3) fr(3) by (auto simp: pinv_def)
  have "main_of (at_owner a) (at_purpose a) \<Longrightarrow> st0 \<in> {Sent, Cancelling}"
    using fitsD [OF _ fr(1), of st0] inv(3) st0 fr r(3) by (auto simp: fits_def pinv_def split: if_splits)
  with include_owner_sim [OF i kd] st0 own
  have ow: "abs_owner d' = (if main_of (at_owner a) (at_purpose a) then (abs_owner d)(at_owner a \<mapsto> Included) else abs_owner d)" by simp
  have "tab_view ar_id att_of (db_attempts d') = (sweep (key_of a) (\<lambda>i. i = at_id a) AReplaced (tab_view ar_id att_of (db_attempts d)))
      (at_id a \<mapsto> set_status AIncluded (att_of r))"
    using tab_view_include_attempts [OF _ r] fields(1) inv(2) by (simp add: keys_ok_def)
  then have "protocol_of d' = do_include (at_id a) (att_of r) (protocol_of d)"
    using ow fields(2) fr by (intro proto_eqI) (simp_all add: do_include_def)
  then show "pstep (protocol_of d) (protocol_of d')" using pstep.incl [OF fr(1)] r(3) by simp
  show "keys_ok d'" by (rule include_owner_keys [OF i kd])
  show "faithful a d'" using inv(1) unfolding faithful_def fields
    by (auto simp: include_attempts_def set_sql_update matches_def rec_owner_def split: if_splits option.splits)
qed

lemma sim_include:
  assumes "settle_inclusion now ev1 ev2 a inc confirm_now re d = Ok (d', s)" "faithful a d" "keys_ok d" "pinv (protocol_of d)"
  shows "pstep\<^sup>*\<^sup>* (protocol_of d) (protocol_of d') \<and> keys_ok d'"
  using assms(1)
proof (cases rule: settle_inclusionE)
  case noop
  with assms show ?thesis by simp
next
  case (gate r d2)
  note io = sim_include_only [OF gate(1-3,5) assms(2-4)]
  show ?thesis
  proof (cases confirm_now)
    case False
    with gate(7) io show ?thesis by auto
  next
    case True
    with gate(7) obtain s' where "confirm_in_tx now ev2 a d2 = Ok (d', s')" by auto
    from sim_confirm [OF this io(3,2) pinv_step [OF io(1) assms(4)]] io(1) show ?thesis
      by (meson converse_rtranclp_into_rtranclp)
  qed
qed

section \<open>Taking things back\<close>

lemma demote_inclusionE:
  assumes "demote_inclusion now a d = (d', s)"
  obtains (noop) "\<forall>r\<in>set (db_attempts d). \<not> (ar_id r = at_id a \<and> ar_status r = AIncluded)" "d' = d" "s = Noop"
  | (gate) r where "r \<in> set (db_attempts d)" "ar_id r = at_id a" "ar_status r = AIncluded" "s = Applied"
      "db_attempts d' = sql_update (\<lambda>r. ar_id r = at_id a \<and> ar_status r = AIncluded)
         (\<lambda>r. r\<lparr>ar_status := ABroadcast, ar_block_number := None, ar_block_hash := None, ar_updated_at := now\<rparr>) (db_attempts d)"
      "db_gas d' = add_gas (at_chain_id a) (at_signer a) (at_purpose a) (- 1)
         (- (case ar_gas_used r of Some g \<Rightarrow> g | None \<Rightarrow> 0)) (- (case ar_fee_paid r of Some f \<Rightarrow> f | None \<Rightarrow> 0)) (db_gas d)"
      "db_slots d' = db_slots d" "db_pairs d' = db_pairs d" "db_deliveries d' = db_deliveries d" "db_epoch d' = db_epoch d"
      "db_next_seq d' = db_next_seq d"
      "db_jobs d' = (case at_owner a of OJob i \<Rightarrow> if at_purpose a = PJob
          then sql_update (\<lambda>r. jr_id r = i \<and> jr_status r = Included) demoted_row (db_jobs d) else db_jobs d | _ \<Rightarrow> db_jobs d)"
      "db_topups d' = (case at_owner a of OTopup i \<Rightarrow> sql_update (\<lambda>t. tu_id t = i \<and> tu_status t = TIncluded)
                (\<lambda>t. t\<lparr>tu_status := TSent, tu_updated_at := now\<rparr>) (db_topups d) | _ \<Rightarrow> db_topups d)"
proof (cases "find (\<lambda>r. ar_id r = at_id a \<and> ar_status r = AIncluded) (db_attempts d)")
  case None
  with assms show thesis by (intro noop) (auto simp: demote_inclusion_def find_None_ball)
next
  case (Some r)
  from find_ex [OF Some] have r: "r \<in> set (db_attempts d)" "ar_id r = at_id a" "ar_status r = AIncluded" by auto
  show thesis
    by (rule gate [OF r]) (use assms Some in \<open>auto simp: demote_inclusion_def Let_def split: slot_owner.splits attempt_purpose.splits\<close>)
qed

lemma sim_demote:
  assumes "demote_inclusion now a d = (d', s)" "faithful a d" "keys_ok d" "pinv (protocol_of d)"
  shows "pstep\<^sup>*\<^sup>* (protocol_of d) (protocol_of d') \<and> keys_ok d'"
  using assms(1)
proof (cases rule: demote_inclusionE)
  case noop
  with assms show ?thesis by simp
next
  case (gate r)
  note fr = faithful_row [OF assms(3,2) gate(1,2)]
  have dist: "distinct (map ar_id (db_attempts d))" using assms(3) by (simp add: keys_ok_def)
  obtain st0 where st0: "abs_owner d (at_owner a) = Some st0" using ownedD [OF _ fr(1)] assms(4) fr(3) by (auto simp: pinv_def)
  have st: "st0 = Included" if "main_of (at_owner a) (at_purpose a)"
    using fitsD [OF _ fr(1), of st0] assms(4) st0 fr gate(3) that by (auto simp: fits_def pinv_def)
  have ow: "abs_owner d' = (if main_of (at_owner a) (at_purpose a) then (abs_owner d)(at_owner a \<mapsto> Sent) else abs_owner d)"
  proof (cases "at_owner a")
    case (OJob i)
    show ?thesis
    proof (cases "at_purpose a = PJob")
      case True
      then have "tab_view jr_id jr_status (db_jobs d) i = Some Included" using st st0 OJob by (simp add: main_of_def)
      then have "tab_view jr_id jr_status (db_jobs d') = (tab_view jr_id jr_status (db_jobs d))(i \<mapsto> Sent)"
        unfolding gate(12) using OJob True
        by (simp, subst tab_view_move [where Q = "\<lambda>y. y = Included" and g = "\<lambda>_. Sent"]) simp_all
      then show ?thesis using OJob True gate(13) by (simp add: main_of_def abs_owner_job)
    next
      case False
      then have "abs_owner d' = abs_owner d" using OJob gate(12,13) by (intro abs_owner_same) simp_all
      then show ?thesis using False OJob by (simp add: main_of_def)
    qed
  next
    case (OTopup i)
    have "abs_owner d' = (abs_owner d)(OTopup i \<mapsto> topup_as_job TSent)"
    proof (rule topup_move)
      show "db_topups d' = sql_update (\<lambda>t. tu_id t = i \<and> tu_status t = TIncluded)
          (\<lambda>t. t\<lparr>tu_status := TSent, tu_updated_at := now\<rparr>) (db_topups d)" using gate(13) OTopup by simp
      show "tab_view tu_id tu_status (db_topups d) i = Some TIncluded"
        using st st0 OTopup by (intro topup_status_of) (simp add: main_of_def)
    qed (use gate(12,13) OTopup in simp_all)
    then show ?thesis using OTopup by (simp add: main_of_def)
  qed
  have "tab_view ar_id att_of (db_attempts d') = (tab_view ar_id att_of (db_attempts d))(ar_id r \<mapsto>
      att_of (r\<lparr>ar_status := ABroadcast, ar_block_number := None, ar_block_hash := None, ar_updated_at := now\<rparr>))"
    unfolding gate(5) by (rule tab_view_update_row [OF dist gate(1)]) (use gate(2,3) in auto)
  then have "tab_view ar_id att_of (db_attempts d') = (tab_view ar_id att_of (db_attempts d))(at_id a \<mapsto> set_status ABroadcast (att_of r))"
    by (simp add: att_of_upd gate(2))
  then have "protocol_of d' = do_demote (at_id a) (att_of r) (protocol_of d)"
    using ow gate(7) fr by (intro proto_eqI) (simp_all add: do_demote_def)
  then have "pstep (protocol_of d) (protocol_of d')" using pstep.demote [OF fr(1)] gate(3) by simp
  moreover have "keys_ok d'" using assms(3) unfolding keys_ok_def gate
    by (simp add: distinct_sql_update distinct_gas_key_add_gas split: slot_owner.splits)
  ultimately show ?thesis by blast
qed

lemma sim_move_block:
  assumes "keys_ok d"
  shows "protocol_of (update_inclusion_block now a bn bh rc d) = protocol_of d \<and> keys_ok (update_inclusion_block now a bn bh rc d)"
proof -
  let ?d = "update_inclusion_block now a bn bh rc d"
  have "abs_owner ?d = abs_owner d"
    by (rule abs_owner_same)
      (simp_all add: update_inclusion_block_def Let_def tab_view_update_same split: slot_owner.splits attempt_purpose.splits)
  moreover have "tab_view ar_id att_of (db_attempts ?d) = tab_view ar_id att_of (db_attempts d)" "db_slots ?d = db_slots d"
    by (simp_all add: update_inclusion_block_def Let_def tab_view_update_same att_of_upd split: slot_owner.splits attempt_purpose.splits)
  moreover have "keys_ok ?d" using assms
    by (simp add: keys_ok_def update_inclusion_block_def Let_def distinct_sql_update split: slot_owner.splits attempt_purpose.splits)
  ultimately show ?thesis by (auto intro: proto_eqI)
qed

text \<open>The part of a void before the disposition of its owner.\<close>

abbreviation gate_void :: "timestamp \<Rightarrow> attempt \<Rightarrow> void_mode \<Rightarrow> db \<Rightarrow> db" where
  "gate_void now a mode d \<equiv> (if mode = NonceUnused
     then release_nonce now a (d\<lparr>db_attempts := void_attempts now a (db_attempts d)\<rparr>)
     else d\<lparr>db_attempts := void_attempts now a (db_attempts d)\<rparr>)"

definition void_owner :: "timestamp \<Rightarrow> timestamp \<Rightarrow> uuid \<Rightarrow> attempt \<Rightarrow> void_disposition \<Rightarrow> db \<Rightarrow> (db, store_error) result" where
  "void_owner now clock ev a disposition d2 = (case (at_owner a, disposition) of
      (OJob i, Requeue) \<Rightarrow> Ok (d2\<lparr>db_jobs := sql_update (\<lambda>r. jr_id r = i \<and> jr_status r \<in> {Sent, Cancelling})
          (requeued_row clock) (db_jobs d2)\<rparr>)
    | (OJob i, Fail failure message) \<Rightarrow>
        and_then (announce now ev (\<lambda>r. jr_id r = i \<and> jr_status r \<in> {Sent, Cancelling})
            (failed_keep now failure message) WFailed False (\<lambda>r. Some BFailed) d2) (\<lambda>(d3, _). Ok d3)
    | (OTopup i, _) \<Rightarrow> Ok (d2\<lparr>db_topups := sql_update (\<lambda>t. tu_id t = i \<and> tu_status t = TSent)
          (\<lambda>t. t\<lparr>tu_status := TFailed, tu_error := Some ''transaction was rejected before it could be sent'',
                  tu_updated_at := now\<rparr>) (db_topups d2)\<rparr>))"

lemma void_bindingE:
  assumes "void_binding now clock ev epoch a mode disp d = Ok d'"
  shows "db_epoch d = epoch" "void_owner now clock ev a disp (gate_void now a mode d) = Ok d'"
  using assms unfolding void_binding_def void_owner_def by (auto simp: Let_def split: if_splits)

lemma void_owner_fields:
  assumes "void_owner now clock ev a disp d = Ok d'"
  shows "db_attempts d' = db_attempts d" "db_slots d' = db_slots d" "db_pairs d' = db_pairs d" "db_gas d' = db_gas d"
    "db_epoch d' = db_epoch d"
  using assms by (auto simp: void_owner_def and_then_eq_Ok split: slot_owner.splits void_disposition.splits elim!: announceE)

lemma void_owner_keys: "void_owner now clock ev a disp d = Ok d' \<Longrightarrow> keys_ok d \<Longrightarrow> keys_ok d'"
  by (auto simp: void_owner_def and_then_eq_Ok keys_ok_def distinct_sql_update
      split: slot_owner.splits void_disposition.splits elim!: announce_keys [unfolded keys_ok_def])

lemma void_owner_sim:
  assumes "void_owner now clock ev a disp d = Ok d'" "keys_ok d"
    and st: "abs_owner d (at_owner a) = Some st0" "st0 \<in> {Sent, Cancelling}"
  shows "\<exists>st. (st = Queued \<or> st = Failed) \<and> abs_owner d' = (abs_owner d)(at_owner a \<mapsto> st)"
proof (cases "at_owner a")
  case (OJob i)
  have dist: "distinct (map jr_id (db_jobs d))" using assms(2) by (simp add: keys_ok_def)
  show ?thesis
  proof (cases disp)
    case Requeue
    with assms(1) OJob have d': "d' = d\<lparr>db_jobs := sql_update (\<lambda>r. jr_id r = i \<and> jr_status r \<in> {Sent, Cancelling})
        (requeued_row clock) (db_jobs d)\<rparr>" by (auto simp: void_owner_def)
    have "tab_view jr_id jr_status (db_jobs d') = (tab_view jr_id jr_status (db_jobs d))(i \<mapsto> Queued)"
      unfolding d' using st OJob
      by (simp, subst tab_view_move [where Q = "\<lambda>y. y = Sent \<or> y = Cancelling" and g = "\<lambda>_. Queued"]) auto
    then have "abs_owner d' = (abs_owner d)(OJob i \<mapsto> Queued)" by (rule abs_owner_job) (simp add: d')
    then show ?thesis using OJob by auto
  next
    case (Fail failure message)
    with assms(1) OJob obtain found where an: "announce now ev (\<lambda>r. jr_id r = i \<and> jr_status r \<in> {Sent, Cancelling})
        (failed_keep now failure message) WFailed False (\<lambda>r. Some BFailed) d = Ok (d', found)"
      by (auto simp: void_owner_def and_then_eq_Ok)
    then show ?thesis using announce_job [OF an _ _ dist, where st = Failed] st OJob by auto
  qed
next
  case (OTopup i)
  from assms(1) OTopup have "db_topups d' = sql_update (\<lambda>t. tu_id t = i \<and> tu_status t = TSent)
          (\<lambda>t. t\<lparr>tu_status := TFailed, tu_error := Some ''transaction was rejected before it could be sent'',
                  tu_updated_at := now\<rparr>) (db_topups d)" "db_jobs d' = db_jobs d"
    by (auto simp: void_owner_def)
  moreover have "tab_view tu_id tu_status (db_topups d) i = Some TSent"
    using st OTopup topup_not_cancelling by (intro topup_status_of) auto
  ultimately have "abs_owner d' = (abs_owner d)(OTopup i \<mapsto> topup_as_job TFailed)"
    by (rule topup_move) simp_all
  then show ?thesis using OTopup by auto
qed

lemma tab_view_void_attempts:
  "tab_view ar_id att_of (void_attempts now a t) = sweep (key_of a) (\<lambda>_. False) ADropped (tab_view ar_id att_of t)"
proof -
  have "tab_view ar_id att_of (void_attempts now a t) = (\<lambda>x. map_option
      (\<lambda>y. if a_key y = key_of a \<and> a_status y = ABroadcast then set_status ADropped y else y) (tab_view ar_id att_of t x))"
    unfolding void_attempts_def by (rule tab_view_update) (simp_all add: att_of_upd)
  moreover have "map_option (\<lambda>y. if a_key y = key_of a \<and> a_status y = ABroadcast then set_status ADropped y else y) (tab_view ar_id att_of t x)
      = sweep (key_of a) (\<lambda>_. False) ADropped (tab_view ar_id att_of t) x" for x
    by (cases "tab_view ar_id att_of t x") (simp_all add: sweep_def)
  ultimately show ?thesis by (simp add: fun_eq_iff)
qed

lemma sim_void:
  assumes "void_binding now clock ev epoch a mode disp d = Ok d'" "may_void a d" "keys_ok d" "pinv (protocol_of d)"
  shows "pstep (protocol_of d) (protocol_of d') \<and> keys_ok d'"
proof -
  let ?d = "gate_void now a mode d"
  note vo = void_bindingE(2) [OF assms(1)]
  from assms(2) obtain r where r: "r \<in> set (db_attempts d)" "matches r a" "ar_status r = ABroadcast" by (auto simp: may_void_def)
  have m: "ar_id r = at_id a" "att_key r = key_of a" "rec_owner r = at_owner a" using r(2) by (simp_all add: matches_def)
  have pa: "p_att (protocol_of d) (at_id a) = Some (att_of r)"
    using tab_view_row [of ar_id "db_attempts d" r att_of] r(1) assms(3) m(1) by (simp add: keys_ok_def)
  have slot: "tab_view slot_key slot_owner_of (db_slots d) (key_of a) = Some (at_owner a)"
    using slotD [OF _ pa] assms(4) r(3) m by (simp add: pinv_def)
  then obtain s where s: "s \<in> set (db_slots d)" "slot_key s = key_of a" "slot_owner_of s = at_owner a" using tab_view_Some_ex by metis
  have sid: "sl_owner_id s = owner_id (at_owner a)" unfolding s(3) [symmetric] by (simp add: slot_owner_of_def)
  have kd: "keys_ok ?d" using assms(3)
    by (auto simp: keys_ok_def release_nonce_def Let_def void_attempts_def distinct_sql_update distinct_sql_delete pair_key_rec_def)
  have own: "abs_owner ?d = abs_owner d" by (rule abs_owner_same) (simp_all add: release_nonce_def Let_def)
  obtain st0 where st0: "abs_owner d (at_owner a) = Some st0" using ownedD [OF _ pa] assms(4) m(3) by (auto simp: pinv_def)
  have "st0 \<in> {Sent, Cancelling}" using fitsD [OF _ pa, of st0] assms(4) st0 m r(3) by (auto simp: fits_def pinv_def split: if_splits)
  with void_owner_sim [OF vo kd, of st0] own st0 obtain st where
    st: "st = Queued \<or> st = Failed" "abs_owner d' = (abs_owner d)(at_owner a \<mapsto> st)" by auto
  have slots: "tab_view slot_key slot_owner_of (db_slots d') =
      (if mode = NonceUnused then (tab_view slot_key slot_owner_of (db_slots d))(key_of a := None) else tab_view slot_key slot_owner_of (db_slots d))"
    using tab_view_delete [of slot_key "db_slots d" slot_owner_of "key_of a" "\<lambda>s. sl_owner_id s = owner_id (at_owner a)"]
      assms(3) s(1,2) sid by (auto simp: void_owner_fields(2) [OF vo] release_nonce_def Let_def keys_ok_def)
  have atts: "tab_view ar_id att_of (db_attempts d') = sweep (key_of a) (\<lambda>_. False) ADropped (tab_view ar_id att_of (db_attempts d))"
    by (simp add: void_owner_fields(1) [OF vo] release_nonce_def Let_def tab_view_void_attempts)
  have "protocol_of d' = do_void (att_of r) (mode = NonceUnused) st (protocol_of d)"
    using st(2) slots atts m by (intro proto_eqI) (simp_all add: do_void_def)
  then have "pstep (protocol_of d) (protocol_of d')" using pstep.void [OF pa _ st(1)] r(3) by simp
  with void_owner_keys [OF vo kd] show ?thesis by blast
qed

section \<open>Every transaction\<close>

lemma keys_frame:
  "db_jobs d' = db_jobs d \<Longrightarrow> db_topups d' = db_topups d \<Longrightarrow> db_attempts d' = db_attempts d \<Longrightarrow> db_slots d' = db_slots d \<Longrightarrow>
   db_gas d' = db_gas d \<Longrightarrow> map pair_key_rec (db_pairs d') = map pair_key_rec (db_pairs d) \<Longrightarrow>
   map wd_id (db_deliveries d') = map wd_id (db_deliveries d) \<Longrightarrow> keys_ok d \<Longrightarrow> keys_ok d'"
  by (simp add: keys_ok_def)

lemma sim_pair:
  assumes "ensure_pair now chain signer role d = (d', pr)" "keys_ok d"
  shows "protocol_of d' = protocol_of d \<and> keys_ok d'"
proof (cases "find (\<lambda>p. pair_key_rec p = (i64_of_u64 chain, signer)) (db_pairs d)")
  case None
  with assms(1) have d': "d' = d\<lparr>db_pairs := db_pairs d @ [new_pair now chain signer role]\<rparr>" by (auto simp: ensure_pair_def)
  from None have "\<forall>p\<in>set (db_pairs d). pair_key_rec p \<noteq> pair_key_rec (new_pair now chain signer role)"
    by (simp add: find_None_ball new_pair_def pair_key_rec_def)
  then have "keys_ok d'" using assms(2) unfolding d' by (auto simp: keys_ok_def)
  moreover have "protocol_of d' = protocol_of d" unfolding d' by (rule abs_frame) simp_all
  ultimately show ?thesis by blast
next
  case (Some p)
  with assms(1) have d': "d' = d\<lparr>db_pairs := sql_update (\<lambda>p. pair_key_rec p = (i64_of_u64 chain, signer)) (\<lambda>p. p\<lparr>pr_role := role\<rparr>) (db_pairs d)\<rparr>"
    by (auto simp: ensure_pair_def)
  have "keys_ok d'" unfolding d' by (rule keys_frame [OF _ _ _ _ _ _ _ assms(2)]) (simp_all add: map_sql_update pair_key_rec_def)
  moreover have "protocol_of d' = protocol_of d" unfolding d' by (rule abs_frame) simp_all
  ultimately show ?thesis by blast
qed

lemma store_step_sim:
  assumes "store_step d d'" "keys_ok d" "pinv (protocol_of d)"
  shows "pstep\<^sup>*\<^sup>* (protocol_of d) (protocol_of d') \<and> keys_ok d'"
proof -
  have frame: "pstep\<^sup>*\<^sup>* (protocol_of d) (protocol_of d') \<and> keys_ok d'"
    if "db_jobs d' = db_jobs d" "db_topups d' = db_topups d" "db_attempts d' = db_attempts d" "db_slots d' = db_slots d"
      "db_gas d' = db_gas d" "map pair_key_rec (db_pairs d') = map pair_key_rec (db_pairs d)"
      "map wd_id (db_deliveries d') = map wd_id (db_deliveries d)" for d'
    using abs_frame [OF that(1-4)] keys_frame [OF that assms(2)] by simp
  show ?thesis using assms(1)
  proof cases
    case (lease e)
    then show ?thesis by (intro frame) (auto simp: bump_epoch_def)
  next
    case (ingest now jobs out)
    then show ?thesis using assms(2) by (rule sim_ingest)
  next
    case (requeue clock i n)
    then show ?thesis using sim_requeue [OF requeue assms(2)] by simp
  next
    case (fail now ev i failure message revert b)
    then show ?thesis using assms(2) by (rule sim_fail)
  next
    case (cancel now ev i b)
    then show ?thesis using assms(2) unfolding cancel_queued_def by (rule sim_fail)
  next
    case (topup now i chain treasury signer amount j)
    then show ?thesis using sim_topup [OF topup assms(2)] by blast
  next
    case (topup_failed now i err)
    then show ?thesis
      using sim_withdraw_topups [OF assms(2), where q = "\<lambda>t. tu_id t = i" and f = "\<lambda>t. t\<lparr>tu_status := TFailed, tu_error := Some err, tu_updated_at := now\<rparr>"]
      by (simp add: fail_topup_def)
  next
    case (topups_unbound now chain n)
    show ?thesis
    proof (rule sim_withdraw_topups [OF assms(2)])
      show "d' = d\<lparr>db_topups := sql_update (\<lambda>t. tu_chain_id t = i64_of_u64 chain \<and> tu_status t = TRequested)
          (\<lambda>t. t\<lparr>tu_status := TFailed, tu_error := Some ''engine restarted before the top-up was sent'', tu_updated_at := now\<rparr>) (db_topups d)\<rparr>"
        using topups_unbound by (simp add: fail_unbound_topups_def Let_def)
    qed simp_all
  next
    case (signer now address key_ref role)
    then show ?thesis by (intro frame) (simp_all add: register_signer_def)
  next
    case (pair now chain signer role pr)
    then show ?thesis using sim_pair [OF pair assms(2)] by simp
  next
    case (pause now chain signer pz manual)
    then show ?thesis by (intro frame) (simp_all add: record_pause_def map_sql_update pair_key_rec_def)
  next
    case (dead now i kind pl err)
    then show ?thesis by (intro frame) (auto simp: dead_letter_def split: if_splits)
  next
    case (bind now epoch a kind)
    then show ?thesis using sim_bind [OF bind assms(2)] by blast
  next
    case (include_tx now ev1 ev2 a inc confirm_now re s)
    then show ?thesis using sim_include assms(2,3) by blast
  next
    case (confirm_tx now ev a s)
    then show ?thesis using sim_confirm assms(2,3) unfolding settle_confirmation_def by blast
  next
    case (move_block a now bn bh rc)
    then show ?thesis using sim_move_block [OF assms(2)] by simp
  next
    case (demote_tx now a s)
    then show ?thesis using sim_demote assms(2,3) by blast
  next
    case (void_tx now clock ev epoch a mode disp)
    then show ?thesis using sim_void [OF void_tx assms(2,3)] by blast
  next
    case (claim now limit lease_secs out)
    then show ?thesis by (intro frame) (auto simp: claim_due_deliveries_def Let_def map_sql_update)
  next
    case (delivered now i code)
    then show ?thesis by (intro frame) (simp_all add: mark_delivered_def map_sql_update)
  next
    case (undelivered now i code err retry)
    then show ?thesis by (intro frame) (simp_all add: mark_delivery_failed_def map_sql_update split: option.splits)
  next
    case (defer_ev now i us)
    then show ?thesis by (intro frame) (simp_all add: defer_delivery_def map_sql_update)
  next
    case (redeliver_ev now i b)
    then show ?thesis by (intro frame) (auto simp: redeliver_def map_sql_update)
  qed
qed

lemma store_reach_inv: "store_reach d \<Longrightarrow> keys_ok d \<and> pinv (protocol_of d)"
proof (induction rule: store_reach.induct)
  case init
  have "protocol_of empty_db = p_empty"
    by (rule proto_eqI) (simp_all add: empty_db_def p_empty_def abs_owner_def fun_eq_iff split: slot_owner.splits)
  then show ?case by (simp add: pinv_empty keys_ok_def empty_db_def)
next
  case (step d d')
  then have "pstep\<^sup>*\<^sup>* (protocol_of d) (protocol_of d')" "keys_ok d'" using store_step_sim by blast+
  moreover have "pinv s'" if "pstep\<^sup>*\<^sup>* s s'" "pinv s" for s s' using that by (induction rule: rtranclp_induct) (auto intro: pinv_step)
  ultimately show ?case using step.IH by blast
qed

end
