(* ===== verification/Store_Theorems.thy ===== *)
theory Store_Theorems
  imports Store_Simulation
begin

text \<open>
  What the simulation gives for the tables themselves: no job is mined twice, the status a client reads
  is backed by the attempts, terminal statuses are final, settlement is idempotent and a deposed leader
  can bind nothing. A small concrete history serves as witness.
\<close>

section \<open>A concrete history\<close>

definition demo_request :: job_request where
  "demo_request = \<lparr>rq_chain_id = 1, rq_to = 7, rq_data = [1, 2], rq_value = 5, rq_gas_limit = None, rq_deadline = None,
     rq_webhook_url = ''https://example.test/hook''\<rparr>"

definition demo_new :: new_job where
  "demo_new = \<lparr>nj_id = 100, nj_request = demo_request, nj_idempotency_key = Some ''key'', nj_request_hash = ''hash''\<rparr>"

definition demo_attempt :: "uuid \<Rightarrow> attempt_purpose \<Rightarrow> b256 \<Rightarrow> u128 \<Rightarrow> attempt" where
  "demo_attempt i p h fee = \<lparr>at_id = i, at_chain_id = 1, at_signer = 9, at_nonce = 4, at_purpose = p, at_owner = OJob 100,
     at_tx_hash = h, at_raw_tx = [3, 4], at_gas_limit = 21000, at_max_fee_per_gas = fee, at_max_priority_fee_per_gas = 1,
     at_value = 5, at_status = ABroadcast, at_block_number = None, at_block_hash = None, at_created_at = 11\<rparr>"

definition demo_first :: attempt where
  "demo_first = demo_attempt 200 PJob 300 10"

definition demo_second :: attempt where
  "demo_second = demo_attempt 201 PJob 301 20"

definition demo_inclusion :: inclusion where
  "demo_inclusion = \<lparr>inc_tx_hash = 301, inc_block_number = 50, inc_block_hash = 51, inc_outcome = Success, inc_gas_used = 21000,
     inc_effective_gas_price = 12, inc_fee_paid = 252000, inc_l1_fee = None, inc_receipt = JNull\<rparr>"

text \<open>The job is accepted, the pair registered, the job bound and its transaction replaced; then the
  replacement is mined and confirmed.\<close>

definition demo_job :: job_rec where
  "demo_job = new_job_rec 1 1 demo_new"

definition demo_db1 :: db where
  "demo_db1 = empty_db\<lparr>db_jobs := [demo_job], db_next_seq := 2, db_pairs := [new_pair 2 1 9 RSigner]\<rparr>"

definition demo_slot :: slot_rec where
  "demo_slot = \<lparr>sl_chain_id = i64_of_u64 1, sl_signer = 9, sl_nonce = i64_of_u64 4, sl_owner_kind = ''job'', sl_owner_id = 100,
     sl_created_at = 3\<rparr>"

definition demo_job2 :: job_rec where
  "demo_job2 = demo_job\<lparr>jr_status := Sent, jr_signer := Some 9, jr_nonce := Some (i64_of_u64 4), jr_tx_hash := Some 300,
     jr_sent_at := Some 3\<rparr>"

definition demo_pair :: "timestamp \<Rightarrow> pair_rec" where
  "demo_pair now = (new_pair 2 1 9 RSigner)\<lparr>pr_nonce_hwm := Some (i64_of_u64 4), pr_updated_at := now\<rparr>"

definition demo_db2 :: db where
  "demo_db2 = empty_db\<lparr>db_jobs := [demo_job2], db_next_seq := 2, db_pairs := [demo_pair 3], db_slots := [demo_slot],
     db_attempts := [new_attempt_rec 3 demo_first]\<rparr>"

definition demo_db3 :: db where
  "demo_db3 = demo_db2\<lparr>db_jobs := [demo_job2\<lparr>jr_tx_hash := Some 301\<rparr>], db_pairs := [demo_pair 4],
     db_attempts := [new_attempt_rec 3 demo_first, new_attempt_rec 4 demo_second]\<rparr>"

text \<open>The replacement is mined.\<close>

definition demo_job4 :: job_rec where
  "demo_job4 = included_row 5 demo_inclusion (demo_job2\<lparr>jr_tx_hash := Some 301\<rparr>)"

definition demo_won :: attempt_rec where
  "demo_won = (new_attempt_rec 4 demo_second)\<lparr>ar_status := AIncluded, ar_block_number := Some (i64_of_u64 50),
     ar_block_hash := Some 51, ar_gas_used := Some 21000, ar_fee_paid := Some 252000, ar_updated_at := 5\<rparr>"

definition demo_event :: delivery_rec where
  "demo_event = \<lparr>wd_id = 400, wd_job_id = 100, wd_event = WIncluded, wd_version = 1, wd_sequence = 1,
     wd_url = jr_webhook_url demo_job, wd_payload = payload 5 400 (job_row.truncate demo_job4) WIncluded 1 False,
     wd_status = DPending, wd_attempts = 0, wd_next_attempt_at = 5, wd_last_status_code = None, wd_last_error = None,
     wd_created_at = 5, wd_delivered_at = None\<rparr>"

definition demo_db4 :: db where
  "demo_db4 = demo_db3\<lparr>db_jobs := [demo_job4],
     db_attempts := [(new_attempt_rec 3 demo_first)\<lparr>ar_status := AReplaced, ar_updated_at := 5\<rparr>, demo_won],
     db_gas := [\<lparr>gl_chain_id = 1, gl_signer = 9, gl_purpose = PJob, gl_tx_count = 1, gl_gas_used = 21000, gl_fee_paid = 252000\<rparr>],
     db_deliveries := [demo_event]\<rparr>"

lemmas demo_defs = demo_first_def demo_second_def demo_attempt_def demo_slot_def demo_job2_def demo_pair_def demo_db1_def
  demo_db2_def demo_db3_def empty_db_def

lemma demo_job_simps [simp]: "jr_id demo_job = 100" "jr_status demo_job = Queued" "jc_webhook_seq demo_job = 0"
  by (simp_all add: demo_job_def new_job_rec_def demo_new_def Let_def)

lemma i64_4 [simp]: "i64_of_u64 4 = 4" "i64_of_u64 1 = 1"
  by (simp_all add: i64_of_small)

lemma demo_reach1: "store_reach demo_db1"
proof -
  have 1: "insert_jobs 1 [demo_new] empty_db = (empty_db\<lparr>db_jobs := [demo_job], db_next_seq := 2\<rparr>, Ok [Created])"
    by (simp add: insert_jobs_def empty_db_def key_taken_def demo_job_def insert_outcome_of_def)
  have 2: "ensure_pair 2 1 9 RSigner (empty_db\<lparr>db_jobs := [demo_job], db_next_seq := 2\<rparr>) = (demo_db1,
      \<lparr>prr_chain_id = 1, prr_signer = 9, prr_nonce_hwm = None, prr_manual_pause = False\<rparr>)"
    by (simp add: ensure_pair_def empty_db_def demo_db1_def)
  show ?thesis using store_reach.step [OF store_reach.step [OF store_reach.init ingest [OF 1]] pair [OF 2]] .
qed

lemma demo_reach2: "store_reach demo_db2"
proof -
  have "bind_attempt 3 0 demo_first First demo_db1 = Ok demo_db2"
    by (simp add: demo_defs bind_attempt_def claim_slot_def insert_attempt_def owner_exists_def move_owner_def sql_count_def
        raise_hwm_def pair_key_rec_def new_pair_def)
  moreover have "may_bind demo_first First demo_db1"
    by (simp add: demo_defs may_bind_def typed_def has_pair_def pair_key_rec_def new_pair_def)
  ultimately show ?thesis using store_reach.step [OF demo_reach1] bind by blast
qed

lemma demo_bind3:
  shows "bind_attempt 4 0 demo_second Replacement demo_db2 = Ok demo_db3" and "may_bind demo_second Replacement demo_db2"
proof -
  show "bind_attempt 4 0 demo_second Replacement demo_db2 = Ok demo_db3"
    by (simp add: demo_defs bind_attempt_def claim_slot_def slot_key_def key_of_def insert_attempt_def owner_exists_def move_owner_def
        sql_count_def raise_hwm_def pair_key_rec_def new_pair_def new_attempt_rec_def)
  show "may_bind demo_second Replacement demo_db2"
    by (simp add: demo_defs may_bind_def typed_def has_pair_def pair_key_rec_def new_pair_def has_live_sibling_def
        new_attempt_rec_def att_key_def key_of_def rec_owner_def)
qed

lemma demo_reach3: "store_reach demo_db3"
  using store_reach.step [OF demo_reach2 bind [OF demo_bind3]] .

lemma demo_include:
  "settle_inclusion 5 400 401 demo_second demo_inclusion False False demo_db3 = Ok (demo_db4, Applied)"
  by (simp add: demo_db4_def demo_won_def demo_event_def demo_job4_def demo_defs settle_inclusion_def mined_conflict_def
      mined_status_def att_key_def key_of_def new_attempt_rec_def include_attempts_def sql_count_def announce_def
      enqueue_def next_version_def add_gas_def included_row_def demo_inclusion_def job_row.defs)

lemma demo_faithful: "faithful demo_second demo_db3"
  by (simp add: demo_defs faithful_def matches_def new_attempt_rec_def att_key_def key_of_def rec_owner_def)

lemma demo_reach4: "store_reach demo_db4"
  using store_reach.step [OF demo_reach3 include_tx [OF demo_include demo_faithful]] .

text \<open>Another history: the job is cancelled before it is sent.\<close>

definition demo_cancelled :: db where
  "demo_cancelled = fst (projr (cancel_queued 3 400 100 demo_db1))"

lemma demo_cancel: "cancel_queued 3 400 100 demo_db1 = Ok (demo_cancelled, True)"
  by (simp add: demo_cancelled_def demo_defs cancel_queued_def fail_job_def announce_def enqueue_def next_version_def Let_def)

lemma demo_reach_cancelled: "store_reach demo_cancelled"
  using store_reach.step [OF demo_reach1 cancel [OF demo_cancel]] .

lemma demo_cancelled_jobs: "db_jobs demo_cancelled
    = [failed_row 3 Cancelled ''cancelled by operator before it was sent'' None demo_job]"
  by (simp add: demo_cancelled_def demo_defs cancel_queued_def fail_job_def announce_def enqueue_def next_version_def Let_def)

section \<open>No job is mined twice\<close>

lemma rec_owner_job: "ar_job_id r = Some j \<longleftrightarrow> rec_owner r = OJob j"
  by (simp add: rec_owner_def split: option.splits)

lemma protocol_row:
  "store_reach d \<Longrightarrow> r \<in> set (db_attempts d) \<Longrightarrow> p_att (protocol_of d) (ar_id r) = Some (att_of r)"
  using store_reach_inv [of d] tab_view_row [of ar_id "db_attempts d" r att_of] by (simp add: keys_ok_def)

lemma protocol_job:
  "store_reach d \<Longrightarrow> x \<in> set (db_jobs d) \<Longrightarrow> p_owner (protocol_of d) (OJob (jr_id x)) = Some (jr_status x)"
  using store_reach_inv [of d] tab_view_row [of jr_id "db_jobs d" x jr_status] by (simp add: keys_ok_def)

lemma protocol_row_ex:
  "store_reach d \<Longrightarrow> p_att (protocol_of d) i = Some c \<Longrightarrow> \<exists>r\<in>set (db_attempts d). ar_id r = i \<and> att_of r = c"
  by (simp add: tab_view_Some_ex)

lemma attempt_row_eq:
  "store_reach d \<Longrightarrow> r \<in> set (db_attempts d) \<Longrightarrow> r' \<in> set (db_attempts d) \<Longrightarrow> ar_id r = ar_id r' \<Longrightarrow> r = r'"
  using store_reach_inv [of d] distinct_map_inj [of ar_id "db_attempts d" r r'] by (simp add: keys_ok_def)





section \<open>The status a client reads is true\<close>

lemma backing_row:
  assumes "store_reach d" "x \<in> set (db_jobs d)" "jr_status x \<noteq> Queued" "jr_status x \<noteq> Failed"
  shows "\<exists>r\<in>set (db_attempts d). ar_job_id r = Some (jr_id x) \<and> backs (jr_status x) (att_of r)"
proof -
  have "status_backed (protocol_of d)" using store_reach_inv [OF assms(1)] by (simp add: pinv_def)
  from backedD [OF this protocol_job [OF assms(1,2)] assms(3,4)] protocol_row_ex [OF assms(1)] show ?thesis
    by (fastforce simp: rec_owner_job)
qed

lemma fitting_row:
  assumes "store_reach d" "x \<in> set (db_jobs d)" "r \<in> set (db_attempts d)" "ar_job_id r = Some (jr_id x)"
  shows "fits (att_of r) (jr_status x)"
  using fitsD [OF _ protocol_row [OF assms(1,3)]] protocol_job [OF assms(1,2)] store_reach_inv [OF assms(1)] assms(4)
  by (simp add: pinv_def rec_owner_job)

definition of_job :: "db \<Rightarrow> job_id \<Rightarrow> attempt_rec \<Rightarrow> bool" where
  "of_job d j r = (r \<in> set (db_attempts d) \<and> ar_job_id r = Some j)"

text \<open>C5. The status of a job says what its transactions did. A job is included (confirmed) only with an
  included (confirmed) transaction of its own, sent only with one that is broadcast, cancelling only with
  a cancel that is broadcast or included; a queued job has no transaction that could still be mined, and
  a failed job has none that is broadcast, included or, other than a cancel, confirmed.\<close>

theorem job_status_is_backed:
  assumes "store_reach d" "x \<in> set (db_jobs d)"
  shows "(jr_status x = Sent \<longrightarrow> (\<exists>r. of_job d (jr_id x) r \<and> ar_purpose r = PJob \<and> ar_status r = ABroadcast))
    \<and> (jr_status x = Cancelling \<longrightarrow> (\<exists>r. of_job d (jr_id x) r \<and> ar_purpose r \<noteq> PJob \<and> live_status (ar_status r)))
    \<and> (jr_status x = Included \<longrightarrow> (\<exists>r. of_job d (jr_id x) r \<and> ar_purpose r = PJob \<and> ar_status r = AIncluded))
    \<and> (jr_status x = Confirmed \<longrightarrow> (\<exists>r. of_job d (jr_id x) r \<and> ar_purpose r = PJob \<and> ar_status r = AConfirmed))
    \<and> (jr_status x = Queued \<longrightarrow> (\<forall>r. of_job d (jr_id x) r \<longrightarrow> \<not> holds (ar_status r)))
    \<and> (jr_status x = Failed \<longrightarrow> (\<forall>r. of_job d (jr_id x) r \<longrightarrow>
          \<not> live_status (ar_status r) \<and> (ar_purpose r = PJob \<longrightarrow> \<not> holds (ar_status r))))"
proof -
  note bk = backing_row [OF assms(1,2)] and main = main_of_def rec_owner_job
  have "\<exists>r. of_job d (jr_id x) r \<and> ar_purpose r = PJob \<and> ar_status r = ABroadcast" if "jr_status x = Sent"
    using bk that by (fastforce simp: of_job_def backs_def main)
  moreover have "\<exists>r. of_job d (jr_id x) r \<and> ar_purpose r \<noteq> PJob \<and> live_status (ar_status r)" if "jr_status x = Cancelling"
    using bk that by (fastforce simp: of_job_def backs_def main live_status_def)
  moreover have "\<exists>r. of_job d (jr_id x) r \<and> ar_purpose r = PJob \<and> ar_status r = AIncluded" if "jr_status x = Included"
    using bk that by (fastforce simp: of_job_def backs_def main)
  moreover have "\<exists>r. of_job d (jr_id x) r \<and> ar_purpose r = PJob \<and> ar_status r = AConfirmed" if "jr_status x = Confirmed"
    using bk that by (fastforce simp: of_job_def backs_def main)
  moreover have "\<not> holds (ar_status r)" if "jr_status x = Queued" "of_job d (jr_id x) r" for r
    using fitting_row [OF assms(1,2)] fits_Queued that by (fastforce simp: of_job_def)
  moreover have "\<not> live_status (ar_status r) \<and> (ar_purpose r = PJob \<longrightarrow> \<not> holds (ar_status r))"
    if "jr_status x = Failed" "of_job d (jr_id x) r" for r
    using fitting_row [OF assms(1,2), of r] that
    by (cases "ar_status r") (auto simp: of_job_def fits_def live_status_def main split: if_splits)
  ultimately show ?thesis by blast
qed

theorem job_status_is_backed_witness:
  "\<exists>r. of_job demo_db3 100 r \<and> ar_purpose r = PJob \<and> ar_status r = ABroadcast"
  using job_status_is_backed [OF demo_reach3, of "demo_job2\<lparr>jr_tx_hash := Some 301\<rparr>"]
  by (simp add: demo_db3_def demo_job2_def)



section \<open>Idempotent settlement\<close>

lemma include_attempts_gate:
  "r \<in> set (include_attempts now a inc t) \<Longrightarrow> ar_id r = at_id a \<Longrightarrow> ar_status r \<noteq> ABroadcast"
  by (auto simp: include_attempts_def set_sql_update split: if_splits)

lemma confirm_attempts_gate:
  "r \<in> set (confirm_attempts now a t) \<Longrightarrow> ar_id r = at_id a \<Longrightarrow> ar_status r \<noteq> AIncluded"
  by (auto simp: confirm_attempts_def set_sql_update split: if_splits)

lemma confirm_attempts_keeps:
  "r \<in> set (confirm_attempts now a t) \<Longrightarrow> ar_status r = ABroadcast \<Longrightarrow> \<exists>r0\<in>set t. ar_id r0 = ar_id r \<and> ar_status r0 = ABroadcast"
  by (auto simp: confirm_attempts_def set_sql_update split: if_splits)

lemma settle_inclusion_noop:
  assumes "\<And>r. r \<in> set (db_attempts d) \<Longrightarrow> ar_id r = at_id a \<Longrightarrow> ar_status r \<noteq> ABroadcast"
  shows "settle_inclusion now ev1 ev2 a inc c re d = Ok (d, Noop)"
proof -
  have "sql_count (\<lambda>r. ar_id r = at_id a \<and> ar_status r = ABroadcast) (db_attempts d) = 0"
    using assms by (auto simp: sql_count_0_iff)
  moreover have "\<not> mined_conflict a (db_attempts d)" using assms by (auto simp: mined_conflict_def)
  ultimately show ?thesis by (simp add: settle_inclusion_def)
qed

lemma settle_inclusion_again:
  assumes "settle_inclusion now ev1 ev2 a inc c re d = Ok (d', Applied)"
  shows "settle_inclusion now' ev1' ev2' a inc' c' re' d' = Ok (d', Noop)"
  using assms
proof (cases rule: settle_inclusionE)
  case (gate r d2)
  have d2: "db_attempts d2 = include_attempts now a inc (db_attempts d)" using include_owner_fields(1) [OF gate(5)] by simp
  have d': "db_attempts d' = db_attempts d2 \<or> db_attempts d' = confirm_attempts now a (db_attempts d2)"
    using gate(7) by (auto simp: confirm_owner_fields split: if_splits elim!: confirm_in_txE)
  show ?thesis
    by (rule settle_inclusion_noop) (use d2 d' include_attempts_gate confirm_attempts_keeps in metis)
qed simp

lemma settle_confirmation_again:
  assumes "settle_confirmation now ev a d = Ok (d', Applied)"
  shows "settle_confirmation now' ev' a d' = Ok (d', Noop)"
  using assms unfolding settle_confirmation_def
proof (cases rule: confirm_in_txE)
  case (gate r found)
  have "db_attempts d' = confirm_attempts now a (db_attempts d)" using confirm_owner_fields(1) [OF gate(4)] by simp
  then have "sql_count (\<lambda>r. ar_id r = at_id a \<and> ar_status r = AIncluded) (db_attempts d') = 0"
    by (auto simp: sql_count_0_iff dest: confirm_attempts_gate)
  then show "confirm_in_tx now' ev' a d' = Ok (d', Noop)" by (simp add: confirm_in_tx_def)
qed simp

text \<open>Settlement is idempotent. Once an inclusion has been applied, applying it again, with whatever
  receipt, clock and flags, changes nothing and says so; the same holds for a confirmation. So a retried
  settlement, or recovery deriving the same receipt again, cannot count gas twice or repeat a webhook.\<close>

theorem settlement_is_idempotent:
  "(settle_inclusion now ev1 ev2 a inc c re d = Ok (d', Applied) \<longrightarrow>
      settle_inclusion now' ev1' ev2' a inc' c' re' d' = Ok (d', Noop))
   \<and> (settle_confirmation now ev a d = Ok (d', Applied) \<longrightarrow> settle_confirmation now' ev' a d' = Ok (d', Noop))"
  by (intro conjI impI) (erule settle_inclusion_again, erule settle_confirmation_again)

theorem settlement_is_idempotent_witness:
  "settle_inclusion 6 402 403 demo_second demo_inclusion True True demo_db4 = Ok (demo_db4, Noop)"
  using settlement_is_idempotent [of 5 400 401 demo_second demo_inclusion False False demo_db3 demo_db4 6 402 403 demo_inclusion True True]
    demo_include by simp

section \<open>Fencing\<close>

lemma announce_epoch: "announce now ev_id p f ev re bkt d = Ok (d', found) \<Longrightarrow> db_epoch d' = db_epoch d"
  by (erule announceE) simp_all

lemma store_step_epoch: "store_step d d' \<Longrightarrow> db_epoch d \<le> db_epoch d'"
proof (induction rule: store_step.induct)
  case (lease d d' e)
  then show ?case by (auto simp: bump_epoch_def)
next
  case (ingest now jobs d d' out)
  then show ?case by (auto simp: insert_jobs_def split: if_splits sum.splits)
next
  case (requeue clock i d d' n)
  then show ?case by (auto simp: requeue_front_def Let_def split: option.splits)
next
  case (bind now epoch a kind d d')
  from bind(1) show ?case
    by (rule bind_attemptE)
      (auto dest!: claim_slot_fields(7) insert_attemptE(1) move_owner_fields(6))
next
  case (include_tx now ev1 ev2 a inc confirm_now re d d' s)
  from include_tx(1) show ?case
    by (cases rule: settle_inclusionE)
      (auto simp: include_owner_fields confirm_owner_fields split: if_splits elim!: confirm_in_txE)
next
  case (confirm_tx now ev a d d' s)
  from confirm_tx(1) show ?case unfolding settle_confirmation_def
    by (cases rule: confirm_in_txE) (auto simp: confirm_owner_fields)
next
  case (demote_tx now a d d' s)
  from demote_tx(1) show ?case by (cases rule: demote_inclusionE) auto
next
  case (void_tx now clock ev epoch a mode disp d d')
  then show ?case using void_owner_fields(5) [OF void_bindingE(2) [OF void_tx(1)]] by (simp add: release_nonce_def Let_def)
qed (auto simp: fail_job_def cancel_queued_def create_topup_def fail_topup_def fail_unbound_topups_def register_signer_def
    ensure_pair_def record_pause_def dead_letter_def update_inclusion_block_def claim_due_deliveries_def mark_delivered_def
    mark_delivery_failed_def defer_delivery_def redeliver_def Let_def announce_epoch
    split: if_splits option.splits slot_owner.splits attempt_purpose.splits)

text \<open>C3. A deposed leader can bind nothing. After an instance has taken the lease, and however many
  transactions of any instance commit after that, every bind and every void under an earlier epoch is
  refused as fenced, whatever its arguments, so it writes nothing and its caller may not broadcast.\<close>

theorem deposed_leader_is_fenced:
  assumes "bump_epoch d = (d1, mine)" "store_step\<^sup>*\<^sup>* d1 d2" "epoch < mine"
  shows "bind_attempt now epoch a kind d2 = Err (Fenced epoch)
    \<and> void_binding now clock ev epoch a mode disp d2 = Err (Fenced epoch)"
proof -
  have "db_epoch d1 \<le> db_epoch d2" using assms(2) by (induction rule: rtranclp_induct) (auto dest: store_step_epoch)
  moreover have "db_epoch d1 = mine" using assms(1) by (auto simp: bump_epoch_def)
  ultimately have "db_epoch d2 \<noteq> epoch" using assms(3) by simp
  then show ?thesis by (simp add: bind_attempt_def void_binding_def)
qed

theorem deposed_leader_is_fenced_witness:
  "bind_attempt 9 0 demo_first First (fst (bump_epoch demo_db1)) = Err (Fenced 0)"
  using deposed_leader_is_fenced [of demo_db1 "fst (bump_epoch demo_db1)" 1 "fst (bump_epoch demo_db1)" 0 9 demo_first First]
  by (simp add: bump_epoch_def demo_db1_def empty_db_def)

section \<open>Bound bytes survive\<close>

text \<open>A row that \<open>attempt_row\<close> accepts; the columns involved are never changed after the insert.\<close>

definition parses :: "attempt_rec \<Rightarrow> bool" where
  "parses r = ((ar_job_id r \<noteq> None \<or> ar_topup_id r \<noteq> None) \<and> 0 \<le> ar_max_fee_per_gas r \<and> ar_max_fee_per_gas r < 2 ^ 128
     \<and> 0 \<le> ar_max_priority_fee_per_gas r \<and> ar_max_priority_fee_per_gas r < 2 ^ 128 \<and> 0 \<le> ar_value r \<and> ar_value r < 2 ^ 256)"

lemma parses_row: "parses r \<Longrightarrow> \<exists>a. attempt_row r = Ok a"
  by (cases "ar_job_id r"; cases "ar_topup_id r") (simp_all add: parses_def attempt_row_def parse_u128_def parse_u256_def)

lemma parses_new: "parses (new_attempt_rec now a)"
  using unsigned_less [of "at_max_fee_per_gas a", where ?'a = int] unsigned_less [of "at_max_priority_fee_per_gas a", where ?'a = int]
    unsigned_less [of "at_value a", where ?'a = int]
  by (cases "at_owner a") (simp_all add: parses_def new_attempt_rec_def)

lemma parses_upd [simp]:
  "parses (r\<lparr>ar_status := s\<rparr>) = parses r" "parses (r\<lparr>ar_raw_tx := b\<rparr>) = parses r"
  "parses (r\<lparr>ar_updated_at := u\<rparr>) = parses r" "parses (r\<lparr>ar_block_number := n\<rparr>) = parses r"
  "parses (r\<lparr>ar_block_hash := h\<rparr>) = parses r" "parses (r\<lparr>ar_gas_used := g\<rparr>) = parses r"
  "parses (r\<lparr>ar_fee_paid := f\<rparr>) = parses r"
  by (simp_all add: parses_def)

lemma announce_attempts: "announce now ev_id p f ev re bkt d = Ok (d', found) \<Longrightarrow> db_attempts d' = db_attempts d"
  by (erule announceE) simp_all

lemma bind_attempts:
  assumes "bind_attempt now epoch a kind d = Ok d'"
  shows "db_attempts d' = db_attempts d @ [new_attempt_rec now a]"
  using assms
proof (rule bind_attemptE)
  fix d1 d2 d3
  assume c: "claim_slot now a kind d = Ok d1" and i: "insert_attempt now a d1 = Ok d2"
    and m: "move_owner now a kind d2 = (d3, 1)" and d': "d' = raise_hwm now a d3"
  show ?thesis using insert_attemptE(1) [OF i] by (simp add: d' move_owner_fields(1) [OF m] claim_slot_fields(1) [OF c])
qed

text \<open>What a transaction does to the table of attempts.\<close>

lemma store_step_attempts:
  assumes "store_step d d'"
  obtains (same) "db_attempts d' = db_attempts d"
  | (bound) now a where "db_attempts d' = db_attempts d @ [new_attempt_rec now a]"
  | (included) now a inc where "db_attempts d' = include_attempts now a inc (db_attempts d)"
  | (both) now a inc where "db_attempts d' = confirm_attempts now a (include_attempts now a inc (db_attempts d))"
  | (confirmed) now a where "db_attempts d' = confirm_attempts now a (db_attempts d)"
  | (moved) p n h now where "db_attempts d' = sql_update p (\<lambda>r. r\<lparr>ar_block_number := n, ar_block_hash := h, ar_updated_at := now\<rparr>) (db_attempts d)"
  | (demoted) p now where "db_attempts d' = sql_update p
      (\<lambda>r. r\<lparr>ar_status := ABroadcast, ar_block_number := None, ar_block_hash := None, ar_updated_at := now\<rparr>) (db_attempts d)"
  | (voided) now a where "db_attempts d' = void_attempts now a (db_attempts d)"
  using assms
proof cases
  case (ingest now jobs out)
  then show thesis by (intro same) (auto simp: insert_jobs_def split: if_splits sum.splits)
next
  case (requeue clock i n)
  then show thesis by (intro same) (auto simp: requeue_front_def Let_def split: option.splits)
next
  case (bind now epoch a kind)
  show thesis by (rule bound [OF bind_attempts [OF bind(1)]])
next
  case (include_tx now ev1 ev2 a inc confirm_now re s)
  from include_tx(1) show thesis
  proof (cases rule: settle_inclusionE)
    case (gate r d2)
    have d2: "db_attempts d2 = include_attempts now a inc (db_attempts d)" using include_owner_fields(1) [OF gate(5)] by simp
    have "db_attempts d' = db_attempts d2 \<or> db_attempts d' = confirm_attempts now a (db_attempts d2)"
      using gate(7) by (auto simp: confirm_owner_fields split: if_splits elim!: confirm_in_txE)
    with d2 show thesis using included both by metis
  qed (simp add: same)
next
  case (confirm_tx now ev a s)
  from confirm_tx(1) show thesis unfolding settle_confirmation_def
    by (cases rule: confirm_in_txE) (use same confirmed in \<open>auto simp: confirm_owner_fields\<close>)
next
  case (move_block a now bn bh rc)
  show thesis
    by (rule moved [of "\<lambda>r. ar_id r = at_id a \<and> ar_status r = AIncluded" now "Some bh" "Some (i64_of_u64 bn)"])
      (simp add: move_block update_inclusion_block_def Let_def split: slot_owner.splits attempt_purpose.splits)
next
  case (demote_tx now a s)
  from demote_tx(1) show thesis by (cases rule: demote_inclusionE) (use same demoted in auto)
next
  case (void_tx now clock ev epoch a mode disp)
  show thesis
    by (rule voided [of now a]) (use void_owner_fields(1) [OF void_bindingE(2) [OF void_tx(1)]] in \<open>simp add: release_nonce_def Let_def\<close>)
qed (rule same, auto simp: bump_epoch_def fail_job_def cancel_queued_def create_topup_def fail_topup_def fail_unbound_topups_def register_signer_def
    ensure_pair_def record_pause_def dead_letter_def claim_due_deliveries_def mark_delivered_def
    mark_delivery_failed_def defer_delivery_def redeliver_def Let_def announce_attempts
    split: if_splits option.splits)+

lemma store_reach_parses: "store_reach d \<Longrightarrow> \<forall>r\<in>set (db_attempts d). parses r"
proof (induction rule: store_reach.induct)
  case init
  then show ?case by (simp add: empty_db_def)
next
  case (step d d')
  from step(2) show ?case
    by (cases rule: store_step_attempts)
      (use step.IH in \<open>auto simp: parses_new include_attempts_def confirm_attempts_def void_attempts_def set_sql_update split: if_splits\<close>)
qed

lemma attempt_row_new:
  "attempt_row (new_attempt_rec now a) = Ok (a\<lparr>at_status := ABroadcast, at_block_number := None, at_block_hash := None,
     at_created_at := now\<rparr>)"
  by (cases "at_owner a") (simp_all add: attempt_row_def new_attempt_rec_def)

lemma collect_results_ex: "\<forall>x\<in>set xs. \<exists>a. f x = Ok a \<Longrightarrow> collect_results (map f xs) = Ok (map (\<lambda>x. projr (f x)) xs)"
  by (induction xs) auto

text \<open>C18. What was bound is what recovery rebroadcasts. After a committed bind, loading the live attempts
  of that chain and signer succeeds and returns the bound attempt with the same signed bytes, hash, fees,
  value, purpose and owner (only the creation time is the database's).\<close>

theorem bound_attempt_is_recovered:
  assumes "store_reach d" "bind_attempt now epoch a kind d = Ok d'" "may_bind a kind d"
  shows "\<exists>l. load_live_attempts_for (at_chain_id a) (at_signer a) d' = Ok l
     \<and> a\<lparr>at_status := ABroadcast, at_block_number := None, at_block_hash := None, at_created_at := now\<rparr> \<in> set l"
proof -
  let ?a = "a\<lparr>at_status := ABroadcast, at_block_number := None, at_block_hash := None, at_created_at := now\<rparr>"
  have "store_reach d'" using store_reach.step [OF assms(1) bind [OF assms(2,3)]] .
  then have all: "\<forall>r\<in>set (db_attempts d'). \<exists>x. attempt_row r = Ok x" using store_reach_parses parses_row by blast
  have mem: "new_attempt_rec now a \<in> set (db_attempts d')"
    using bind_attempts [OF assms(2)] by simp
  let ?rows = "sort_key (\<lambda>r. (ar_nonce r, ar_created_at r)) (filter (\<lambda>r. ar_chain_id r = i64_of_u64 (at_chain_id a)
     \<and> ar_signer r = at_signer a \<and> live_status (ar_status r)) (db_attempts d'))"
  have "load_live_attempts_for (at_chain_id a) (at_signer a) d' = Ok (map (\<lambda>r. projr (attempt_row r)) ?rows)"
    unfolding load_live_attempts_for_def by (rule collect_results_ex) (use all in auto)
  moreover have "new_attempt_rec now a \<in> set ?rows" using mem by (simp add: new_attempt_rec_def live_status_def)
  then have "?a \<in> set (map (\<lambda>r. projr (attempt_row r)) ?rows)" using attempt_row_new [of now a] by force
  ultimately show ?thesis by blast
qed

theorem bound_attempt_is_recovered_witness:
  "\<exists>l. load_live_attempts_for 1 9 demo_db3 = Ok l \<and> demo_second\<lparr>at_status := ABroadcast, at_block_number := None,
     at_block_hash := None, at_created_at := 4\<rparr> \<in> set l"
proof -
  have "at_chain_id demo_second = 1" "at_signer demo_second = 9" by (simp_all add: demo_defs)
  then show ?thesis
    using bound_attempt_is_recovered [OF demo_reach2 demo_bind3(1) demo_bind3(2)] by simp
qed

end
