(* ===== verification/Store_Books.thy ===== *)
theory Store_Books
  imports Store_Theorems
begin

text \<open>
  The books the store keeps beside the state of jobs: the cumulative gas ledger equals the sum over the
  mined attempts through any history of inclusions, re-orgs and re-inclusions, and the nonce high-water
  mark of a pair stays above every nonce slot it ever bound.
\<close>

section \<open>The gas ledger\<close>

definition att_gas_key :: "attempt_rec \<Rightarrow> int \<times> address \<times> attempt_purpose" where
  "att_gas_key r = (ar_chain_id r, ar_signer r, ar_purpose r)"

definition or_zero :: "int option \<Rightarrow> int" where
  "or_zero x = (case x of Some v \<Rightarrow> v | None \<Rightarrow> 0)"

text \<open>The sum of a column over the mined attempts of one ledger key.\<close>

definition contribution :: "(attempt_rec \<Rightarrow> int) \<Rightarrow> int \<times> address \<times> attempt_purpose \<Rightarrow> attempt_rec \<Rightarrow> int" where
  "contribution w k r = (if mined (ar_status r) \<and> att_gas_key r = k then w r else 0)"

definition mined_sum :: "(attempt_rec \<Rightarrow> int) \<Rightarrow> int \<times> address \<times> attempt_purpose \<Rightarrow> attempt_rec list \<Rightarrow> int" where
  "mined_sum w k t = sum_list (map (contribution w k) t)"

definition books_ok :: "db \<Rightarrow> bool" where
  "books_ok d = ((\<forall>k. gas_entry gl_tx_count k (db_gas d) = mined_sum (\<lambda>_. 1) k (db_attempts d)
       \<and> gas_entry gl_gas_used k (db_gas d) = mined_sum (\<lambda>r. or_zero (ar_gas_used r)) k (db_attempts d)
       \<and> gas_entry gl_fee_paid k (db_gas d) = mined_sum (\<lambda>r. or_zero (ar_fee_paid r)) k (db_attempts d))
     \<and> (\<forall>r\<in>set (db_attempts d). 0 \<le> or_zero (ar_gas_used r) \<and> 0 \<le> or_zero (ar_fee_paid r)))"

lemma booksD:
  assumes "books_ok d"
  shows "gas_entry gl_tx_count k (db_gas d) = mined_sum (\<lambda>_. 1) k (db_attempts d)"
    and "gas_entry gl_gas_used k (db_gas d) = mined_sum (\<lambda>r. or_zero (ar_gas_used r)) k (db_attempts d)"
    and "gas_entry gl_fee_paid k (db_gas d) = mined_sum (\<lambda>r. or_zero (ar_fee_paid r)) k (db_attempts d)"
  using assms unfolding books_ok_def by blast+

lemma booksI:
  assumes "\<And>k. gas_entry gl_tx_count k (db_gas d) = mined_sum (\<lambda>_. 1) k (db_attempts d)"
    and "\<And>k. gas_entry gl_gas_used k (db_gas d) = mined_sum (\<lambda>r. or_zero (ar_gas_used r)) k (db_attempts d)"
    and "\<And>k. gas_entry gl_fee_paid k (db_gas d) = mined_sum (\<lambda>r. or_zero (ar_fee_paid r)) k (db_attempts d)"
    and "\<forall>r\<in>set (db_attempts d). 0 \<le> or_zero (ar_gas_used r) \<and> 0 \<le> or_zero (ar_fee_paid r)"
  shows "books_ok d"
  using assms unfolding books_ok_def by blast

lemma mined_sum_update_same:
  "(\<And>r. r \<in> set t \<Longrightarrow> p r \<Longrightarrow> contribution w k (f r) = contribution w k r) \<Longrightarrow> mined_sum w k (sql_update p f t) = mined_sum w k t"
  by (induction t) (auto simp: mined_sum_def)

lemma mined_sum_ge:
  assumes "\<forall>r\<in>set t. 0 \<le> w r"
  shows "0 \<le> mined_sum w k t" "r \<in> set t \<Longrightarrow> contribution w k r \<le> mined_sum w k t"
proof -
  have nn: "\<forall>x\<in>set (map (contribution w k) t). 0 \<le> x" using assms by (auto simp: contribution_def)
  then show "0 \<le> mined_sum w k t" unfolding mined_sum_def by (intro sum_list_nonneg) blast
  show "r \<in> set t \<Longrightarrow> contribution w k r \<le> mined_sum w k t"
    unfolding mined_sum_def using nn by (intro member_le_sum_list) auto
qed

lemma mined_sum_one:
  assumes "distinct (map ar_id t)" "r \<in> set t" "ar_id r = i" "q r"
  shows "mined_sum w k (sql_update (\<lambda>r. ar_id r = i \<and> q r) f t) = mined_sum w k t - contribution w k r + contribution w k (f r)"
  unfolding mined_sum_def by (rule sum_list_sql_update_one [OF assms(1,2)]) (use assms in auto)

lemma contribution_upd:
  "\<not> mined (ar_status r) \<Longrightarrow> contribution w k r = 0"
  by (simp add: contribution_def)

text \<open>Steps that leave both the ledger and every mined contribution alone.\<close>

lemma books_frame:
  assumes "books_ok d" "db_gas d' = db_gas d"
    and "\<And>w k. w \<in> {\<lambda>_. 1, \<lambda>r. or_zero (ar_gas_used r), \<lambda>r. or_zero (ar_fee_paid r)} \<Longrightarrow>
       mined_sum w k (db_attempts d') = mined_sum w k (db_attempts d)"
    and "\<forall>r'\<in>set (db_attempts d'). 0 \<le> or_zero (ar_gas_used r') \<and> 0 \<le> or_zero (ar_fee_paid r')"
  shows "books_ok d'"
  using assms by (simp add: books_ok_def)

lemma books_confirm_attempts:
  assumes "w \<in> {\<lambda>_. 1, \<lambda>r. or_zero (ar_gas_used r), \<lambda>r. or_zero (ar_fee_paid r)}"
  shows "mined_sum w k (confirm_attempts now a t) = mined_sum w k t"
proof -
  have "mined_sum w k (confirm_attempts now a t) = mined_sum w k (sql_update (\<lambda>r. ar_id r = at_id a \<and> ar_status r = AIncluded)
      (\<lambda>r. r\<lparr>ar_status := AConfirmed, ar_raw_tx := None, ar_updated_at := now\<rparr>) t)"
    unfolding confirm_attempts_def by (rule mined_sum_update_same) (simp add: contribution_def)
  also have "\<dots> = mined_sum w k t"
    by (rule mined_sum_update_same) (use assms in \<open>auto simp: contribution_def att_gas_key_def\<close>)
  finally show ?thesis .
qed

lemma books_include_attempts:
  assumes "distinct (map ar_id t)" "r \<in> set t" "ar_id r = at_id a" "ar_status r = ABroadcast" "att_key r = key_of a"
    and "w \<in> {\<lambda>_. 1, \<lambda>r. or_zero (ar_gas_used r), \<lambda>r. or_zero (ar_fee_paid r)}"
  shows "mined_sum w k (include_attempts now a inc t) = mined_sum w k t
     + (if k = att_gas_key r then w (r\<lparr>ar_gas_used := Some (uint (inc_gas_used inc)), ar_fee_paid := Some (uint (inc_fee_paid inc))\<rparr>) else 0)"
proof -
  let ?f = "\<lambda>r. r\<lparr>ar_status := AIncluded, ar_block_number := Some (i64_of_u64 (inc_block_number inc)),
     ar_block_hash := Some (inc_block_hash inc), ar_gas_used := Some (uint (inc_gas_used inc)),
     ar_fee_paid := Some (uint (inc_fee_paid inc)), ar_updated_at := now\<rparr>"
  have "mined_sum w k (include_attempts now a inc t) = mined_sum w k (sql_update (\<lambda>r. ar_id r = at_id a \<and> ar_status r = ABroadcast) ?f t)"
    unfolding include_attempts_def by (rule mined_sum_update_same) (simp add: contribution_def)
  also have "\<dots> = mined_sum w k t - contribution w k r + contribution w k (?f r)"
    by (rule mined_sum_one [OF assms(1,2,3)]) (use assms(4) in simp)
  also have "contribution w k r = 0" using assms(4) by (simp add: contribution_def)
  finally show ?thesis using assms(6) by (auto simp: contribution_def att_gas_key_def)
qed

lemma books_gate_inclusion:
  assumes "books_ok d" "keys_ok d" "r \<in> set (db_attempts d)" "matches r a" "ar_status r = ABroadcast"
    "db_attempts d' = include_attempts now a inc (db_attempts d)"
    "db_gas d' = add_gas (at_chain_id a) (at_signer a) (at_purpose a) 1 (uint (inc_gas_used inc)) (uint (inc_fee_paid inc)) (db_gas d)"
  shows "books_ok d'"
proof -
  have m: "ar_id r = at_id a" "att_key r = key_of a" "ar_purpose r = at_purpose a" using assms(4) by (simp_all add: matches_def)
  have k: "att_gas_key r = (i64_of_u64 (at_chain_id a), at_signer a, at_purpose a)"
    using m(2,3) by (simp add: att_gas_key_def att_key_def key_of_def)
  have dist: "distinct (map ar_id (db_attempts d))" using assms(2) by (simp add: keys_ok_def)
  note inc = books_include_attempts [OF dist assms(3) m(1) assms(5) m(2)]
  have nn: "\<forall>r\<in>set (db_attempts d). 0 \<le> or_zero (ar_gas_used r)" "\<forall>r\<in>set (db_attempts d). 0 \<le> or_zero (ar_fee_paid r)"
    using assms(1) by (auto simp: books_ok_def)
  have ge: "0 \<le> gas_entry gl_tx_count x (db_gas d)" "0 \<le> gas_entry gl_gas_used x (db_gas d)" "0 \<le> gas_entry gl_fee_paid x (db_gas d)" for x
    using mined_sum_ge(1) [of "db_attempts d" "\<lambda>_. 1"] mined_sum_ge(1) [OF nn(1)] mined_sum_ge(1) [OF nn(2)]
    by (simp_all add: booksD [OF assms(1)])
  note ag = gas_entry_add_gas [of "at_chain_id a" "at_signer a" "at_purpose a" "db_gas d" 1 "uint (inc_gas_used inc)" "uint (inc_fee_paid inc)"]
  have "\<forall>r\<in>set (db_attempts d'). 0 \<le> or_zero (ar_gas_used r) \<and> 0 \<le> or_zero (ar_fee_paid r)"
    unfolding assms(6) using nn by (auto simp: include_attempts_def set_sql_update or_zero_def split: if_splits)
  moreover have "gas_entry gl_tx_count x (db_gas d') = mined_sum (\<lambda>_. 1) x (db_attempts d')" for x
    unfolding assms(6,7) using ag(1) [of x] ge inc [of "\<lambda>_. 1" x now inc] k by (simp add: booksD [OF assms(1)])
  moreover have "gas_entry gl_gas_used x (db_gas d') = mined_sum (\<lambda>r. or_zero (ar_gas_used r)) x (db_attempts d')" for x
    unfolding assms(6,7) using ag(2) [of x] ge inc [of "\<lambda>r. or_zero (ar_gas_used r)" x now inc] k
    by (simp add: booksD [OF assms(1)] or_zero_def)
  moreover have "gas_entry gl_fee_paid x (db_gas d') = mined_sum (\<lambda>r. or_zero (ar_fee_paid r)) x (db_attempts d')" for x
    unfolding assms(6,7) using ag(3) [of x] ge inc [of "\<lambda>r. or_zero (ar_fee_paid r)" x now inc] k
    by (simp add: booksD [OF assms(1)] or_zero_def)
  ultimately show ?thesis by (intro booksI)
qed

lemma books_demote:
  assumes "books_ok d" "keys_ok d" "r \<in> set (db_attempts d)" "matches r a" "ar_status r = AIncluded"
    "db_attempts d' = sql_update (\<lambda>r. ar_id r = at_id a \<and> ar_status r = AIncluded)
         (\<lambda>r. r\<lparr>ar_status := ABroadcast, ar_block_number := None, ar_block_hash := None, ar_updated_at := now\<rparr>) (db_attempts d)"
    "db_gas d' = add_gas (at_chain_id a) (at_signer a) (at_purpose a) (- 1) (- or_zero (ar_gas_used r)) (- or_zero (ar_fee_paid r)) (db_gas d)"
  shows "books_ok d'"
proof -
  have m: "ar_id r = at_id a" using assms(4) by (simp add: matches_def)
  let ?k = "(i64_of_u64 (at_chain_id a), at_signer a, at_purpose a)"
  have k: "att_gas_key r = ?k" using assms(4) by (simp add: matches_def att_gas_key_def att_key_def key_of_def)
  have dist: "distinct (map ar_id (db_attempts d))" using assms(2) by (simp add: keys_ok_def)
  have nn: "\<forall>r\<in>set (db_attempts d). 0 \<le> or_zero (ar_gas_used r)" "\<forall>r\<in>set (db_attempts d). 0 \<le> or_zero (ar_fee_paid r)"
    using assms(1) by (auto simp: books_ok_def)
  have sum: "mined_sum w x (db_attempts d') = mined_sum w x (db_attempts d) - (if x = ?k then w r else 0)" for w x
    unfolding assms(6) using mined_sum_one [OF dist assms(3) m, of "\<lambda>r. ar_status r = AIncluded" w x] assms(5) k
    by (simp add: contribution_def)
  have "contribution w ?k r = w r" for w using assms(5) k by (simp add: contribution_def)
  then have ge: "1 \<le> gas_entry gl_tx_count ?k (db_gas d)" "or_zero (ar_gas_used r) \<le> gas_entry gl_gas_used ?k (db_gas d)"
    "or_zero (ar_fee_paid r) \<le> gas_entry gl_fee_paid ?k (db_gas d)"
    using assms(3) mined_sum_ge(2) [of "db_attempts d" "\<lambda>_. 1" r ?k] mined_sum_ge(2) [OF nn(1), of r ?k] mined_sum_ge(2) [OF nn(2), of r ?k]
    by (simp_all add: booksD [OF assms(1)])
  note ag = gas_entry_add_gas [of "at_chain_id a" "at_signer a" "at_purpose a" "db_gas d" "- 1" "- or_zero (ar_gas_used r)" "- or_zero (ar_fee_paid r)"]
  have "\<forall>r\<in>set (db_attempts d'). 0 \<le> or_zero (ar_gas_used r) \<and> 0 \<le> or_zero (ar_fee_paid r)"
    unfolding assms(6) using nn by (auto simp: set_sql_update)
  moreover have "gas_entry gl_tx_count x (db_gas d') = mined_sum (\<lambda>_. 1) x (db_attempts d')" for x
    unfolding sum assms(7) using ag(1) [of x] ge by (simp add: booksD [OF assms(1)])
  moreover have "gas_entry gl_gas_used x (db_gas d') = mined_sum (\<lambda>r. or_zero (ar_gas_used r)) x (db_attempts d')" for x
    unfolding sum assms(7) using ag(2) [of x] ge by (simp add: booksD [OF assms(1)])
  moreover have "gas_entry gl_fee_paid x (db_gas d') = mined_sum (\<lambda>r. or_zero (ar_fee_paid r)) x (db_attempts d')" for x
    unfolding sum assms(7) using ag(3) [of x] ge by (simp add: booksD [OF assms(1)])
  ultimately show ?thesis by (intro booksI)
qed

lemma announce_gas: "announce now ev_id p f ev re bkt d = Ok (d', found) \<Longrightarrow> db_gas d' = db_gas d"
  by (erule announceE) simp_all

lemma confirm_in_tx_books:
  assumes "confirm_in_tx now ev a d = Ok (d', s)" "books_ok d"
  shows "books_ok d'"
  using assms(1)
proof (cases rule: confirm_in_txE)
  case (gate r found)
  have d': "db_attempts d' = confirm_attempts now a (db_attempts d)" "db_gas d' = db_gas d"
    using confirm_owner_fields [OF gate(4)] by simp_all
  have "\<forall>r\<in>set (db_attempts d). 0 \<le> or_zero (ar_gas_used r) \<and> 0 \<le> or_zero (ar_fee_paid r)"
    using assms(2) by (simp add: books_ok_def)
  then have "\<forall>r\<in>set (db_attempts d'). 0 \<le> or_zero (ar_gas_used r) \<and> 0 \<le> or_zero (ar_fee_paid r)"
    unfolding d' by (auto simp: confirm_attempts_def set_sql_update)
  then show ?thesis by (intro books_frame [OF assms(2) d'(2)]) (simp_all only: d'(1) books_confirm_attempts)
qed (use assms in simp)

lemma books_step:
  assumes "store_step d d'" "keys_ok d" "books_ok d"
  shows "books_ok d'"
proof -
  have same: "books_ok d'" if "db_attempts d' = db_attempts d" "db_gas d' = db_gas d" for d'
    using assms(3) that by (simp add: books_ok_def)
  have nn: "\<forall>r\<in>set (db_attempts d). 0 \<le> or_zero (ar_gas_used r) \<and> 0 \<le> or_zero (ar_fee_paid r)"
    using assms(3) by (simp add: books_ok_def)
  show ?thesis using assms(1)
  proof cases
    case (ingest now jobs out)
    then show ?thesis by (intro same) (auto simp: insert_jobs_def split: if_splits sum.splits)
  next
    case (requeue clock i n)
    then show ?thesis by (intro same) (auto simp: requeue_front_def Let_def split: option.splits)
  next
    case (bind now epoch a kind)
    note at = bind_attempts [OF bind(1)]
    from bind(1) have gas: "db_gas d' = db_gas d"
      by (rule bind_attemptE) (auto dest!: claim_slot_fields(5) insert_attemptE(1) move_owner_fields(4))
    show ?thesis
      by (rule books_frame [OF assms(3) gas]) (use nn in \<open>auto simp: at mined_sum_def contribution_def new_attempt_rec_def or_zero_def\<close>)
  next
    case (include_tx now ev1 ev2 a inc confirm_now re s)
    from include_tx(1) show ?thesis
    proof (cases rule: settle_inclusionE)
      case (gate r d2)
      have m: "matches r a" using include_tx(2) gate(1,2) by (simp add: faithful_def)
      have "books_ok d2"
        by (rule books_gate_inclusion [OF assms(3,2) gate(1) m gate(3)]) (use include_owner_fields [OF gate(5)] in simp_all)
      then show ?thesis using gate(7) confirm_in_tx_books by (auto split: if_splits)
    qed (use assms(3) in simp)
  next
    case (confirm_tx now ev a s)
    then show ?thesis using confirm_in_tx_books assms(3) by (auto simp: settle_confirmation_def)
  next
    case (move_block a now bn bh rc)
    have at: "db_attempts d' = sql_update (\<lambda>r. ar_id r = at_id a \<and> ar_status r = AIncluded)
        (\<lambda>r. r\<lparr>ar_block_number := Some (i64_of_u64 bn), ar_block_hash := Some bh, ar_updated_at := now\<rparr>) (db_attempts d)"
      and gas: "db_gas d' = db_gas d"
      by (simp_all add: move_block update_inclusion_block_def Let_def split: slot_owner.splits attempt_purpose.splits)
    show ?thesis
    proof (rule books_frame [OF assms(3) gas])
      fix w :: "attempt_rec \<Rightarrow> int" and k assume "w \<in> {\<lambda>_. 1, \<lambda>r. or_zero (ar_gas_used r), \<lambda>r. or_zero (ar_fee_paid r)}"
      then show "mined_sum w k (db_attempts d') = mined_sum w k (db_attempts d)"
        unfolding at by (intro mined_sum_update_same) (auto simp: contribution_def att_gas_key_def)
    qed (use nn in \<open>auto simp: at set_sql_update\<close>)
  next
    case (demote_tx now a s)
    from demote_tx(1) show ?thesis
    proof (cases rule: demote_inclusionE)
      case (gate r)
      have m: "matches r a" using demote_tx(2) gate(1,2) by (simp add: faithful_def)
      show ?thesis by (rule books_demote [OF assms(3,2) gate(1) m gate(3,5)]) (simp add: gate(6) or_zero_def)
    qed (use assms(3) in simp)
  next
    case (void_tx now clock ev epoch a mode disp)
    note vo = void_bindingE(2) [OF void_tx(1)]
    have at: "db_attempts d' = void_attempts now a (db_attempts d)" and gas: "db_gas d' = db_gas d"
      using void_owner_fields [OF vo] by (simp_all add: release_nonce_def Let_def)
    show ?thesis
    proof (rule books_frame [OF assms(3) gas])
      fix w :: "attempt_rec \<Rightarrow> int" and k show "mined_sum w k (db_attempts d') = mined_sum w k (db_attempts d)"
        unfolding at void_attempts_def by (rule mined_sum_update_same) (simp add: contribution_def)
    qed (use nn in \<open>auto simp: at void_attempts_def set_sql_update\<close>)
  qed (rule same, auto simp: bump_epoch_def fail_job_def cancel_queued_def create_topup_def fail_topup_def fail_unbound_topups_def
      register_signer_def ensure_pair_def record_pause_def dead_letter_def claim_due_deliveries_def mark_delivered_def
      mark_delivery_failed_def defer_delivery_def redeliver_def Let_def announce_attempts announce_gas split: if_splits option.splits)+
qed

lemma store_reach_books: "store_reach d \<Longrightarrow> books_ok d"
proof (induction rule: store_reach.induct)
  case init
  show ?case by (rule booksI) (simp_all add: empty_db_def gas_entry_def mined_sum_def)
next
  case (step d d')
  then show ?case using books_step store_reach_inv by blast
qed

text \<open>C17. The gas ledger is exact. In every reachable database, for every chain, signer and purpose, the
  ledger's transaction count, gas and fees are the sums over the attempts recorded as included or
  confirmed: a re-org takes back exactly what its inclusion added, retries add nothing, and the clamps
  at zero in the ledger's statement never take effect.\<close>

theorem gas_ledger_is_exact:
  assumes "store_reach d"
  shows "gas_entry gl_tx_count k (db_gas d) = mined_sum (\<lambda>_. 1) k (db_attempts d)
    \<and> gas_entry gl_gas_used k (db_gas d) = mined_sum (\<lambda>r. or_zero (ar_gas_used r)) k (db_attempts d)
    \<and> gas_entry gl_fee_paid k (db_gas d) = mined_sum (\<lambda>r. or_zero (ar_fee_paid r)) k (db_attempts d)"
  using booksD [OF store_reach_books [OF assms]] by blast

theorem gas_ledger_is_exact_witness:
  "gas_entry gl_fee_paid (1, 9, PJob) (db_gas demo_db4) = 252000
   \<and> mined_sum (\<lambda>r. or_zero (ar_fee_paid r)) (1, 9, PJob) (db_attempts demo_db4) = 252000"
  using gas_ledger_is_exact [OF demo_reach4, of "(1, 9, PJob)"]
  by (simp add: demo_db4_def gas_entry_def gas_key_def)

section \<open>The nonce high-water mark\<close>

definition hwm_ok :: "db \<Rightarrow> bool" where
  "hwm_ok d = (\<forall>s\<in>set (db_slots d). 0 \<le> sl_nonce s \<and>
     (\<exists>p\<in>set (db_pairs d). pair_key_rec p = (sl_chain_id s, sl_signer s) \<and> (\<exists>h. pr_nonce_hwm p = Some h \<and> sl_nonce s \<le> h)))"

lemma hwm_frame:
  assumes "hwm_ok d" "db_slots d' = db_slots d"
    and "\<And>p. p \<in> set (db_pairs d) \<Longrightarrow> \<exists>p'\<in>set (db_pairs d'). pair_key_rec p' = pair_key_rec p \<and> pr_nonce_hwm p' = pr_nonce_hwm p"
  shows "hwm_ok d'"
  using assms unfolding hwm_ok_def by (metis (no_types, lifting))

lemma pairs_updated:
  "(\<And>p. pair_key_rec (f p) = pair_key_rec p) \<Longrightarrow> (\<And>p. pr_nonce_hwm (f p) = pr_nonce_hwm p) \<Longrightarrow> p \<in> set t \<Longrightarrow>
   \<exists>p'\<in>set (sql_update q f t). pair_key_rec p' = pair_key_rec p \<and> pr_nonce_hwm p' = pr_nonce_hwm p"
  unfolding set_sql_update by (rule bexI [OF _ imageI]) auto

lemma pair_key_upd [simp]:
  "pair_key_rec (p\<lparr>pr_nonce_hwm := h\<rparr>) = pair_key_rec p" "pair_key_rec (p\<lparr>pr_updated_at := u\<rparr>) = pair_key_rec p"
  by (simp_all add: pair_key_rec_def)

lemma hwm_bind:
  assumes "bind_attempt now epoch a kind d = Ok d'" "may_bind a kind d" "hwm_ok d"
  shows "hwm_ok d'"
  using assms(1)
proof (rule bind_attemptE)
  fix d1 d2 d3
  assume c: "claim_slot now a kind d = Ok d1" and i: "insert_attempt now a d1 = Ok d2"
    and m: "move_owner now a kind d2 = (d3, 1)" and d': "d' = raise_hwm now a d3"
  let ?n = "i64_of_u64 (at_nonce a)"
  let ?q = "\<lambda>p. pair_key_rec p = (i64_of_u64 (at_chain_id a), at_signer a)"
  let ?f = "\<lambda>p. p\<lparr>pr_nonce_hwm := Some (max (case pr_nonce_hwm p of Some h \<Rightarrow> h | None \<Rightarrow> - 1) ?n), pr_updated_at := now\<rparr>"
  have n: "0 \<le> ?n" using assms(2) by (simp add: may_bind_def i64_of_small)
  have slots: "db_slots d' = db_slots d1" using insert_attemptE(1) [OF i] by (simp add: d' move_owner_fields(2) [OF m])
  have pairs: "db_pairs d' = sql_update ?q ?f (db_pairs d)"
    using insert_attemptE(1) [OF i] by (simp add: d' raise_hwm_def move_owner_fields(3) [OF m] claim_slot_fields(4) [OF c])
  have up: "\<exists>p'\<in>set (db_pairs d'). pair_key_rec p' = pair_key_rec p \<and> (\<exists>h'. pr_nonce_hwm p' = Some h' \<and> h \<le> h')"
    if "p \<in> set (db_pairs d)" "pr_nonce_hwm p = Some h" for p h
    using that unfolding pairs set_sql_update by (intro bexI [OF _ imageI [OF that(1)]]) auto
  have own: "\<exists>p'\<in>set (db_pairs d'). ?q p' \<and> (\<exists>h'. pr_nonce_hwm p' = Some h' \<and> ?n \<le> h')"
  proof -
    from assms(2) obtain p where p: "p \<in> set (db_pairs d)" "?q p" by (auto simp: may_bind_def has_pair_def)
    then have "?f p \<in> set (db_pairs d')" unfolding pairs set_sql_update by (intro image_eqI [OF _ p(1)]) simp
    then show ?thesis using p(2) by (intro bexI [of _ "?f p"]) simp_all
  qed
  have old: "0 \<le> sl_nonce s \<and> (\<exists>p\<in>set (db_pairs d'). pair_key_rec p = (sl_chain_id s, sl_signer s) \<and> (\<exists>h. pr_nonce_hwm p = Some h \<and> sl_nonce s \<le> h))"
    if "s \<in> set (db_slots d)" for s
  proof -
    from assms(3) that obtain p h where "p \<in> set (db_pairs d)" "pair_key_rec p = (sl_chain_id s, sl_signer s)"
      "pr_nonce_hwm p = Some h" "sl_nonce s \<le> h" "0 \<le> sl_nonce s" unfolding hwm_ok_def by blast
    with up [of p h] show ?thesis by fastforce
  qed
  have "s \<in> set (db_slots d) \<or> (sl_chain_id s = i64_of_u64 (at_chain_id a) \<and> sl_signer s = at_signer a \<and> sl_nonce s = ?n)"
    if "s \<in> set (db_slots d')" for s
    using that c unfolding slots by (auto simp: claim_slot_def Let_def split: if_splits option.splits)
  with old own n show "hwm_ok d'" unfolding hwm_ok_def by fastforce
qed

lemma hwm_void:
  assumes "void_binding now clock ev epoch a mode disp d = Ok d'" "may_void a d" "keys_ok d" "pinv (protocol_of d)" "hwm_ok d"
  shows "hwm_ok d'"
proof (cases "mode = NonceUnused")
  case False
  note f = void_owner_fields [OF void_bindingE(2) [OF assms(1)]]
  show ?thesis by (rule hwm_frame [OF assms(5)]) (use False f in auto)
next
  case True
  let ?n = "i64_of_u64 (at_nonce a)"
  let ?q = "\<lambda>p. pair_key_rec p = (i64_of_u64 (at_chain_id a), at_signer a) \<and> pr_nonce_hwm p = Some ?n"
  let ?f = "\<lambda>p. p\<lparr>pr_nonce_hwm := (if ?n = 0 then None else Some (?n - 1)), pr_updated_at := now\<rparr>"
  note f = void_owner_fields [OF void_bindingE(2) [OF assms(1)]]
  have slots: "db_slots d' = sql_delete (\<lambda>s. slot_key s = key_of a \<and> sl_owner_id s = owner_id (at_owner a)) (db_slots d)"
    and pairs: "db_pairs d' = sql_update ?q ?f (db_pairs d)"
    using f(2,3) True by (simp_all add: release_nonce_def Let_def)
  from assms(2) obtain r where r: "r \<in> set (db_attempts d)" "matches r a" "ar_status r = ABroadcast" by (auto simp: may_void_def)
  have "p_att (protocol_of d) (ar_id r) = Some (att_of r)"
    using tab_view_row [of ar_id "db_attempts d" r att_of] r(1) assms(3) by (simp add: keys_ok_def)
  then have "tab_view slot_key slot_owner_of (db_slots d) (key_of a) = Some (at_owner a)"
    using slotD [of "protocol_of d" "ar_id r" "att_of r"] assms(4) r(2,3) by (simp add: pinv_def matches_def)
  then obtain s0 where s0: "s0 \<in> set (db_slots d)" "slot_key s0 = key_of a" "slot_owner_of s0 = at_owner a" using tab_view_Some_ex by metis
  have sid: "sl_owner_id s0 = owner_id (at_owner a)" unfolding s0(3) [symmetric] by (simp add: slot_owner_of_def)
  have gone: "slot_key s \<noteq> key_of a" if "s \<in> set (db_slots d')" for s
  proof
    assume k: "slot_key s = key_of a"
    from that have "s \<in> set (db_slots d)" unfolding slots by (simp add: sql_delete_def)
    with s0(1,2) k assms(3) have "s = s0" by (auto simp: keys_ok_def dest: distinct_map_inj)
    with that sid k show False unfolding slots by (simp add: sql_delete_def)
  qed
  show ?thesis unfolding hwm_ok_def
  proof
    fix s assume s: "s \<in> set (db_slots d')"
    then have "s \<in> set (db_slots d)" unfolding slots by (simp add: sql_delete_def)
    with assms(5) obtain p h where p: "p \<in> set (db_pairs d)" "pair_key_rec p = (sl_chain_id s, sl_signer s)"
      "pr_nonce_hwm p = Some h" "sl_nonce s \<le> h" "0 \<le> sl_nonce s" unfolding hwm_ok_def by blast
    let ?p = "if ?q p then ?f p else p"
    have mem: "?p \<in> set (db_pairs d')" unfolding pairs set_sql_update using imageI [OF p(1), of "\<lambda>p. if ?q p then ?f p else p"] .
    have "sl_nonce s \<noteq> ?n" if "?q p" using gone [OF s] p(2) that by (auto simp: slot_key_def key_of_def)
    then have "\<exists>h'. pr_nonce_hwm ?p = Some h' \<and> sl_nonce s \<le> h'" using p(3-5) by auto
    moreover have "pair_key_rec ?p = (sl_chain_id s, sl_signer s)" using p(2) by simp
    ultimately show "0 \<le> sl_nonce s \<and> (\<exists>p\<in>set (db_pairs d'). pair_key_rec p = (sl_chain_id s, sl_signer s)
        \<and> (\<exists>h. pr_nonce_hwm p = Some h \<and> sl_nonce s \<le> h))" using mem p(5) by blast
  qed
qed

lemma announce_slots: "announce now ev_id p f ev re bkt d = Ok (d', found) \<Longrightarrow> db_slots d' = db_slots d \<and> db_pairs d' = db_pairs d"
  by (erule announceE) simp_all

lemma confirm_in_tx_slots: "confirm_in_tx now ev a d = Ok (d', s) \<Longrightarrow> db_slots d' = db_slots d \<and> db_pairs d' = db_pairs d"
  by (erule confirm_in_txE) (auto dest: confirm_owner_fields)

lemma hwm_step:
  assumes "store_step d d'" "keys_ok d" "pinv (protocol_of d)" "hwm_ok d"
  shows "hwm_ok d'"
proof -
  have same: "hwm_ok d'" if "db_slots d' = db_slots d" "db_pairs d' = db_pairs d" for d'
    using assms(4) that by (simp add: hwm_ok_def)
  show ?thesis using assms(1)
  proof cases
    case (ingest now jobs out)
    then show ?thesis by (intro same) (auto simp: insert_jobs_def split: if_splits sum.splits)
  next
    case (requeue clock i n)
    then show ?thesis by (intro same) (auto simp: requeue_front_def Let_def split: option.splits)
  next
    case (pair now chain signer role pr)
    have "db_slots d' = db_slots d" using pair by (auto simp: ensure_pair_def Let_def split: option.splits)
    moreover have "\<exists>p'\<in>set (db_pairs d'). pair_key_rec p' = pair_key_rec p \<and> pr_nonce_hwm p' = pr_nonce_hwm p"
      if "p \<in> set (db_pairs d)" for p
      using pair that pairs_updated [of "\<lambda>p. p\<lparr>pr_role := role\<rparr>" p "db_pairs d"]
      by (auto simp: ensure_pair_def Let_def pair_key_rec_def split: option.splits)
    ultimately show ?thesis by (rule hwm_frame [OF assms(4)])
  next
    case (pause now chain signer pz manual)
    show ?thesis
    proof (rule hwm_frame [OF assms(4)])
      fix p assume "p \<in> set (db_pairs d)"
      then show "\<exists>p'\<in>set (db_pairs d'). pair_key_rec p' = pair_key_rec p \<and> pr_nonce_hwm p' = pr_nonce_hwm p"
        unfolding pause record_pause_def by (simp, intro pairs_updated) (simp_all add: pair_key_rec_def)
    qed (simp add: pause record_pause_def)
  next
    case (bind now epoch a kind)
    then show ?thesis using hwm_bind assms(4) by blast
  next
    case (include_tx now ev1 ev2 a inc confirm_now re s)
    from include_tx(1) show ?thesis
    proof (cases rule: settle_inclusionE)
      case (gate r d2)
      have "db_slots d2 = db_slots d" "db_pairs d2 = db_pairs d" using include_owner_fields [OF gate(5)] by simp_all
      moreover have "db_slots d' = db_slots d2 \<and> db_pairs d' = db_pairs d2"
        using gate(7) by (auto dest: confirm_in_tx_slots split: if_splits)
      ultimately show ?thesis by (intro same) simp_all
    qed (use assms(4) in simp)
  next
    case (confirm_tx now ev a s)
    then show ?thesis using confirm_in_tx_slots by (intro same) (auto simp: settle_confirmation_def)
  next
    case (move_block a now bn bh rc)
    show ?thesis
      by (rule same) (simp_all add: move_block update_inclusion_block_def Let_def split: slot_owner.splits attempt_purpose.splits)
  next
    case (demote_tx now a s)
    from demote_tx(1) show ?thesis by (cases rule: demote_inclusionE) (auto intro: same)
  next
    case (void_tx now clock ev epoch a mode disp)
    then show ?thesis using hwm_void assms(2-4) by blast
  qed (rule same, auto simp: bump_epoch_def fail_job_def cancel_queued_def create_topup_def fail_topup_def fail_unbound_topups_def
      register_signer_def dead_letter_def claim_due_deliveries_def mark_delivered_def
      mark_delivery_failed_def defer_delivery_def redeliver_def Let_def announce_slots split: if_splits option.splits)+
qed

lemma store_reach_hwm: "store_reach d \<Longrightarrow> hwm_ok d"
proof (induction rule: store_reach.induct)
  case init
  show ?case by (simp add: hwm_ok_def empty_db_def)
next
  case (step d d')
  then show ?case using hwm_step store_reach_inv by blast
qed

lemma slot_free_above_mark:
  assumes "store_reach d" "p \<in> set (db_pairs d)" "pair_key_rec p = (c, sg)" "\<forall>h. pr_nonce_hwm p = Some h \<longrightarrow> h < n"
    and s: "s \<in> set (db_slots d)"
  shows "slot_key s \<noteq> (c, sg, n)"
proof
  assume k: "slot_key s = (c, sg, n)"
  from store_reach_hwm [OF assms(1)] s obtain p' h where p': "p' \<in> set (db_pairs d)" "pair_key_rec p' = (sl_chain_id s, sl_signer s)"
    "pr_nonce_hwm p' = Some h" "sl_nonce s \<le> h" unfolding hwm_ok_def by blast
  have "pair_key_rec p' = pair_key_rec p" using p'(2) assms(3) k by (simp add: slot_key_def)
  then have "p' = p" using store_reach_inv [OF assms(1)] p'(1) assms(2) by (auto simp: keys_ok_def dest: distinct_map_inj)
  with assms(4) p'(3,4) k show False by (auto simp: slot_key_def)
qed

text \<open>C19. A nonce above a pair's high-water mark is free. In every reachable database, binding a first
  attempt of a registered pair at a nonce above the mark (any nonce, when there is no mark) never fails
  because the slot is taken, so the pair's next nonce after a restart, one above the mark, can be bound.\<close>

theorem nonce_above_mark_is_free:
  assumes "store_reach d" "p \<in> set (db_pairs d)" "pair_key_rec p = (i64_of_u64 (at_chain_id a), at_signer a)"
    and "\<forall>h. pr_nonce_hwm p = Some h \<longrightarrow> h < i64_of_u64 (at_nonce a)"
  shows "(\<forall>s\<in>set (db_slots d). slot_key s \<noteq> key_of a) \<and> bind_attempt now epoch a First d \<noteq> Err (NonceSlotTaken c sg n)"
proof -
  have free: "\<forall>s\<in>set (db_slots d). slot_key s \<noteq> key_of a"
    using slot_free_above_mark [OF assms] by (simp add: key_of_def)
  then have "find (\<lambda>s. slot_key s = key_of a) (db_slots d) = None" by (simp add: find_None_ball)
  then obtain d1 where "claim_slot now a First d = Ok d1" by (simp add: claim_slot_def)
  then have "bind_attempt now epoch a First d \<noteq> Err (NonceSlotTaken c sg n)"
    by (auto simp: bind_attempt_def insert_attempt_def unique_violation_def foreign_key_violation_def Let_def split: prod.splits if_splits)
  with free show ?thesis by blast
qed

theorem nonce_above_mark_is_free_witness:
  "bind_attempt 9 0 (demo_first\<lparr>at_nonce := 5\<rparr>) First demo_db3 \<noteq> Err (NonceSlotTaken 1 9 5)"
proof -
  have 5: "i64_of_u64 5 = 5" by (simp add: i64_of_small)
  show ?thesis
    using nonce_above_mark_is_free [OF demo_reach3, of "demo_pair 4" "demo_first\<lparr>at_nonce := 5\<rparr>" 9 0 1 9 5]
    by (simp add: demo_defs pair_key_rec_def new_pair_def 5)
qed

end
