(* ===== verification/Store_Events.thy ===== *)
theory Store_Events
  imports Store_Books
begin

text \<open>
  Webhook events and ingest. The events of a job form a log that mirrors its status: inclusions, then one
  final event exactly when the job is terminal, numbered without gaps; the dispatcher claims them in that
  order and under a lease; and a batch of submissions is resolved request by request.
\<close>

section \<open>The event log of a job\<close>

definition event_log :: "db \<Rightarrow> job_id \<Rightarrow> (webhook_event \<times> int) list" where
  "event_log d j = map (\<lambda>w. (wd_event w, wd_sequence w)) (filter (\<lambda>w. wd_job_id w = j) (db_deliveries d))"

definition final_event :: "job_status \<Rightarrow> webhook_event list" where
  "final_event st = (case st of Confirmed \<Rightarrow> [WConfirmed] | Failed \<Rightarrow> [WFailed] | _ \<Rightarrow> [])"

definition log_ok :: "job_status \<Rightarrow> int \<Rightarrow> (webhook_event \<times> int) list \<Rightarrow> bool" where
  "log_ok st n l = (0 \<le> n \<and> map snd l = [1..n]
     \<and> (\<exists>k. map fst l = replicate k WIncluded @ final_event st \<and> (st = Included \<or> st = Confirmed \<longrightarrow> 0 < k)))"

definition events_ok :: "db \<Rightarrow> bool" where
  "events_ok d = ((\<forall>x\<in>set (db_jobs d). log_ok (jr_status x) (jc_webhook_seq x) (event_log d (jr_id x)))
     \<and> (\<forall>w\<in>set (db_deliveries d). \<exists>x\<in>set (db_jobs d). jr_id x = wd_job_id w))"

lemma log_ok_snoc:
  assumes "log_ok st0 n l" "final_event st0 = []"
    and "(ev = WIncluded \<and> st = Included) \<or> (ev = WConfirmed \<and> st = Confirmed \<and> st0 = Included) \<or> (ev = WFailed \<and> st = Failed)"
  shows "log_ok st (n + 1) (l @ [(ev, n + 1)])"
proof -
  from assms obtain k where k: "0 \<le> n" "map snd l = [1..n]" "map fst l = replicate k WIncluded" "st0 = Included \<longrightarrow> 0 < k"
    by (auto simp: log_ok_def)
  have "[1..n + 1] = [1..n] @ [n + 1]" using k(1) by (simp add: upto_rec2)
  moreover have "replicate k WIncluded @ [WIncluded] = replicate (Suc k) WIncluded" by (simp add: replicate_append_same)
  ultimately show ?thesis using k assms(3)
    by (auto simp: log_ok_def final_event_def intro: exI [of _ k] exI [of _ "Suc k"])
qed

lemma log_ok_move:
  assumes "log_ok st0 n l" "final_event st0 = []" "final_event st = []" "st \<noteq> Included"
  shows "log_ok st n l"
  using assms by (cases st) (auto simp: log_ok_def final_event_def)

text \<open>Updates of the jobs table that announce nothing.\<close>

lemma events_move:
  assumes "events_ok d" "db_deliveries d' = db_deliveries d" "db_jobs d' = sql_update p f (db_jobs d)"
    and "\<And>r. jr_id (f r) = jr_id r" "\<And>r. jc_webhook_seq (f r) = jc_webhook_seq r"
    and "\<And>r. p r \<Longrightarrow> jr_status (f r) = jr_status r \<or>
       (final_event (jr_status r) = [] \<and> final_event (jr_status (f r)) = [] \<and> jr_status (f r) \<noteq> Included)"
  shows "events_ok d'"
proof -
  have log: "event_log d' j = event_log d j" for j by (simp add: event_log_def assms(2))
  have row: "\<exists>x0\<in>set (db_jobs d). jr_id x = jr_id x0 \<and> log_ok (jr_status x) (jc_webhook_seq x) (event_log d (jr_id x))"
    if "x \<in> set (db_jobs d')" for x
  proof -
    from that obtain x0 where x0: "x0 \<in> set (db_jobs d)" "x = (if p x0 then f x0 else x0)"
      unfolding assms(3) set_sql_update by auto
    have "log_ok (jr_status x0) (jc_webhook_seq x0) (event_log d (jr_id x0))" using assms(1) x0(1) by (simp add: events_ok_def)
    then have "log_ok (jr_status x) (jc_webhook_seq x) (event_log d (jr_id x))"
      using assms(4-6) x0(2) log_ok_move by (cases "p x0") (auto, metis)
    then show ?thesis using x0 assms(4) by auto
  qed
  have "\<exists>x'\<in>set (db_jobs d'). jr_id x' = jr_id x" if "x \<in> set (db_jobs d)" for x
    unfolding assms(3) set_sql_update by (rule bexI [OF _ imageI [OF that]]) (simp add: assms(4))
  then show ?thesis using assms(1) row log unfolding events_ok_def assms(2) by metis
qed

lemma events_frame:
  assumes "events_ok d" "db_jobs d' = db_jobs d"
    "map (\<lambda>w. (wd_job_id w, wd_event w, wd_sequence w)) (db_deliveries d') = map (\<lambda>w. (wd_job_id w, wd_event w, wd_sequence w)) (db_deliveries d)"
  shows "events_ok d'"
proof -
  let ?v = "\<lambda>w. (wd_job_id w, wd_event w, wd_sequence w)"
  have log: "event_log e j = map snd (filter (\<lambda>v. fst v = j) (map ?v (db_deliveries e)))" for e j
    by (simp add: event_log_def filter_map o_def)
  have "event_log d' j = event_log d j" for j unfolding log assms(3) ..
  moreover have ids: "set (map wd_job_id (db_deliveries e)) = fst ` set (map ?v (db_deliveries e))" for e by (simp add: image_image)
  have "set (map wd_job_id (db_deliveries d')) = set (map wd_job_id (db_deliveries d))" unfolding ids assms(3) ..
  then have "\<forall>w\<in>set (db_deliveries d'). \<exists>w0\<in>set (db_deliveries d). wd_job_id w = wd_job_id w0" by auto
  then have "\<forall>w\<in>set (db_deliveries d'). \<exists>x\<in>set (db_jobs d'). jr_id x = wd_job_id w"
    using assms(1,2) unfolding events_ok_def by metis
  ultimately show ?thesis using assms(1,2) by (simp add: events_ok_def)
qed

lemma events_announce:
  assumes "announce now ev_id (\<lambda>r. jr_id r = i \<and> jr_status r \<in> S) f ev re bkt d = Ok (d', b)"
    and "distinct (map jr_id (db_jobs d))" "events_ok d"
    and f: "\<And>r. jr_id (f r) = jr_id r" "\<And>r. jr_status (f r) = st" "\<And>r. jc_webhook_seq (f r) = jc_webhook_seq r + 1"
    and S: "\<And>st0. st0 \<in> S \<Longrightarrow> final_event st0 = [] \<and>
       ((ev = WIncluded \<and> st = Included) \<or> (ev = WConfirmed \<and> st = Confirmed \<and> st0 = Included) \<or> (ev = WFailed \<and> st = Failed))"
  shows "events_ok d'"
  using assms(1)
proof (cases rule: announceE)
  case none
  with assms(3) show ?thesis by simp
next
  case (one r w)
  from find_ex [OF one(1)] have r: "r \<in> set (db_jobs d)" "jr_id r = i" "jr_status r \<in> S" by auto
  have fid: "jr_id (job_row.truncate (f r)) = i" using f(1) r(2) by (simp add: job_row.defs)
  from enqueue_OkE [OF one(3)] obtain v where v: "db_deliveries d' = db_deliveries d @ [v]" "wd_job_id v = i" "wd_event v = ev"
    "wd_sequence v = jc_webhook_seq r + 1" using one(5) fid f(3) by metis
  have log: "event_log d' j = event_log d j @ (if j = i then [(ev, jc_webhook_seq r + 1)] else [])" for j
    by (simp add: event_log_def v)
  have "log_ok (jr_status x) (jc_webhook_seq x) (event_log d' (jr_id x)) \<and> (\<exists>x0\<in>set (db_jobs d). jr_id x0 = jr_id x)"
    if x: "x \<in> set (db_jobs d')" for x
  proof -
    from x obtain x0 where x0: "x0 \<in> set (db_jobs d)" "x = (if jr_id x0 = i \<and> jr_status x0 \<in> S then f x0 else x0)"
      unfolding one(4) set_sql_update by auto
    have ok: "log_ok (jr_status x0) (jc_webhook_seq x0) (event_log d (jr_id x0))" using assms(3) x0(1) by (simp add: events_ok_def)
    show ?thesis
    proof (cases "jr_id x0 = i")
      case True
      with r x0(1) assms(2) have "x0 = r" by (auto dest: distinct_map_inj)
      with x0(2) r f ok log_ok_snoc [OF ok] S [OF r(3)] show ?thesis by (auto simp: log)
    next
      case False
      with x0 ok show ?thesis by (auto simp: log)
    qed
  qed
  moreover have "\<exists>x\<in>set (db_jobs d'). jr_id x = jr_id x0" if "x0 \<in> set (db_jobs d)" for x0
    unfolding one(4) set_sql_update by (rule bexI [OF _ imageI [OF that]]) (simp add: f(1))
  ultimately show ?thesis using assms(3) r(1,2) unfolding events_ok_def v(1)
    by (metis (no_types, lifting) Un_iff list.set(1) list.set(2) set_append singletonD v(2))
qed

section \<open>Every transaction keeps the log\<close>

lemma confirm_owner_events:
  assumes "confirm_owner now ev a d = Ok (d', b)" "keys_ok d" "events_ok d"
  shows "events_ok d'"
proof (cases "at_owner a")
  case (OJob i)
  have dist: "distinct (map jr_id (db_jobs d))" using assms(2) by (simp add: keys_ok_def)
  show ?thesis
  proof (cases "at_purpose a = PJob")
    case True
    from assms(1) OJob True have an: "announce now ev (\<lambda>r. jr_id r = i \<and> jr_status r \<in> {Included}) (confirmed_row now)
        WConfirmed False (\<lambda>r. Some (outcome_bucket r)) d = Ok (d', b)" by (simp add: confirm_owner_def)
    show ?thesis by (rule events_announce [OF an dist assms(3), where st = Confirmed]) (simp_all add: confirmed_row_def final_event_def)
  next
    case False
    from assms(1) OJob False have an: "announce now ev (\<lambda>r. jr_id r = i \<and> jr_status r \<in> {Cancelling})
        (failed_keep now StuckCancelled cancel_message) WFailed False (\<lambda>r. Some BFailed) d = Ok (d', b)"
      by (auto simp: confirm_owner_def split: attempt_purpose.splits)
    show ?thesis
      by (rule events_announce [OF an dist assms(3), where st = Failed]) (simp_all add: failed_keep_def failed_row_def final_event_def)
  qed
next
  case (OTopup i)
  with assms(1) show ?thesis by (intro events_frame [OF assms(3)]) (auto simp: confirm_owner_def)
qed

lemma confirm_events:
  assumes "confirm_in_tx now ev a d = Ok (d', s)" "keys_ok d" "events_ok d"
  shows "events_ok d'"
  using assms(1)
proof (cases rule: confirm_in_txE)
  case (gate r found)
  let ?d = "d\<lparr>db_attempts := confirm_attempts now a (db_attempts d)\<rparr>"
  have "keys_ok ?d" using assms(2) by (simp add: keys_ok_def keys_confirm_attempts)
  moreover have "events_ok ?d" by (rule events_frame [OF assms(3)]) simp_all
  ultimately show ?thesis by (rule confirm_owner_events [OF gate(4)])
qed (use assms(3) in simp)

lemma include_owner_events:
  assumes "include_owner now ev a inc re d = Ok d'" "keys_ok d" "events_ok d"
  shows "events_ok d'"
proof (cases "at_owner a")
  case (OJob i)
  have dist: "distinct (map jr_id (db_jobs d))" using assms(2) by (simp add: keys_ok_def)
  show ?thesis
  proof (cases "at_purpose a = PJob")
    case True
    from assms(1) OJob True have an: "announce now ev (\<lambda>r. jr_id r = i \<and> jr_status r \<in> {Sent, Cancelling}) (included_row now inc)
        WIncluded re (\<lambda>r. None) d = Ok (d', True)" by (auto simp: include_owner_def and_then_eq_Ok split: if_splits)
    show ?thesis
      by (rule events_announce [OF an dist assms(3), where st = Included]) (auto simp: included_row_def final_event_def)
  next
    case False
    with assms OJob show ?thesis by (auto simp: include_owner_def split: attempt_purpose.splits)
  qed
next
  case (OTopup i)
  with assms(1) show ?thesis by (intro events_frame [OF assms(3)]) (auto simp: include_owner_def)
qed

lemma include_events:
  assumes "settle_inclusion now ev1 ev2 a inc c re d = Ok (d', s)" "keys_ok d" "events_ok d"
  shows "events_ok d'"
  using assms(1)
proof (cases rule: settle_inclusionE)
  case (gate r d2)
  let ?d = "gate_inclusion now a inc d"
  have k: "keys_ok ?d" using assms(2) by (simp add: keys_ok_def keys_include_attempts distinct_gas_key_add_gas)
  have "events_ok ?d" by (rule events_frame [OF assms(3)]) simp_all
  from include_owner_events [OF gate(5) k this] have e2: "events_ok d2" .
  have k2: "keys_ok d2" by (rule include_owner_keys [OF gate(5) k])
  show ?thesis using gate(7) confirm_events [OF _ k2 e2] e2 by (auto split: if_splits)
qed (use assms(3) in simp)

lemma bind_events:
  assumes "bind_attempt now epoch a kind d = Ok d'" "events_ok d"
  shows "events_ok d'"
  using assms(1)
proof (rule bind_attemptE)
  fix d1 d2 d3
  assume c: "claim_slot now a kind d = Ok d1" and i: "insert_attempt now a d1 = Ok d2"
    and m: "move_owner now a kind d2 = (d3, 1)" and d': "d' = raise_hwm now a d3"
  have e2: "events_ok d2"
    by (rule events_frame [OF assms(2)]) (simp_all add: insert_attemptE(1) [OF i] claim_slot_fields [OF c])
  have e3: "events_ok d3"
  proof (cases "at_owner a")
    case (OTopup t)
    with m show ?thesis
      by (intro events_frame [OF e2]) (auto simp: move_owner_def Let_def split: if_splits)
  next
    case (OJob j)
    show ?thesis
    proof (cases kind)
      case First
      show ?thesis
        by (rule events_move [OF e2, where p = "\<lambda>r. jr_id r = j \<and> jr_status r = Queued"
            and f = "\<lambda>r. r\<lparr>jr_status := Sent, jr_signer := Some (at_signer a), jr_nonce := Some (i64_of_u64 (at_nonce a)),
                       jr_tx_hash := Some (at_tx_hash a), jr_sent_at := Some now\<rparr>"])
          (use m OJob First in \<open>auto simp: move_owner_def final_event_def\<close>)
    next
      case Replacement
      show ?thesis
        by (rule events_move [OF e2, where p = "\<lambda>r. jr_id r = j \<and> jr_status r \<in> {Sent, Cancelling}"
            and f = "\<lambda>r. r\<lparr>jr_tx_hash := Some (at_tx_hash a)\<rparr>"]) (use m OJob Replacement in \<open>auto simp: move_owner_def\<close>)
    next
      case Cancel
      show ?thesis
        by (rule events_move [OF e2, where p = "\<lambda>r. jr_id r = j \<and> jr_status r \<in> {Sent, Cancelling}"
            and f = "\<lambda>r. r\<lparr>jr_status := Cancelling\<rparr>"]) (use m OJob Cancel in \<open>auto simp: move_owner_def final_event_def\<close>)
    qed
  qed
  show "events_ok d'" by (rule events_frame [OF e3]) (simp_all add: d')
qed

lemma void_events:
  assumes "void_binding now clock ev epoch a mode disp d = Ok d'" "keys_ok d" "events_ok d"
  shows "events_ok d'"
proof -
  let ?d = "gate_void now a mode d"
  note vo = void_bindingE(2) [OF assms(1)]
  have dist: "distinct (map jr_id (db_jobs ?d))" using assms(2) by (simp add: keys_ok_def release_nonce_def Let_def)
  have e: "events_ok ?d" by (rule events_frame [OF assms(3)]) (simp_all add: release_nonce_def Let_def)
  show ?thesis
  proof (cases "at_owner a")
    case (OTopup t)
    with vo show ?thesis by (intro events_frame [OF e]) (auto simp: void_owner_def)
  next
    case (OJob j)
    show ?thesis
    proof (cases disp)
      case Requeue
      show ?thesis
        by (rule events_move [OF e, where p = "\<lambda>r. jr_id r = j \<and> jr_status r \<in> {Sent, Cancelling}" and f = "requeued_row clock"])
          (use vo OJob Requeue in \<open>auto simp: void_owner_def requeued_row_def final_event_def\<close>)
    next
      case (Fail failure message)
      with vo OJob obtain found where an: "announce now ev (\<lambda>r. jr_id r = j \<and> jr_status r \<in> {Sent, Cancelling})
          (failed_keep now failure message) WFailed False (\<lambda>r. Some BFailed) ?d = Ok (d', found)"
        by (auto simp: void_owner_def and_then_eq_Ok)
      show ?thesis
        by (rule events_announce [OF an dist e, where st = Failed]) (auto simp: failed_keep_def failed_row_def final_event_def)
    qed
  qed
qed

lemma insert_rows_shape:
  "insert_rows now sq js t = Ok (t', sq', ids) \<Longrightarrow>
   \<exists>new. t' = t @ new \<and> (\<forall>x\<in>set new. (\<exists>j\<in>set js. \<exists>s. x = new_job_rec now s j))"
proof (induction now sq js t arbitrary: ids rule: insert_rows.induct)
  case (2 now sq j js t)
  show ?case
  proof (cases "key_taken (nj_idempotency_key j) t")
    case True
    with 2 show ?thesis by fastforce
  next
    case False
    with "2.prems" have fresh: "\<not> (\<exists>r\<in>set t. jr_id r = nj_id j)" by (auto split: if_splits)
    from False "2.prems" fresh obtain ids' where
      "insert_rows now (sq + 1) js (t @ [new_job_rec now sq j]) = Ok (t', sq', ids')" by (auto simp: and_then_eq_Ok)
    from "2.IH"(2) [OF False fresh this] obtain new where
      "t' = t @ new_job_rec now sq j # new" "\<forall>x\<in>set new. (\<exists>j\<in>set js. \<exists>s. x = new_job_rec now s j)" by auto
    then show ?thesis by (intro exI [of _ "new_job_rec now sq j # new"]) auto
  qed
qed simp

lemma ingest_events:
  assumes "insert_jobs now jobs d = (d', out)" "keys_ok d'" "events_ok d"
  shows "events_ok d'"
proof (cases "d' = d")
  case False
  with assms(1) obtain t sq ids where "insert_rows now (db_next_seq d) jobs (db_jobs d) = Ok (t, sq, ids)"
    and d': "d' = d\<lparr>db_jobs := t, db_next_seq := sq\<rparr>"
    by (auto simp: insert_jobs_def split: if_splits sum.splits)
  from insert_rows_shape [OF this(1)] obtain new where t: "t = db_jobs d @ new"
    and made: "\<forall>x\<in>set new. \<exists>j\<in>set jobs. \<exists>s. x = new_job_rec now s j" by (elim exE conjE)
  from made have new: "\<forall>x\<in>set new. \<exists>j s. x = new_job_rec now s j" by fast
  have log: "event_log d' j = event_log d j" for j by (simp add: d' event_log_def)
  have "log_ok (jr_status x) (jc_webhook_seq x) (event_log d (jr_id x))" if x: "x \<in> set new" for x
  proof -
    have "jr_id x \<notin> jr_id ` set (db_jobs d)" using assms(2) x unfolding d' t by (auto simp: keys_ok_def)
    then have "\<forall>w\<in>set (db_deliveries d). wd_job_id w \<noteq> jr_id x"
      using assms(3) unfolding events_ok_def by (metis imageI)
    then have "event_log d (jr_id x) = []" by (simp add: event_log_def filter_empty_conv)
    moreover have "jr_status x = Queued" "jc_webhook_seq x = 0" using new x by (auto simp: new_job_rec_def Let_def)
    ultimately show ?thesis by (simp add: log_ok_def final_event_def)
  qed
  then show ?thesis using assms(3) by (auto simp: events_ok_def log) (auto simp: d' t)
qed (use assms in simp)

lemma demote_events:
  assumes "demote_inclusion now a d = (d', s)" "events_ok d"
  shows "events_ok d'"
  using assms(1)
proof (cases rule: demote_inclusionE)
  case (gate r)
  show ?thesis
  proof (cases "\<exists>i. at_owner a = OJob i \<and> at_purpose a = PJob")
    case True
    then obtain i where "at_owner a = OJob i" "at_purpose a = PJob" by blast
    then show ?thesis
      by (intro events_move [OF assms(2), where p = "\<lambda>r. jr_id r = i \<and> jr_status r = Included" and f = demoted_row])
        (use gate in \<open>auto simp: demoted_row_def final_event_def\<close>)
  next
    case False
    then show ?thesis using gate by (intro events_frame [OF assms(2)]) (auto split: slot_owner.splits)
  qed
qed (use assms(2) in simp)

lemma events_step:
  assumes "store_step d d'" "keys_ok d" "pinv (protocol_of d)" "events_ok d"
  shows "events_ok d'"
  using assms(1)
proof cases
  case (ingest now jobs out)
  then show ?thesis using ingest_events store_step_sim [OF assms(1-3)] assms(4) by blast
next
  case (requeue clock i n)
  show ?thesis
    by (rule events_move [OF assms(4), where p = "\<lambda>r. jr_id r = i \<and> jr_status r = Queued" and
        f = "\<lambda>r. r\<lparr>jc_requeue_rank := - clock, jc_requeue_count := jc_requeue_count r + 1\<rparr>"])
      (use requeue in \<open>auto simp: requeue_front_def Let_def split: option.splits\<close>)
next
  case (fail now ev i failure message revert b)
  then have an: "announce now ev (\<lambda>r. jr_id r = i \<and> jr_status r \<in> {Queued}) (failed_row now failure message revert)
      WFailed False (\<lambda>r. Some BFailed) d = Ok (d', b)" by (simp add: fail_job_def)
  show ?thesis by (rule events_announce [OF an _ assms(4), where st = Failed])
      (use assms(2) in \<open>simp_all add: failed_row_def final_event_def keys_ok_def\<close>)
next
  case (cancel now ev i b)
  then have an: "announce now ev (\<lambda>r. jr_id r = i \<and> jr_status r \<in> {Queued}) (failed_row now Cancelled ''cancelled by operator before it was sent'' None)
      WFailed False (\<lambda>r. Some BFailed) d = Ok (d', b)" by (simp add: cancel_queued_def fail_job_def)
  show ?thesis by (rule events_announce [OF an _ assms(4), where st = Failed])
      (use assms(2) in \<open>simp_all add: failed_row_def final_event_def keys_ok_def\<close>)
next
  case (bind now epoch a kind)
  then show ?thesis using bind_events assms(4) by blast
next
  case (include_tx now ev1 ev2 a inc confirm_now re s)
  then show ?thesis using include_events assms(2,4) by blast
next
  case (confirm_tx now ev a s)
  then show ?thesis using confirm_events assms(2,4) by (auto simp: settle_confirmation_def)
next
  case (demote_tx now a s)
  then show ?thesis using demote_events assms(4) by blast
next
  case (void_tx now clock ev epoch a mode disp)
  then show ?thesis using void_events assms(2,4) by blast
next
  case (move_block a now bn bh rc)
  show ?thesis
  proof (cases "\<exists>i. at_owner a = OJob i \<and> at_purpose a = PJob")
    case True
    then obtain i where "at_owner a = OJob i" "at_purpose a = PJob" by blast
    then show ?thesis
      by (intro events_move [OF assms(4), where p = "\<lambda>r. jr_id r = i \<and> jr_status r = Included" and
            f = "\<lambda>r. r\<lparr>jr_block_number := Some (i64_of_u64 bn), jr_block_hash := Some bh, jr_receipt := Some rc\<rparr>"])
        (simp_all add: move_block update_inclusion_block_def Let_def)
  next
    case False
    then show ?thesis
      by (intro events_frame [OF assms(4)]) (auto simp: move_block update_inclusion_block_def Let_def split: slot_owner.splits attempt_purpose.splits)
  qed
qed (rule events_frame [OF assms(4)], auto simp: bump_epoch_def create_topup_def fail_topup_def fail_unbound_topups_def
    ensure_pair_def register_signer_def record_pause_def dead_letter_def claim_due_deliveries_def mark_delivered_def
    mark_delivery_failed_def defer_delivery_def redeliver_def Let_def map_sql_update split: if_splits option.splits)+

lemma store_reach_events: "store_reach d \<Longrightarrow> events_ok d"
proof (induction rule: store_reach.induct)
  case init
  show ?case by (simp add: events_ok_def empty_db_def)
next
  case (step d d')
  then show ?case using events_step store_reach_inv by blast
qed

text \<open>C16. A job's webhook events mirror its history. In every reachable database the events of a job,
  in order of insertion, carry the sequence numbers 1, 2, ... up to the job's counter; they are some
  number of inclusions (at least one if the job is included or confirmed), followed by exactly one
  confirmed event if the job is confirmed, exactly one failed event if it failed, and nothing else.\<close>

theorem webhook_log_mirrors_status:
  assumes "store_reach d" "x \<in> set (db_jobs d)"
  shows "map snd (event_log d (jr_id x)) = [1..jc_webhook_seq x]
    \<and> (\<exists>k. map fst (event_log d (jr_id x)) = replicate k WIncluded @ final_event (jr_status x)
         \<and> (jr_status x \<in> {Included, Confirmed} \<longrightarrow> 0 < k))"
  using store_reach_events [OF assms(1)] assms(2) by (auto simp: events_ok_def log_ok_def)

theorem webhook_log_mirrors_status_witness:
  "map snd (event_log demo_db4 100) = [1..1] \<and> map fst (event_log demo_db4 100) = [WIncluded]"
proof -
  have id: "jr_id demo_job4 = 100" "jr_status demo_job4 = Included" "jc_webhook_seq demo_job4 = 1"
    by (simp_all add: demo_job4_def included_row_def demo_job2_def)
  have len: "length (event_log demo_db4 100) = 1" by (simp add: event_log_def demo_db4_def demo_event_def)
  from webhook_log_mirrors_status [OF demo_reach4, of demo_job4] obtain k where
    k: "map snd (event_log demo_db4 100) = [1..1]" "map fst (event_log demo_db4 100) = replicate k WIncluded"
    by (auto simp: id demo_db4_def final_event_def)
  from arg_cong [OF k(2), of length] len have "k = 1" by simp
  with k show ?thesis by simp
qed

section \<open>Claiming deliveries\<close>

text \<open>Two events of one job never share a sequence number.\<close>

lemma sequence_unique:
  assumes "store_reach d" "w \<in> set (db_deliveries d)" "w' \<in> set (db_deliveries d)" "wd_job_id w = wd_job_id w'" "wd_sequence w = wd_sequence w'"
  shows "w = w'"
proof -
  let ?l = "filter (\<lambda>v. wd_job_id v = wd_job_id w) (db_deliveries d)"
  from store_reach_events [OF assms(1)] assms(2) obtain x where "x \<in> set (db_jobs d)" "jr_id x = wd_job_id w"
    unfolding events_ok_def by blast
  with store_reach_events [OF assms(1)] have "map snd (event_log d (wd_job_id w)) = [1..jc_webhook_seq x]"
    unfolding events_ok_def log_ok_def by metis
  then have "map wd_sequence ?l = [1..jc_webhook_seq x]" by (simp add: event_log_def o_def)
  then have "distinct (map wd_sequence ?l)" by simp
  moreover have "w \<in> set ?l" "w' \<in> set ?l" using assms(2-4) by simp_all
  ultimately show ?thesis using assms(5) by (metis distinct_map_inj)
qed

lemma claimed_row:
  assumes "distinct (map wd_id (db_deliveries d))" "claim_due_deliveries now limit lease d = (d', out)" "dv \<in> set out"
  obtains w where "w \<in> set (db_deliveries d)" "claimable now (db_deliveries d) w" "dv = delivery_of w"
    "wd_id w \<in> set (due_ids now limit (db_deliveries d))"
proof -
  note eqs = claim_due_deliveries_eqs [OF assms(2)]
  from assms(3) obtain w' where w': "w' \<in> set (db_deliveries d')" "wd_id w' \<in> set (due_ids now limit (db_deliveries d))"
    "dv = delivery_of w'" unfolding eqs(2) by auto
  from w'(1) obtain w where w: "w \<in> set (db_deliveries d)" "wd_id w' = wd_id w" "delivery_of w' = delivery_of w"
    unfolding eqs(1) by (auto simp: set_sql_update delivery_of_def)
  show thesis using that [OF w(1) claimed_is_claimable [OF assms(1) w(1)]] w' w by auto
qed

lemma leased_not_due:
  assumes "distinct (map wd_id (db_deliveries d))" "claim_due_deliveries now limit lease d = (d', out)" "dv \<in> set out"
    and "now' < now + secs lease"
  shows "dv_id dv \<notin> dv_id ` set (snd (claim_due_deliveries now' limit' lease' d'))"
proof
  assume "dv_id dv \<in> dv_id ` set (snd (claim_due_deliveries now' limit' lease' d'))"
  then obtain dv' where dv': "dv' \<in> set (snd (claim_due_deliveries now' limit' lease' d'))" "dv_id dv' = dv_id dv" by auto
  note eqs = claim_due_deliveries_eqs [OF assms(2)]
  from assms(1) have dist: "distinct (map wd_id (db_deliveries d'))" unfolding eqs(1) by (simp add: distinct_sql_update)
  obtain w' where w': "w' \<in> set (db_deliveries d')" "claimable now' (db_deliveries d') w'" "dv' = delivery_of w'"
    by (rule claimed_row [OF dist prod.collapse [symmetric] dv'(1)])
  obtain w where w: "wd_id w \<in> set (due_ids now limit (db_deliveries d))" "dv = delivery_of w"
    by (rule claimed_row [OF assms(1-3)])
  have "wd_id w' = wd_id w" using w'(3) w(2) dv'(2) by (simp add: delivery_of_def)
  then have "wd_next_attempt_at w' = now + secs lease"
    using w'(1) w(1) unfolding eqs(1) by (auto simp: set_sql_update split: if_splits)
  with w'(2) assms(4) show False by (simp add: claimable_def)
qed

text \<open>C22. Webhooks are delivered in order and to one dispatcher round at a time. In a reachable database,
  every claimed event was pending and due, and no earlier event of its job was still pending; a claim
  never takes two events of one job; and until the lease of the claim runs out, no later claim takes the
  event again.\<close>

theorem claims_respect_order_and_lease:
  assumes "store_reach d" "claim_due_deliveries now limit lease d = (d', out)" "dv \<in> set out"
  shows "(\<exists>w\<in>set (db_deliveries d). delivery_of w = dv \<and> wd_status w = DPending \<and> wd_next_attempt_at w \<le> now
        \<and> (\<forall>e\<in>set (db_deliveries d). wd_job_id e = wd_job_id w \<longrightarrow> wd_sequence e < wd_sequence w \<longrightarrow> wd_status e \<noteq> DPending))
    \<and> (\<forall>dv'\<in>set out. dv_job_id dv' = dv_job_id dv \<longrightarrow> dv' = dv)
    \<and> (\<forall>now' limit' lease'. now' < now + secs lease \<longrightarrow>
         dv_id dv \<notin> dv_id ` set (snd (claim_due_deliveries now' limit' lease' d')))"
proof -
  have dist: "distinct (map wd_id (db_deliveries d))" using store_reach_inv [OF assms(1)] by (simp add: keys_ok_def)
  obtain w where w: "w \<in> set (db_deliveries d)" "claimable now (db_deliveries d) w" "dv = delivery_of w"
    by (rule claimed_row [OF dist assms(2,3)])
  have "dv' = dv" if other: "dv' \<in> set out" "dv_job_id dv' = dv_job_id dv" for dv'
  proof -
    obtain v where v: "v \<in> set (db_deliveries d)" "claimable now (db_deliveries d) v" "dv' = delivery_of v"
      by (rule claimed_row [OF dist assms(2) other(1)])
    have job: "wd_job_id v = wd_job_id w" using other(2) v(3) w(3) by (simp add: delivery_of_def)
    have "wd_sequence v = wd_sequence w"
      using v w job unfolding claimable_def by (metis linorder_less_linear)
    with sequence_unique [OF assms(1) v(1) w(1) job] v w show ?thesis by simp
  qed
  moreover have "dv_id dv \<notin> dv_id ` set (snd (claim_due_deliveries now' limit' lease' d'))"
    if "now' < now + secs lease" for now' limit' lease'
    using leased_not_due [OF dist assms(2,3) that] .
  ultimately show ?thesis using w by (auto simp: claimable_def)
qed

theorem claims_respect_order_and_lease_witness:
  "delivery_of demo_event \<in> set (snd (claim_due_deliveries 10 5 30 demo_db4))
   \<and> dv_id (delivery_of demo_event) \<notin> dv_id ` set (snd (claim_due_deliveries 11 5 30 (fst (claim_due_deliveries 10 5 30 demo_db4))))"
proof -
  have mem: "delivery_of demo_event \<in> set (snd (claim_due_deliveries 10 5 30 demo_db4))"
    by (simp add: claim_due_deliveries_def due_ids_def claimable_def demo_db4_def demo_event_def delivery_of_def)
  then show ?thesis
    using claims_respect_order_and_lease [OF demo_reach4 prod.collapse [symmetric] mem] by (simp add: secs_def)
qed

section \<open>Ingest\<close>

lemma insert_rows_resolved:
  "insert_rows now sq js t = Ok (t', sq', ids) \<Longrightarrow> j \<in> set js \<Longrightarrow>
   (nj_id j \<in> set ids) \<or> key_taken (nj_idempotency_key j) t'"
proof (induction now sq js t arbitrary: ids rule: insert_rows.induct)
  case (2 now sq j' js t)
  show ?case
  proof (cases "key_taken (nj_idempotency_key j') t")
    case True
    with "2.prems" have rest: "insert_rows now (sq + 1) js t = Ok (t', sq', ids)" by simp
    from insert_rows_shape [OF rest] True have "key_taken (nj_idempotency_key j') t'" by (auto simp: key_taken_def)
    with "2.IH"(1) [OF True rest] "2.prems"(2) show ?thesis by auto
  next
    case False
    with "2.prems" have fresh: "\<not> (\<exists>r\<in>set t. jr_id r = nj_id j')" by (auto split: if_splits)
    from False "2.prems"(1) fresh obtain ids' where
      rest: "insert_rows now (sq + 1) js (t @ [new_job_rec now sq j']) = Ok (t', sq', ids')" and "ids = nj_id j' # ids'"
      by (auto simp: and_then_eq_Ok)
    with "2.IH"(2) [OF False fresh rest] "2.prems"(2) show ?thesis by auto
  qed
qed simp

lemma insert_rows_ids:
  "insert_rows now sq js t = Ok (t', sq', ids) \<Longrightarrow> i \<in> set ids \<Longrightarrow> \<exists>x\<in>set t'. jr_id x = i \<and> x \<notin> set t \<and>
     (\<exists>j\<in>set js. \<exists>s. nj_id j = i \<and> x = new_job_rec now s j)"
proof (induction now sq js t arbitrary: ids rule: insert_rows.induct)
  case (2 now sq j' js t)
  show ?case
  proof (cases "key_taken (nj_idempotency_key j') t")
    case True
    with 2 show ?thesis by fastforce
  next
    case False
    with "2.prems" have fresh: "\<not> (\<exists>r\<in>set t. jr_id r = nj_id j')" by (auto split: if_splits)
    let ?r = "new_job_rec now sq j'"
    have rid: "jr_id ?r = nj_id j'" by (simp add: new_job_rec_def Let_def)
    from False "2.prems"(1) fresh obtain ids' where
      rest: "insert_rows now (sq + 1) js (t @ [?r]) = Ok (t', sq', ids')" and ids: "ids = nj_id j' # ids'"
      by (auto simp: and_then_eq_Ok)
    from insert_rows_shape [OF rest] have "?r \<in> set t'" by auto
    moreover have "?r \<notin> set t" using fresh rid by auto
    ultimately show ?thesis using "2.IH"(2) [OF False fresh rest] "2.prems"(2) ids rid by fastforce
  qed
qed simp

lemma insert_rows_total:
  "distinct (map nj_id js) \<Longrightarrow> \<forall>j\<in>set js. \<forall>r\<in>set t. jr_id r \<noteq> nj_id j \<Longrightarrow> \<exists>x. insert_rows now sq js t = Ok x"
proof (induction now sq js t rule: insert_rows.induct)
  case (2 now sq j js t)
  show ?case
  proof (cases "key_taken (nj_idempotency_key j) t")
    case True
    with 2 show ?thesis by simp
  next
    case False
    have fresh: "\<not> (\<exists>r\<in>set t. jr_id r = nj_id j)" using "2.prems"(2) by auto
    have "jr_id (new_job_rec now sq j) = nj_id j" by (simp add: new_job_rec_def Let_def)
    then have "\<exists>x. insert_rows now (sq + 1) js (t @ [new_job_rec now sq j]) = Ok x"
      using "2.prems" by (intro "2.IH"(2) [OF False fresh]) auto
    with False fresh show ?thesis by auto
  qed
qed simp

definition resolved :: "db \<Rightarrow> new_job \<Rightarrow> insert_outcome \<Rightarrow> db \<Rightarrow> bool" where
  "resolved d j out d' = (case out of
      Created \<Rightarrow> \<exists>x\<in>set (db_jobs d'). x \<notin> set (db_jobs d) \<and> jr_id x = nj_id j \<and> jr_status x = Queued \<and> jc_idempotency_key x = nj_idempotency_key j
    | Replayed i \<Rightarrow> nj_idempotency_key j \<noteq> None \<and> (\<exists>x\<in>set (db_jobs d'). jr_id x = i \<and> jc_idempotency_key x = nj_idempotency_key j
        \<and> jc_request_hash x = nj_request_hash j)
    | Conflict \<Rightarrow> nj_idempotency_key j \<noteq> None \<and> (\<exists>x\<in>set (db_jobs d'). jc_idempotency_key x = nj_idempotency_key j
        \<and> jc_request_hash x \<noteq> nj_request_hash j))"

lemma insert_outcome_resolved:
  assumes "insert_rows now (db_next_seq d) jobs (db_jobs d) = Ok (t, sq, ids)" "distinct (map nj_id jobs)" "j \<in> set jobs"
  shows "\<exists>out. insert_outcome_of t ids j = Ok out \<and> resolved d j out (d\<lparr>db_jobs := t, db_next_seq := sq\<rparr>)"
proof (cases "nj_id j \<in> set ids")
  case True
  from insert_rows_ids [OF assms(1) True] obtain x j' s where x: "x \<in> set t" "jr_id x = nj_id j" "x \<notin> set (db_jobs d)"
    "j' \<in> set jobs" "nj_id j' = nj_id j" "x = new_job_rec now s j'" by blast
  then have "j' = j" using assms(2,3) by (auto dest: distinct_map_inj)
  with x have "resolved d j Created (d\<lparr>db_jobs := t, db_next_seq := sq\<rparr>)"
    by (auto simp: resolved_def new_job_rec_def Let_def intro!: bexI [of _ x])
  with True show ?thesis by (simp add: insert_outcome_of_def)
next
  case False
  with insert_rows_resolved [OF assms(1,3)] have taken: "key_taken (nj_idempotency_key j) t" by blast
  then obtain k where k: "nj_idempotency_key j = Some k" by (auto simp: key_taken_def)
  from taken have "\<exists>r\<in>set t. jc_idempotency_key r = Some k" by (simp add: key_taken_def k)
  then obtain r where r: "find (\<lambda>r. jc_idempotency_key r = Some k) t = Some r" by (cases "find (\<lambda>r. jc_idempotency_key r = Some k) t") (auto simp: find_None_ball)
  from find_ex [OF r] have "r \<in> set t" "jc_idempotency_key r = Some k" by auto
  with False k r show ?thesis by (auto simp: insert_outcome_of_def resolved_def)
qed

text \<open>A batch of submissions never fails because of its idempotency keys. With fresh and distinct job
  identifiers the batch is written and every request gets its own answer: created, and then the queued row
  is new; replayed, and then the returned job carries the same key and the same request hash; or a
  conflict, and then a job with that key has a different request hash.\<close>

theorem ingest_resolves_every_request:
  assumes "insert_jobs now jobs d = (d', res)" "distinct (map nj_id jobs)" "\<forall>j\<in>set jobs. \<forall>r\<in>set (db_jobs d). jr_id r \<noteq> nj_id j"
  shows "\<exists>outs. res = Ok outs \<and> list_all2 (\<lambda>j out. resolved d j out d') jobs outs"
proof (cases "jobs = []")
  case True
  with assms(1) show ?thesis by (simp add: insert_jobs_def)
next
  case False
  from insert_rows_total [OF assms(2,3)] obtain t sq ids where
    ir: "insert_rows now (db_next_seq d) jobs (db_jobs d) = Ok (t, sq, ids)" by (metis prod_cases3)
  with assms(1) False have d': "d' = d\<lparr>db_jobs := t, db_next_seq := sq\<rparr>"
    and res: "res = collect_results (map (insert_outcome_of t ids) jobs)" by (auto simp: insert_jobs_def)
  note each = insert_outcome_resolved [OF ir assms(2)]
  have "collect_results (map (insert_outcome_of t ids) jobs) = Ok (map (\<lambda>j. projr (insert_outcome_of t ids j)) jobs)"
    by (rule collect_results_ex) (use each in blast)
  moreover have "list_all2 (\<lambda>j out. resolved d j out d') jobs (map (\<lambda>j. projr (insert_outcome_of t ids j)) jobs)"
    unfolding list_all2_conv_all_nth using each d' by (auto, metis nth_mem sum.sel(2))
  ultimately show ?thesis using res by blast
qed

theorem ingest_resolves_every_request_witness:
  "\<exists>outs. snd (insert_jobs 1 [demo_new] empty_db) = Ok outs
     \<and> list_all2 (\<lambda>j out. resolved empty_db j out (fst (insert_jobs 1 [demo_new] empty_db))) [demo_new] outs"
  using ingest_resolves_every_request [of 1 "[demo_new]" empty_db "fst (insert_jobs 1 [demo_new] empty_db)"
      "snd (insert_jobs 1 [demo_new] empty_db)"] by (simp add: empty_db_def)

end
