(* ===== verification/Faults.thy ===== *)
theory Faults
  imports Store_Schema
begin

text \<open>
  A call to the store over a connection that can break. The transaction either runs and answers, or the
  connection is lost before it commits, or it is lost after the commit and before the answer arrives: the
  caller sees the same driver error in the last two cases. This is what the retry loops of the pipeline
  have to cope with.

  The locale \<open>retried_write\<close> is the contract that makes such a loop safe: a write that has been applied
  changes nothing when it is applied again, whatever clock and identifiers the second call draws. Inside
  it, a loop that repeats the write until it gets an answer applies it exactly once.
\<close>

datatype fault = Works | LostBefore sqlx_error | LostAfter sqlx_error

definition faulty :: "fault \<Rightarrow> ('s \<Rightarrow> ('s \<times> 'a, store_error) result) \<Rightarrow> 's \<Rightarrow> ('a, store_error) result \<times> 's" where
  "faulty f call s =
     (case f of
        Works \<Rightarrow> (case call s of Ok (s', x) \<Rightarrow> (Ok x, s') | Err e \<Rightarrow> (Err e, s))
      | LostBefore e \<Rightarrow> (Err (Db e), s)
      | LostAfter e \<Rightarrow> (case call s of Ok (s', x) \<Rightarrow> (Err (Db e), s') | Err e' \<Rightarrow> (Err (Db e), s)))"

text \<open>A read under the same faults changes nothing.\<close>

definition faulty_read :: "fault \<Rightarrow> ('s \<Rightarrow> 'a) \<Rightarrow> 's \<Rightarrow> ('a, store_error) result" where
  "faulty_read f q s = (case f of Works \<Rightarrow> Ok (q s) | LostBefore e \<Rightarrow> Err (Db e) | LostAfter e \<Rightarrow> Err (Db e))"

primrec fault_transient :: "fault \<Rightarrow> bool" where
  "fault_transient Works = True"
| "fault_transient (LostBefore e) = is_transient (Db e)"
| "fault_transient (LostAfter e) = is_transient (Db e)"

lemma faulty_cases:
  obtains (unchanged) r where "faulty f call s = (r, s)" "\<nexists>x. r = Ok x"
  | (ran) s' x r where "call s = Ok (s', x)" "faulty f call s = (r, s')" "r = Ok x \<or> (\<exists>e. r = Err (Db e))"
  by (cases f; cases "call s") (fastforce simp: faulty_def)+

text \<open>How a retry loop ends: the write was answered, it failed for good, or it is still trying.\<close>

datatype 'a write_end = Written 'a | GaveUp store_error | StillTrying

text \<open>The retry loop: the delay doubles up to a limit. The slept delays are part of the result.\<close>

fun retry_write :: "duration \<Rightarrow> (nat \<Rightarrow> 's \<Rightarrow> ('s \<times> 'a, store_error) result) \<Rightarrow> nat \<Rightarrow> duration \<Rightarrow> fault list \<Rightarrow> 's
    \<Rightarrow> 'a write_end \<times> 's \<times> duration list" where
  "retry_write limit wr k delay [] s = (StillTrying, s, [])"
| "retry_write limit wr k delay (f # fs) s =
     (case faulty f (wr k) s of
        (Ok x, s') \<Rightarrow> (Written x, s', [])
      | (Err e, s') \<Rightarrow>
          if is_transient e
          then (case retry_write limit wr (Suc k) (min (delay * 2) limit) fs s' of (r, s'', ds) \<Rightarrow> (r, s'', delay # ds))
          else (GaveUp e, s', []))"

lemma retry_delays: "delay \<le> limit \<Longrightarrow> retry_write limit wr k delay fs s = (r, s', ds) \<Longrightarrow> list_all (\<lambda>x. x \<le> limit) ds"
  by (induction limit wr k delay fs s arbitrary: r s' ds rule: retry_write.induct)
    (auto split: prod.splits sum.splits if_splits)

locale retried_write =
  fixes wr :: "nat \<Rightarrow> 's \<Rightarrow> ('s \<times> 'a, store_error) result"
  assumes again: "wr k s = Ok (s', x) \<Longrightarrow> \<exists>y. wr j s' = Ok (s', y)"
begin

text \<open>Once applied, the state stays whatever happens to the later rounds.\<close>

lemma settled_stays:
  assumes "\<And>j. \<exists>y. wr j s = Ok (s, y)" and "retry_write limit wr k delay fs s = (r, s', ds)"
  shows "s' = s"
  using assms(2)
proof (induction fs arbitrary: k delay r s' ds)
  case (Cons f fs)
  obtain y where y: "wr k s = Ok (s, y)" using assms(1) by blast
  have "faulty f (wr k) s = (Ok y, s) \<or> (\<exists>e. faulty f (wr k) s = (Err e, s))"
    by (cases f) (simp_all add: faulty_def y)
  then show ?case using Cons by (auto split: prod.splits if_splits)
qed simp

text \<open>The write happened once or not at all, and if the loop got its answer it happened.\<close>

lemma applied_once:
  assumes "retry_write limit wr k delay fs s = (r, s', ds)"
  shows "(s' = s \<and> (\<nexists>x. r = Written x)) \<or> (\<exists>j x. wr j s = Ok (s', x))"
  using assms
proof (induction fs arbitrary: k delay r s' ds)
  case (Cons f fs)
  show ?case
  proof (cases rule: faulty_cases [of f "wr k" s])
    case (unchanged x)
    then obtain e where e: "faulty f (wr k) s = (Err e, s)" by (cases x) auto
    show ?thesis
    proof (cases "is_transient e")
      case True
      obtain r1 s1 ds1 where tl: "retry_write limit wr (Suc k) (min (delay * 2) limit) fs s = (r1, s1, ds1)"
        by (metis prod_cases3)
      with Cons.prems e True have "r = r1" "s' = s1" by simp_all
      with Cons.IH [OF tl] show ?thesis by simp
    next
      case False
      with Cons.prems e show ?thesis by auto
    qed
  next
    case (ran s1 x r1)
    have fix1: "\<And>j. \<exists>y. wr j s1 = Ok (s1, y)" using again ran(1) by blast
    have "s' = s1"
    proof (cases r1)
      case (Inl e)
      with Cons.prems ran(2) show ?thesis
        by (auto split: if_splits prod.splits dest: settled_stays [OF fix1])
    next
      case (Inr y)
      with Cons.prems ran(2) show ?thesis by simp
    qed
    with ran(1) show ?thesis by blast
  qed
qed simp

end

end
