(* ===== verification/Config.thy ===== *)
theory Config
  imports Adapter
begin

text \<open>
  The configuration of \<^verbatim>\<open>crates/gum-engine/src/config.rs\<close>: the blocks with their defaults, the tunable
  overrides a chain block may carry and their merge into the defaults of the chain's kind, the amounts
  derived from a chain block, and \<open>Config::validate\<close>, which the process runs before anything else.
  Reading the file and the environment is figment's and serde's work: parsing the raw tunables of a
  chain block is a parameter of \<open>validate\<close>, and the environment is a map.

  The lemmas say exactly which configurations pass and what a configuration that passed guarantees to
  the components built from it.
\<close>

section \<open>Blocks and defaults\<close>

type_synonym u16 = "16 word"

record server_config =
  sv_port :: u16
  sv_body_limit_bytes :: usize
  sv_drain_timeout_ms :: u64

definition server_config_default :: server_config where
  "server_config_default = \<lparr>sv_port = 8080, sv_body_limit_bytes = 256 * 1024, sv_drain_timeout_ms = 25000\<rparr>"

record database_config =
  dbc_url :: string
  dbc_auto_migrate :: bool
  dbc_pipeline_pool_size :: u32
  dbc_api_pool_size :: u32
  dbc_api_statement_timeout_ms :: u64

text \<open>A block in which only the required keys are given.\<close>

definition database_config_of :: "string \<Rightarrow> database_config" where
  "database_config_of url = \<lparr>dbc_url = url, dbc_auto_migrate = True, dbc_pipeline_pool_size = 12,
     dbc_api_pool_size = 6, dbc_api_statement_timeout_ms = 5000\<rparr>"

record webhook_config =
  wc_signing_secret :: string
  wc_allow_private_hosts :: bool
  wc_host_allowlist :: "string list"
  wc_max_concurrency :: usize
  wc_max_per_host :: usize
  wc_timeout_ms :: u64
  wc_max_attempts :: u32
  wc_backoff_base_ms :: u64
  wc_backoff_max_ms :: u64

definition webhook_config_of :: "string \<Rightarrow> webhook_config" where
  "webhook_config_of secret = \<lparr>wc_signing_secret = secret, wc_allow_private_hosts = True,
     wc_host_allowlist = [], wc_max_concurrency = 64, wc_max_per_host = 16, wc_timeout_ms = 10000,
     wc_max_attempts = 12, wc_backoff_base_ms = 1000, wc_backoff_max_ms = 3600000\<rparr>"

record rpc_config =
  rp_account_rps :: u32
  rp_reserved_p1_rps :: u32
  rp_reserved_p2_rps :: u32
  rp_request_timeout_ms :: u64
  rp_connect_timeout_ms :: u64
  rp_monthly_credit_budget :: u64
  rp_daily_credit_cap :: u64

definition rpc_config_default :: rpc_config where
  "rpc_config_default = \<lparr>rp_account_rps = 45, rp_reserved_p1_rps = 8, rp_reserved_p2_rps = 2,
     rp_request_timeout_ms = 10000, rp_connect_timeout_ms = 3000, rp_monthly_credit_budget = 0,
     rp_daily_credit_cap = 0\<rparr>"

datatype signer_mode = LocalMode | KmsMode

record signers_config =
  sc_mode :: signer_mode
  sc_local_private_keys :: "string list"
  sc_kms_key_ids :: "string list"
  sc_kms_timeout_ms :: u64

record queue_config =
  qc_max_depth :: usize
  qc_memory_window :: usize
  qc_sweep_interval_ms :: u64
  qc_max_requeues :: u32

definition queue_config_default :: queue_config where
  "queue_config_default = \<lparr>qc_max_depth = 100000, qc_memory_window = 5000, qc_sweep_interval_ms = 5000,
     qc_max_requeues = 5\<rparr>"

record chain_config =
  cg_chain_id :: u64
  cg_kind :: string
  cg_rpc_url :: "string option"
  cg_rpc_url_env :: "string option"
  cg_rpc_token_env :: "string option"
  cg_fallback_rpc_urls :: "string list"
  cg_treasury_private_key :: "string option"
  cg_treasury_key_id :: "string option"
  cg_signer_min_balance :: u256
  cg_topup_amount :: u256
  cg_initial_topup_amount :: "u256 option"
  cg_treasury_min_balance :: u256
  cg_max_job_cost :: "u256 option"
  cg_max_topups_per_signer_per_hour :: u32
  cg_tunables_raw :: "(string \<times> json) list"

record config =
  cfg_server :: server_config
  cfg_database :: database_config
  cfg_webhook :: webhook_config
  cfg_rpc :: rpc_config
  cfg_signers :: signers_config
  cfg_queue :: queue_config
  cfg_alert_url :: "string option"
  cfg_chains :: "(string \<times> chain_config) list"

section \<open>Tunable overrides\<close>

record tunable_overrides =
  o_block_time_ms :: "u64 option"
  o_confirmation_delay_ms :: "u64 option"
  o_estimate_multiplier_bps :: "u32 option"
  o_max_fee_multiplier_bps :: "u32 option"
  o_priority_fee_wei :: "u128 option"
  o_max_fee_cap_wei :: "u128 option"
  o_cancel_fee_cap_wei :: "u128 option"
  o_fee_ttl_ms :: "u64 option"
  o_stuck_after_blocks :: "u64 option"
  o_max_bumps :: "u32 option"
  o_sync_send_timeout_ms :: "u64 option"
  o_receipt_poll_interval_ms :: "u64 option"
  o_idle_probe_interval_ms :: "u64 option"
  o_degraded_probe_interval_ms :: "u64 option"
  o_stall_warn_ms :: "u64 option"
  o_stall_outage_ms :: "u64 option"
  o_rpc_failure_threshold :: "u32 option"
  o_credits_per_call :: "u32 option"
  o_max_tx_gas :: "u64 option"
  o_balance_sweep_interval_ms :: "u64 option"
  o_topup_wait_timeout_ms :: "u64 option"
  o_liveness :: "liveness_mode option"

definition overridden :: "'a option \<Rightarrow> 'a \<Rightarrow> 'a" where
  "overridden v x = (case v of Some y \<Rightarrow> y | None \<Rightarrow> x)"

lemma overridden_simps [simp]: "overridden None x = x" "overridden (Some y) x = y"
  "overridden v (overridden v x) = overridden v x"
  by (simp_all add: overridden_def split: option.split)

definition with_overrides :: "tunables \<Rightarrow> tunable_overrides \<Rightarrow> tunables" where
  "with_overrides t ov =
     \<lparr>block_time_ms = overridden (o_block_time_ms ov) (block_time_ms t),
      confirmation_delay_ms = overridden (o_confirmation_delay_ms ov) (confirmation_delay_ms t),
      estimate_multiplier_bps = overridden (o_estimate_multiplier_bps ov) (estimate_multiplier_bps t),
      max_fee_multiplier_bps = overridden (o_max_fee_multiplier_bps ov) (max_fee_multiplier_bps t),
      priority_fee_wei = overridden (o_priority_fee_wei ov) (priority_fee_wei t),
      max_fee_cap_wei = overridden (o_max_fee_cap_wei ov) (max_fee_cap_wei t),
      cancel_fee_cap_wei = overridden (o_cancel_fee_cap_wei ov) (cancel_fee_cap_wei t),
      fee_ttl_ms = overridden (o_fee_ttl_ms ov) (fee_ttl_ms t),
      stuck_after_blocks = overridden (o_stuck_after_blocks ov) (stuck_after_blocks t),
      max_bumps = overridden (o_max_bumps ov) (max_bumps t),
      sync_send_timeout_ms = overridden (o_sync_send_timeout_ms ov) (sync_send_timeout_ms t),
      receipt_poll_interval_ms = overridden (o_receipt_poll_interval_ms ov) (receipt_poll_interval_ms t),
      idle_probe_interval_ms = overridden (o_idle_probe_interval_ms ov) (idle_probe_interval_ms t),
      degraded_probe_interval_ms = overridden (o_degraded_probe_interval_ms ov) (degraded_probe_interval_ms t),
      stall_warn_ms = overridden (o_stall_warn_ms ov) (stall_warn_ms t),
      stall_outage_ms = overridden (o_stall_outage_ms ov) (stall_outage_ms t),
      rpc_failure_threshold = overridden (o_rpc_failure_threshold ov) (rpc_failure_threshold t),
      credits_per_call = overridden (o_credits_per_call ov) (credits_per_call t),
      max_tx_gas = overridden (o_max_tx_gas ov) (max_tx_gas t),
      balance_sweep_interval_ms = overridden (o_balance_sweep_interval_ms ov) (balance_sweep_interval_ms t),
      topup_wait_timeout_ms = overridden (o_topup_wait_timeout_ms ov) (topup_wait_timeout_ms t),
      liveness = overridden (o_liveness ov) (liveness t)\<rparr>"

section \<open>Chain blocks\<close>

datatype config_error = NoChains | EmptySigningSecret | NoLocalKeys | NoKmsKeys
  | ChainConfiguredTwice u64
  | TreasuryPrivateKeyRequired string
  | TreasuryKeyIdRequired string
  | BadTunables string string
  | ZeroTopupAmount string
  | ReservedSharesTooLarge
  | RpcUrlEnvNotSet string string
  | NoRpcUrl string

definition resolve_rpc_url :: "(string \<rightharpoonup> string) \<Rightarrow> string \<Rightarrow> chain_config \<Rightarrow> (string, config_error) result" where
  "resolve_rpc_url env name c =
     (case cg_rpc_url_env c of
        Some var \<Rightarrow> (case env var of Some url \<Rightarrow> Ok url | None \<Rightarrow> Err (RpcUrlEnvNotSet name var))
      | None \<Rightarrow> (case cg_rpc_url c of Some url \<Rightarrow> Ok url | None \<Rightarrow> Err (NoRpcUrl name)))"

definition resolve_rpc_token :: "(string \<rightharpoonup> string) \<Rightarrow> chain_config \<Rightarrow> string option" where
  "resolve_rpc_token env c = Option.bind (cg_rpc_token_env c) env"

text \<open>The strict parser of the raw tunables is serde's: a parameter.\<close>

type_synonym tunables_parser = "(string \<times> json) list \<Rightarrow> (tunable_overrides, string) result"

definition overrides :: "tunables_parser \<Rightarrow> string \<Rightarrow> chain_config \<Rightarrow> (tunable_overrides, config_error) result" where
  "overrides parse name c =
     (case parse (cg_tunables_raw c) of Err e \<Rightarrow> Err (BadTunables name e) | Ok o' \<Rightarrow> Ok o')"

definition initial_topup_amount :: "chain_config \<Rightarrow> u256" where
  "initial_topup_amount c = (case cg_initial_topup_amount c of Some a \<Rightarrow> a | None \<Rightarrow> cg_topup_amount c)"

definition max_job_cost :: "chain_config \<Rightarrow> u256" where
  "max_job_cost c = (case cg_max_job_cost c of Some a \<Rightarrow> a | None \<Rightarrow> cg_topup_amount c)"

section \<open>Validation\<close>

definition ensure :: "bool \<Rightarrow> 'e \<Rightarrow> (unit, 'e) result" where
  "ensure b e = (if b then Ok () else Err e)"

lemma ensure_Ok [simp]: "ensure b e = Ok u \<longleftrightarrow> b"
  by (simp add: ensure_def)

text \<open>The loop over the chain blocks, with the set of chain ids seen.\<close>

fun validate_chains :: "tunables_parser \<Rightarrow> signer_mode \<Rightarrow> u64 set \<Rightarrow> (string \<times> chain_config) list \<Rightarrow> (unit, config_error) result" where
  "validate_chains parse mode seen [] = Ok ()"
| "validate_chains parse mode seen ((name, c) # cs) =
     and_then (ensure (cg_chain_id c \<notin> seen) (ChainConfiguredTwice (cg_chain_id c))) (\<lambda>_.
     and_then (case mode of
                 LocalMode \<Rightarrow> ensure (cg_treasury_private_key c \<noteq> None) (TreasuryPrivateKeyRequired name)
               | KmsMode \<Rightarrow> ensure (cg_treasury_key_id c \<noteq> None) (TreasuryKeyIdRequired name)) (\<lambda>_.
     and_then (overrides parse name c) (\<lambda>_.
     and_then (ensure (0 < cg_topup_amount c) (ZeroTopupAmount name)) (\<lambda>_.
     validate_chains parse mode (insert (cg_chain_id c) seen) cs))))"

definition validate :: "tunables_parser \<Rightarrow> config \<Rightarrow> (unit, config_error) result" where
  "validate parse cfg =
     and_then (ensure (cfg_chains cfg \<noteq> []) NoChains) (\<lambda>_.
     and_then (ensure (wc_signing_secret (cfg_webhook cfg) \<noteq> []) EmptySigningSecret) (\<lambda>_.
     and_then (case sc_mode (cfg_signers cfg) of
                 LocalMode \<Rightarrow> ensure (sc_local_private_keys (cfg_signers cfg) \<noteq> []) NoLocalKeys
               | KmsMode \<Rightarrow> ensure (sc_kms_key_ids (cfg_signers cfg) \<noteq> []) NoKmsKeys) (\<lambda>_.
     and_then (validate_chains parse (sc_mode (cfg_signers cfg)) {} (cfg_chains cfg)) (\<lambda>_.
     ensure (rp_reserved_p1_rps (cfg_rpc cfg) + rp_reserved_p2_rps (cfg_rpc cfg) < rp_account_rps (cfg_rpc cfg))
       ReservedSharesTooLarge))))"

text \<open>\<open>parse_wei\<close>: surrounding blanks are dropped, a \<open>0x\<close> prefix selects hex; the digits are read by the
  integer library.\<close>

definition is_blank :: "char \<Rightarrow> bool" where
  "is_blank c = (c \<in> {CHR '' '', CHR 0x09, CHR 0x0A, CHR 0x0B, CHR 0x0C, CHR 0x0D})"

definition str_trim :: "string \<Rightarrow> string" where
  "str_trim s = rev (dropWhile is_blank (rev (dropWhile is_blank s)))"

definition parse_wei :: "(nat \<Rightarrow> string \<Rightarrow> u256 option) \<Rightarrow> string \<Rightarrow> (u256, string) result" where
  "parse_wei from_str_radix s =
     (let s = str_trim s;
          parsed = (if str_starts_with s ''0x'' then from_str_radix 16 (drop 2 s) else from_str_radix 10 s)
      in case parsed of Some v \<Rightarrow> Ok v | None \<Rightarrow> Err (''invalid wei amount `'' @ s @ ''`''))"

datatype wei_repr = WeiStr string | WeiInt u64

primrec de_wei :: "(nat \<Rightarrow> string \<Rightarrow> u256 option) \<Rightarrow> wei_repr \<Rightarrow> (u256, string) result" where
  "de_wei radix (WeiStr s) = parse_wei radix s"
| "de_wei radix (WeiInt n) = Ok (ucast n)"

definition de_wei_opt :: "(nat \<Rightarrow> string \<Rightarrow> u256 option) \<Rightarrow> wei_repr option \<Rightarrow> (u256 option, string) result" where
  "de_wei_opt radix r = (case r of None \<Rightarrow> Ok None | Some w \<Rightarrow> and_then (de_wei radix w) (\<lambda>v. Ok (Some v)))"

section \<open>What passes\<close>

text \<open>What a chain block needs on its own.\<close>

definition chain_block_ok :: "tunables_parser \<Rightarrow> signer_mode \<Rightarrow> chain_config \<Rightarrow> bool" where
  "chain_block_ok parse mode c \<longleftrightarrow>
     (case mode of LocalMode \<Rightarrow> cg_treasury_private_key c \<noteq> None | KmsMode \<Rightarrow> cg_treasury_key_id c \<noteq> None)
     \<and> (\<exists>ov. parse (cg_tunables_raw c) = Ok ov) \<and> 0 < cg_topup_amount c"

lemma overrides_Ok: "overrides parse name c = Ok ov \<longleftrightarrow> parse (cg_tunables_raw c) = Ok ov"
  by (simp add: overrides_def split: sum.split)

lemma validate_chains_Cons:
  "validate_chains parse mode seen ((n, c) # cs) = Ok () \<longleftrightarrow>
     cg_chain_id c \<notin> seen \<and> chain_block_ok parse mode c
     \<and> validate_chains parse mode (insert (cg_chain_id c) seen) cs = Ok ()"
  by (cases mode) (auto simp: and_then_eq_Ok overrides_Ok chain_block_ok_def)

lemma validate_chains_iff:
  "validate_chains parse mode seen cs = Ok () \<longleftrightarrow>
     distinct (map (cg_chain_id \<circ> snd) cs) \<and> (cg_chain_id \<circ> snd) ` set cs \<inter> seen = {}
     \<and> list_all (chain_block_ok parse mode \<circ> snd) cs"
proof (induction cs arbitrary: seen)
  case (Cons x cs)
  obtain n c where x: "x = (n, c)" by (cases x)
  show ?case unfolding x validate_chains_Cons Cons.IH by (auto simp: comp_def)
qed simp

lemma validate_chains_ids:
  "validate_chains parse mode {} cs = Ok () \<Longrightarrow> (n, c) \<in> set cs \<Longrightarrow> (m, d) \<in> set cs
   \<Longrightarrow> cg_chain_id c = cg_chain_id d \<Longrightarrow> (n, c) = (m, d)"
  unfolding validate_chains_iff using distinct_map_inj [of "cg_chain_id \<circ> snd" cs "(n, c)" "(m, d)"] by simp

text \<open>C37. Which configurations boot: \<open>validate\<close> accepts exactly the configurations with at least one
  chain and a signing secret, at least one key of the selected signer mode, chain ids that are pairwise
  different, for every chain a treasury key of that mode, tunables that parse and a positive top-up
  amount, and reserved request shares whose 32-bit sum is below the account's rate.\<close>

theorem validate_accepts_exactly:
  "validate parse cfg = Ok () \<longleftrightarrow>
     cfg_chains cfg \<noteq> [] \<and> wc_signing_secret (cfg_webhook cfg) \<noteq> []
     \<and> (if sc_mode (cfg_signers cfg) = LocalMode then sc_local_private_keys (cfg_signers cfg) \<noteq> []
        else sc_kms_key_ids (cfg_signers cfg) \<noteq> [])
     \<and> distinct (map (cg_chain_id \<circ> snd) (cfg_chains cfg))
     \<and> list_all (chain_block_ok parse (sc_mode (cfg_signers cfg)) \<circ> snd) (cfg_chains cfg)
     \<and> (unat (rp_reserved_p1_rps (cfg_rpc cfg)) + unat (rp_reserved_p2_rps (cfg_rpc cfg))) mod 2 ^ 32
         < unat (rp_account_rps (cfg_rpc cfg))"
  by (cases "sc_mode (cfg_signers cfg)")
    (auto simp: validate_def and_then_eq_Ok validate_chains_iff word_less_nat_alt unat_word_ariths)

text \<open>The addition of the reserved shares wraps: shares far above the account's rate can pass.\<close>

lemma reserved_shares_wrap:
  "rp_reserved_p1_rps r = 0x80000000 \<Longrightarrow> rp_reserved_p2_rps r = 0x80000000 \<Longrightarrow> rp_account_rps r = 45
   \<Longrightarrow> rp_reserved_p1_rps r + rp_reserved_p2_rps r < rp_account_rps r \<and> rp_account_rps r < rp_reserved_p1_rps r"
  by simp

section \<open>Overrides\<close>

definition no_overrides :: tunable_overrides where
  "no_overrides = \<lparr>o_block_time_ms = None, o_confirmation_delay_ms = None, o_estimate_multiplier_bps = None,
     o_max_fee_multiplier_bps = None, o_priority_fee_wei = None, o_max_fee_cap_wei = None,
     o_cancel_fee_cap_wei = None, o_fee_ttl_ms = None, o_stuck_after_blocks = None, o_max_bumps = None,
     o_sync_send_timeout_ms = None, o_receipt_poll_interval_ms = None, o_idle_probe_interval_ms = None,
     o_degraded_probe_interval_ms = None, o_stall_warn_ms = None, o_stall_outage_ms = None,
     o_rpc_failure_threshold = None, o_credits_per_call = None, o_max_tx_gas = None,
     o_balance_sweep_interval_ms = None, o_topup_wait_timeout_ms = None, o_liveness = None\<rparr>"

lemma with_no_overrides: "with_overrides t no_overrides = t"
  by (simp add: with_overrides_def no_overrides_def)

lemma with_overrides_idem: "with_overrides (with_overrides t ov) ov = with_overrides t ov"
  by (simp add: with_overrides_def)

end
