(* ===== verification/Chain_Ctx.thy ===== *)
theory Chain_Ctx
  imports Config Job_Queue
begin

text \<open>
  The runtime state of one configured chain, \<^verbatim>\<open>crates/gum-engine/src/chain/mod.rs\<close>: the health view
  (status, highest block seen, when it last moved), the last base-fee observation, the learned L1 fee
  per byte, the operator switches and the queue. Block headers are the wire type of
  \<^verbatim>\<open>rpc/types.rs\<close>. The clock is an argument; the answer of the RPC call that a refresh may make is an
  argument too, and the operation says whether it made the call.

  The lemmas show that the head only moves forward and that an advance is dated, that a base fee is
  fresh or has just been read, and that the learned L1 fee stays between the samples it was fed.
\<close>

section \<open>State\<close>

record block =
  bk_number :: u64
  bk_hash :: b256
  bk_parent_hash :: b256
  bk_timestamp :: u64
  bk_base_fee_per_gas :: "u256 option"
  bk_transactions :: "b256 list"

definition base_fee_u128 :: "block \<Rightarrow> u128 option" where
  "base_fee_u128 b = map_option sat_cast (bk_base_fee_per_gas b)"

datatype chain_status = Healthy | Degraded | Down

record health_view =
  hv_status :: chain_status
  hv_head_number :: u64
  hv_head_hash :: "b256 option"
  hv_last_observed :: "instant option"
  hv_last_advance :: "instant option"

record fee_state =
  fs_base_fee :: u128
  fs_observed :: instant

record chain_ctx =
  cc_chain_id :: chain_id
  cc_cfg :: chain_config
  cc_adapter :: chain_adapter
  cc_tunables :: tunables
  cc_queue :: job_queue
  cc_sync_send :: bool
  cc_operator_paused :: bool
  cc_started :: bool
  cc_health :: health_view
  cc_fees :: "fee_state option"
  cc_l1_fee_per_byte :: "u256 option"

definition chain_ctx_new :: "chain_config \<Rightarrow> chain_adapter \<Rightarrow> tunables \<Rightarrow> usize \<Rightarrow> chain_ctx" where
  "chain_ctx_new cfg adapter t window =
     \<lparr>cc_chain_id = cg_chain_id cfg, cc_cfg = cfg, cc_adapter = adapter, cc_tunables = t,
      cc_queue = queue_new window, cc_sync_send = False, cc_operator_paused = False, cc_started = False,
      cc_health = \<lparr>hv_status = Healthy, hv_head_number = 0, hv_head_hash = None, hv_last_observed = None,
                   hv_last_advance = None\<rparr>,
      cc_fees = None, cc_l1_fee_per_byte = None\<rparr>"

text \<open>Durations in nanoseconds; \<open>elapsed\<close> of an instant that is not in the past is zero.\<close>

definition ms :: "nat \<Rightarrow> duration" where
  "ms n = n * 1000000"

definition millis :: "u64 \<Rightarrow> duration" where
  "millis n = ms (unat n)"

definition elapsed :: "instant \<Rightarrow> instant \<Rightarrow> duration" where
  "elapsed now t = now - t"

section \<open>Operations\<close>

definition confirm_check_of :: "chain_ctx \<Rightarrow> confirm_check" where
  "confirm_check_of c =
     (if confirmation_delay_ms (cc_tunables c) = 0 then Immediate else ad_confirm_check (cc_adapter c))"

definition chain_status_of :: "chain_ctx \<Rightarrow> chain_status" where
  "chain_status_of c = hv_status (cc_health c)"

definition is_accepting_work :: "chain_ctx \<Rightarrow> bool" where
  "is_accepting_work c = (chain_status_of c \<noteq> Down \<and> \<not> cc_operator_paused c)"

definition chain_head :: "chain_ctx \<Rightarrow> u64" where
  "chain_head c = hv_head_number (cc_health c)"

definition observe_head :: "instant \<Rightarrow> u64 \<Rightarrow> b256 option \<Rightarrow> chain_ctx \<Rightarrow> bool \<times> chain_ctx" where
  "observe_head now number hash c =
     (let h = (cc_health c)\<lparr>hv_last_observed := Some now\<rparr>
      in if hv_head_number h < number \<or> hv_last_advance h = None
         then (True, c\<lparr>cc_health := h\<lparr>hv_head_number := max (hv_head_number h) number,
                                       hv_head_hash := (case hash of Some x \<Rightarrow> Some x | None \<Rightarrow> hv_head_hash h),
                                       hv_last_advance := Some now\<rparr>\<rparr>)
         else (False, c\<lparr>cc_health := h\<rparr>))"

definition set_chain_status :: "chain_status \<Rightarrow> chain_ctx \<Rightarrow> chain_status \<times> chain_ctx" where
  "set_chain_status s c = (hv_status (cc_health c), c\<lparr>cc_health := (cc_health c)\<lparr>hv_status := s\<rparr>\<rparr>)"

definition observe_base_fee :: "instant \<Rightarrow> u128 \<Rightarrow> chain_ctx \<Rightarrow> chain_ctx" where
  "observe_base_fee now base c = c\<lparr>cc_fees := Some \<lparr>fs_base_fee = base, fs_observed = now\<rparr>\<rparr>"

definition observe_block :: "instant \<Rightarrow> block \<Rightarrow> chain_ctx \<Rightarrow> chain_ctx" where
  "observe_block now b c =
     (let c = snd (observe_head now (bk_number b) (Some (bk_hash b)) c)
      in case base_fee_u128 b of Some base \<Rightarrow> observe_base_fee now base c | None \<Rightarrow> c)"

definition observe_receipt_price :: "instant \<Rightarrow> u128 \<Rightarrow> u128 \<Rightarrow> chain_ctx \<Rightarrow> chain_ctx" where
  "observe_receipt_price now effective priority c =
     (if 0 < effective then observe_base_fee now (sat_sub effective priority) c else c)"

definition observe_l1_fee :: "u256 \<Rightarrow> usize \<Rightarrow> chain_ctx \<Rightarrow> chain_ctx" where
  "observe_l1_fee l1 encoded_len c =
     (if encoded_len = 0 then c
      else let sample = l1 div ucast encoded_len
           in c\<lparr>cc_l1_fee_per_byte := Some (case cc_l1_fee_per_byte c of
                   Some prev \<Rightarrow> (prev * 3 + sample) div 4 | None \<Rightarrow> sample)\<rparr>)"

definition cost_context_of :: "chain_ctx \<Rightarrow> cost_context" where
  "cost_context_of c = \<lparr>l1_fee_per_byte = cc_l1_fee_per_byte c\<rparr>"

definition fresh_base_fee :: "instant \<Rightarrow> chain_ctx \<Rightarrow> u128 option" where
  "fresh_base_fee now c =
     (case cc_fees c of
        Some f \<Rightarrow> if elapsed now (fs_observed f) < millis (fee_ttl_ms (cc_tunables c)) then Some (fs_base_fee f) else None
      | None \<Rightarrow> None)"

definition last_base_fee :: "chain_ctx \<Rightarrow> u128 option" where
  "last_base_fee c = map_option fs_base_fee (cc_fees c)"

text \<open>The answer to \<open>eth_getBlockByNumber\<close>; \<open>base_fee\<close> also says whether it had to ask.\<close>

type_synonym block_answer = "(block option, rpc_error) result"

definition base_fee :: "instant \<Rightarrow> bool \<Rightarrow> block_answer \<Rightarrow> chain_ctx \<Rightarrow> (u128, rpc_error) result \<times> bool \<times> chain_ctx" where
  "base_fee now force_refresh latest c =
     (case (if force_refresh then None else fresh_base_fee now c) of
        Some base \<Rightarrow> (Ok base, False, c)
      | None \<Rightarrow> (case latest of
           Err e \<Rightarrow> (Err e, True, c)
         | Ok None \<Rightarrow> (Err (Decode ''latest block is null''), True, c)
         | Ok (Some b) \<Rightarrow> (Ok (case base_fee_u128 b of Some x \<Rightarrow> x | None \<Rightarrow> 0), True, observe_block now b c)))"

definition ctx_fee_quote :: "instant \<Rightarrow> bool \<Rightarrow> block_answer \<Rightarrow> chain_ctx \<Rightarrow> (fee_quote, rpc_error) result \<times> bool \<times> chain_ctx" where
  "ctx_fee_quote now force_refresh latest c =
     (case base_fee now force_refresh latest c of
        (Err e, asked, c) \<Rightarrow> (Err e, asked, c)
      | (Ok base, asked, c) \<Rightarrow> (Ok (ad_fee_quote (cc_adapter c) base (cc_tunables c)), asked, c))"

definition send_mode :: "chain_ctx \<Rightarrow> string" where
  "send_mode c = (if cc_sync_send c then ''sync'' else ''async'')"

section \<open>Observations\<close>

text \<open>Everything that is ever observed about a chain, at the time it is observed.\<close>

datatype observation = SawHead u64 "b256 option" | SawBlock block | SawReceiptPrice u128 u128 | SawL1Fee u256 usize
  | SetStatus chain_status

fun observe :: "instant \<times> observation \<Rightarrow> chain_ctx \<Rightarrow> chain_ctx" where
  "observe (now, SawHead n h) c = snd (observe_head now n h c)"
| "observe (now, SawBlock b) c = observe_block now b c"
| "observe (now, SawReceiptPrice e p) c = observe_receipt_price now e p c"
| "observe (now, SawL1Fee l n) c = observe_l1_fee l n c"
| "observe (now, SetStatus s) c = snd (set_chain_status s c)"

lemmas observe_defs = observe_head_def observe_block_def observe_base_fee_def observe_receipt_price_def
  observe_l1_fee_def set_chain_status_def chain_head_def

lemma observe_head_mono: "chain_head c \<le> chain_head (observe ob c)"
  by (cases "(ob, c)" rule: observe.cases) (auto simp: observe_defs Let_def split: option.split)

lemma observe_run_mono: "chain_head c \<le> chain_head (fold observe obs c)"
  by (induction obs arbitrary: c) (auto intro: order_trans observe_head_mono)

lemma chain_head_observe_head: "chain_head (snd (observe_head now n h c)) = max (chain_head c) n \<or>
    chain_head (snd (observe_head now n h c)) = chain_head c \<and> n \<le> chain_head c"
  by (auto simp: observe_defs Let_def)

lemma observe_head_ge: "n \<le> chain_head (snd (observe_head now n h c))"
  by (auto simp: observe_defs Let_def)

lemma chain_head_observe_base_fee [simp]: "chain_head (observe_base_fee now b c) = chain_head c"
  by (simp add: observe_defs)

lemma observe_block_ge: "bk_number b \<le> chain_head (observe_block now b c)"
  using observe_head_ge [of "bk_number b" now "Some (bk_hash b)" c]
  by (simp add: observe_block_def Let_def split: option.split)

lemma observe_tunables [simp]:
  "cc_tunables (snd (observe_head now n h c)) = cc_tunables c" "cc_tunables (observe_block now b c) = cc_tunables c"
  by (simp_all add: observe_defs Let_def split: option.split)

section \<open>Fees\<close>

text \<open>The learned fee: a weighted mean of the last value and the sample lies between them, when the
  intermediate product does not leave 256 bits.\<close>

lemma ewma_between:
  fixes prev sample :: u256
  assumes "unat prev * 3 + unat sample < 2 ^ 256"
  shows "min prev sample \<le> (prev * 3 + sample) div 4 \<and> (prev * 3 + sample) div 4 \<le> max prev sample"
proof -
  have p: "unat (prev * 3) = unat prev * 3" using assms by (simp add: unat_word_ariths)
  then have s: "unat (prev * 3 + sample) = unat prev * 3 + unat sample"
    using assms by (simp add: unat_word_ariths)
  have e: "unat ((prev * 3 + sample) div 4) = (unat prev * 3 + unat sample) div 4"
    by (simp add: unat_div s)
  show ?thesis unfolding word_le_nat_alt e by (auto simp: unat_min unat_max min_def max_def word_le_nat_alt)
qed

text \<open>The chain's picture is conservative. Whatever is observed in whatever order, the head never
  moves back and is at least every block seen; a base fee that is handed out without asking the node is
  one observed less than the freshness limit ago, and one that was asked for is the one of the block the
  node returned; a failed read changes nothing.\<close>

theorem chain_picture_is_conservative:
  "chain_head c \<le> chain_head (fold observe obs c)
   \<and> bk_number b \<le> chain_head (fold observe obs (observe_block now b c))
   \<and> (case base_fee now' force latest c of
         (Ok base, False, c') \<Rightarrow> c' = c \<and> \<not> force \<and> (\<exists>f. cc_fees c = Some f \<and> fs_base_fee f = base
            \<and> elapsed now' (fs_observed f) < millis (fee_ttl_ms (cc_tunables c)))
       | (Ok base, True, c') \<Rightarrow> (\<exists>blk. latest = Ok (Some blk) \<and> c' = observe_block now' blk c
            \<and> base = (case base_fee_u128 blk of Some x \<Rightarrow> x | None \<Rightarrow> 0))
       | (Err e, asked, c') \<Rightarrow> asked \<and> c' = c \<and> latest = (case latest of Err e' \<Rightarrow> Err e | Ok x \<Rightarrow> Ok None))"
  using observe_run_mono [of c obs] order_trans [OF observe_block_ge [of b now c] observe_run_mono [of _ obs]]
  by (auto simp: base_fee_def fresh_base_fee_def split: option.splits sum.splits)

end
