(* ===== verification/Settle.thy ===== *)
theory Settle
  imports Faults Store_Theorems Chain_Ctx
begin

text \<open>
  The write-behind of \<^verbatim>\<open>crates/gum-engine/src/pipeline/settle.rs\<close>: one queue per chain, strictly first-in
  first-out, of the writes that follow a mined transaction. \<open>apply\<close> repeats a write while its failures are
  transient and parks it in the dead letters otherwise; \<open>Flush\<close> is the barrier that recovery and re-org
  handling wait for. Every round of a retry draws its own clock and event identifiers (\<open>rounds\<close>); the
  fault schedule says what the connection does in each round.

  The lemmas show that lost answers never apply a write twice, that a write ends as soon as the database
  answers, and that a resolved barrier means that everything queued before it is written or parked.
\<close>

section \<open>Operations\<close>

datatype settle_op = SInclusion attempt inclusion bool bool | SConfirmation attempt | SFlush nat

definition SETTLE_QUEUE_DEPTH :: usize where
  "SETTLE_QUEUE_DEPTH = 10000"

type_synonym rounds = "nat \<Rightarrow> timestamp \<times> uuid \<times> uuid"

primrec settle_write :: "settle_op \<Rightarrow> rounds \<Rightarrow> nat \<Rightarrow> db \<Rightarrow> (db \<times> settled, store_error) result" where
  "settle_write (SInclusion a inc confirm_now reincluded) rs k d =
     (case rs k of (now, ev1, ev2) \<Rightarrow> settle_inclusion now ev1 ev2 a inc confirm_now reincluded d)"
| "settle_write (SConfirmation a) rs k d = (case rs k of (now, ev1, ev2) \<Rightarrow> settle_confirmation now ev1 a d)"
| "settle_write (SFlush n) rs k d = Ok (d, Noop)"

text \<open>The hyphenated text of an identifier.\<close>

definition uuid_str :: "uuid \<Rightarrow> string" where
  "uuid_str i = (let h = hex_nibbles 32 (unat i) in
     take 8 h @ ''-'' @ take 4 (drop 8 h) @ ''-'' @ take 4 (drop 12 h) @ ''-'' @ take 4 (drop 16 h) @ ''-'' @ drop 20 h)"

definition dead_letter_payload :: "string \<Rightarrow> attempt \<Rightarrow> json" where
  "dead_letter_payload what a =
     JObj [(''what'', JStr what), (''attempt_id'', JStr (uuid_str (at_id a))), (''chain_id'', JNum (uint (at_chain_id a))),
       (''signer'', JStr (addr_hex (at_signer a))), (''nonce'', JNum (uint (at_nonce a))),
       (''tx_hash'', JStr (hash_hex (at_tx_hash a))), (''owner'', JStr (uuid_str (owner_id (at_owner a))))]"

text \<open>What the world does during one \<open>apply\<close>: the rounds and faults of the write, and the clock,
  identifier and fault of the dead letter if one is written. The text of an error is a parameter.\<close>

record apply_env =
  ae_rounds :: rounds
  ae_faults :: "fault list"
  ae_dl_now :: timestamp
  ae_dl_id :: uuid
  ae_dl_fault :: fault

definition settle_apply :: "(store_error \<Rightarrow> string) \<Rightarrow> apply_env \<Rightarrow> string \<Rightarrow> attempt \<Rightarrow> settle_op \<Rightarrow> db
    \<Rightarrow> settled write_end \<times> db" where
  "settle_apply show_error env what a op d =
     (case retry_write (ms 5000) (settle_write op (ae_rounds env)) 0 (ms 100) (ae_faults env) d of
        (Written x, d', _) \<Rightarrow> (Written x, d')
      | (StillTrying, d', _) \<Rightarrow> (StillTrying, d')
      | (GaveUp e, d', _) \<Rightarrow>
          (GaveUp e, snd (faulty (ae_dl_fault env)
             (\<lambda>d. and_then (dead_letter (ae_dl_now env) (ae_dl_id env) (''settle.'' @ what)
                               (dead_letter_payload what a) (show_error e) d) (\<lambda>d. Ok (d, ()))) d')))"

record settler =
  st_queue :: "settle_op list"
  st_flushed :: "nat list"

text \<open>One turn of the task: it takes the next operation and finishes it; \<open>None\<close> while it is still
  retrying or when the queue is empty.\<close>

definition settle_turn :: "(store_error \<Rightarrow> string) \<Rightarrow> apply_env \<Rightarrow> settler \<times> db \<Rightarrow> (settler \<times> db) option" where
  "settle_turn show_error env sd =
     (case st_queue (fst sd) of
        [] \<Rightarrow> None
      | op # ops \<Rightarrow>
          let s = (fst sd)\<lparr>st_queue := ops\<rparr>
          in (case op of
                SFlush n \<Rightarrow> Some (s\<lparr>st_flushed := st_flushed s @ [n]\<rparr>, snd sd)
              | SInclusion a inc c r \<Rightarrow>
                  (case settle_apply show_error env ''inclusion'' a op (snd sd) of
                     (StillTrying, d) \<Rightarrow> None | (_, d) \<Rightarrow> Some (s, d))
              | SConfirmation a \<Rightarrow>
                  (case settle_apply show_error env ''confirmation'' a op (snd sd) of
                     (StillTrying, d) \<Rightarrow> None | (_, d) \<Rightarrow> Some (s, d))))"

definition settle_send :: "settle_op \<Rightarrow> settler \<Rightarrow> settler" where
  "settle_send op s = s\<lparr>st_queue := st_queue s @ [op]\<rparr>"

section \<open>Exactly once\<close>

lemma settle_inclusion_result:
  "settle_inclusion now ev1 ev2 a inc c re d = Ok (d', x) \<Longrightarrow> x = Applied \<or> d' = d \<and> x = Noop"
  by (erule settle_inclusionE) simp_all

lemma settle_confirmation_result:
  "settle_confirmation now ev a d = Ok (d', x) \<Longrightarrow> x = Applied \<or> d' = d \<and> x = Noop"
  unfolding settle_confirmation_def by (erule confirm_in_txE) simp_all

text \<open>A no-op depends only on the attempt's status, not on the clock or the identifiers.\<close>

lemma settle_inclusion_noop_again:
  assumes "settle_inclusion now ev1 ev2 a inc c re d = Ok (d, Noop)"
  shows "settle_inclusion now' ev1' ev2' a inc c re d = Ok (d, Noop)"
  using assms
proof (cases rule: settle_inclusionE)
  case noop
  have "\<not> mined_conflict a (db_attempts d)" using assms by (auto simp: settle_inclusion_def split: if_splits)
  with noop show ?thesis by (simp add: settle_inclusion_def)
qed simp

lemma settle_confirmation_noop_again:
  assumes "settle_confirmation now ev a d = Ok (d, Noop)"
  shows "settle_confirmation now' ev' a d = Ok (d, Noop)"
  using assms by (auto simp: settle_confirmation_def confirm_in_tx_def Let_def and_then_eq_Ok split: if_splits)

lemma settle_write_again:
  assumes "settle_write op rs k d = Ok (d', x)"
  shows "\<exists>y. settle_write op rs j d' = Ok (d', y)"
proof (cases op)
  case (SInclusion a inc c re)
  obtain now ev1 ev2 where k: "rs k = (now, ev1, ev2)" by (cases "rs k")
  obtain now' ev1' ev2' where j: "rs j = (now', ev1', ev2')" by (cases "rs j")
  show ?thesis
    using assms SInclusion k j settle_inclusion_result [of now ev1 ev2 a inc c re d d' x]
      settle_inclusion_again [of now ev1 ev2 a inc c re d d' now' ev1' ev2' inc c re]
      settle_inclusion_noop_again [of now ev1 ev2 a inc c re d now' ev1' ev2'] by auto
next
  case (SConfirmation a)
  obtain now ev1 ev2 where k: "rs k = (now, ev1, ev2)" by (cases "rs k")
  obtain now' ev1' ev2' where j: "rs j = (now', ev1', ev2')" by (cases "rs j")
  show ?thesis
    using assms SConfirmation k j settle_confirmation_result [of now ev1 a d d' x]
      settle_confirmation_again [of now ev1 a d d' now' ev1'] settle_confirmation_noop_again [of now ev1 a d now' ev1'] by auto
next
  case (SFlush n)
  with assms show ?thesis by simp
qed

interpretation settle_retry: retried_write "settle_write op rs" for op rs
  by unfold_locales (rule settle_write_again)

lemma enqueue_error: "enqueue now i job ev sq re ws = Err e \<Longrightarrow> e = unique_violation"
  by (auto simp: enqueue_def Let_def split: if_splits)

lemma announce_error: "announce now ev p f w re bkt d = Err e \<Longrightarrow> e = unique_violation"
  by (auto simp: announce_def and_then_def Let_def split: option.splits sum.splits dest: enqueue_error)

lemma not_transient [simp]: "\<not> is_transient unique_violation" "\<not> is_transient (StateConflict x i y)"
  by (simp_all add: is_transient_def unique_violation_def)

lemma confirm_in_tx_error: "confirm_in_tx now ev a d = Err e \<Longrightarrow> e = unique_violation"
  by (auto simp: confirm_in_tx_def and_then_def Let_def
      split: if_splits sum.splits slot_owner.splits attempt_purpose.splits dest: announce_error)

lemma settle_inclusion_error:
  assumes "settle_inclusion now ev1 ev2 a inc c re d = Err e"
  shows "\<not> is_transient e"
  using assms
  by (auto simp: settle_inclusion_def and_then_def Let_def
      split: if_splits sum.splits slot_owner.splits attempt_purpose.splits prod.splits
      dest!: announce_error confirm_in_tx_error)

lemma settle_write_error: "settle_write op rs k d = Err e \<Longrightarrow> \<not> is_transient e"
  by (cases op)
    (auto simp: settle_confirmation_def split: prod.splits dest: settle_inclusion_error confirm_in_tx_error)

text \<open>The loop ends with the first round the database answers.\<close>

lemma answered_write_ends:
  "Works \<in> set fs \<Longrightarrow> fst (retry_write limit (settle_write op rs) k delay fs d) \<noteq> StillTrying"
proof (induction fs arbitrary: k delay d)
  case (Cons f fs)
  show ?case
  proof (cases "f = Works")
    case True
    then show ?thesis
      using settle_write_error [of op rs k d]
      by (auto simp: faulty_def split: sum.split prod.split)
  next
    case False
    then show ?thesis using Cons by (auto split: sum.split prod.split) (metis fst_conv)+
  qed
qed simp

text \<open>C13. Lost answers never settle twice. Whatever the connection does in each round, when the retry loop of
  the write-behind stops, the database is the one it started from or the one that a single application of
  the write gives, and it is the latter whenever the loop saw its answer; the loop stops as soon as one
  round is answered, and it never sleeps longer than five seconds.\<close>

theorem lost_answers_never_settle_twice:
  assumes "retry_write (ms 5000) (settle_write op rs) 0 (ms 100) fs d = (r, d', slept)"
  shows "((d' = d \<and> (\<nexists>x. r = Written x)) \<or> (\<exists>j x. settle_write op rs j d = Ok (d', x)))
    \<and> (Works \<in> set fs \<longrightarrow> r \<noteq> StillTrying)
    \<and> list_all (\<lambda>x. x \<le> ms 5000) slept"
  using settle_retry.applied_once [OF assms] answered_write_ends [of fs "ms 5000" op rs 0 "ms 100" d]
    retry_delays [OF _ assms] assms
  by (simp add: ms_def)

text \<open>The connection breaks after the commit of the inclusion; the second round is answered.\<close>

theorem lost_answers_never_settle_twice_witness:
  "\<exists>j x. settle_write (SInclusion demo_second demo_inclusion False False) (\<lambda>k. (5 + int k, 400, 401)) j demo_db3
     = Ok (snd (faulty (LostAfter SqlxIo)
         (settle_write (SInclusion demo_second demo_inclusion False False) (\<lambda>k. (5 + int k, 400, 401)) 0) demo_db3), x)"
proof -
  let ?w = "settle_write (SInclusion demo_second demo_inclusion False False) (\<lambda>k. (5 + int k, 400, 401))"
  have w0: "?w 0 demo_db3 = Ok (demo_db4, Applied)" using demo_include by simp
  have w1: "?w 1 demo_db4 = Ok (demo_db4, Noop)"
    using settle_inclusion_again [of 5 400 401 demo_second demo_inclusion False False demo_db3 demo_db4 "5 + int 1" 400 401]
      demo_include by simp
  have t: "is_transient (Db SqlxIo)" by (simp add: is_transient_def)
  have run: "retry_write (ms 5000) ?w 0 (ms 100) [LostAfter SqlxIo, Works] demo_db3 = (Written Noop, demo_db4, [ms 100])"
    using w0 w1 t by (simp add: faulty_def del: settle_write.simps)
  show ?thesis
    using lost_answers_never_settle_twice [OF run] w0 by (auto simp: faulty_def simp del: settle_write.simps)
qed

section \<open>The barrier\<close>

text \<open>The task's history: what was sent to it, and what it has finished, in order.\<close>

inductive settler_run :: "(store_error \<Rightarrow> string) \<Rightarrow> settler \<times> db \<Rightarrow> settle_op list \<Rightarrow> settle_op list \<Rightarrow> bool"
  for show_error where
  start: "settler_run show_error (\<lparr>st_queue = [], st_flushed = []\<rparr>, d) [] []"
| send: "settler_run show_error (s, d) sent fin \<Longrightarrow> settler_run show_error (settle_send op s, d) (sent @ [op]) fin"
| turn: "settler_run show_error (s, d) sent fin \<Longrightarrow> settle_turn show_error env (s, d) = Some sd
    \<Longrightarrow> settler_run show_error sd sent (fin @ [hd (st_queue s)])"

definition flushes :: "settle_op list \<Rightarrow> nat list" where
  "flushes ops = concat (map (\<lambda>op. case op of SFlush n \<Rightarrow> [n] | _ \<Rightarrow> []) ops)"

lemma settle_turn_queue:
  assumes "settle_turn show_error env (s, d) = Some (s', d')"
  shows "st_queue s = hd (st_queue s) # st_queue s' \<and> st_flushed s' = st_flushed s @ flushes [hd (st_queue s)]"
  using assms
  by (auto simp: settle_turn_def flushes_def Let_def split: list.splits settle_op.splits prod.splits write_end.splits)

text \<open>First-in first-out: what was sent is what is finished followed by what still waits, so a resolved
  barrier has everything that was sent before it finished.\<close>

lemma settle_fifo:
  "settler_run show_error sd sent fin \<Longrightarrow> sent = fin @ st_queue (fst sd) \<and> st_flushed (fst sd) = flushes fin"
proof (induction rule: settler_run.induct)
  case (turn s d sent fin env sd)
  obtain s' d' where sd: "sd = (s', d')" by (cases sd)
  with settle_turn_queue [of show_error env s d s' d'] turn show ?case by (auto simp: flushes_def)
qed (auto simp: settle_send_def flushes_def)

lemma barrier_means_written:
  assumes "settler_run show_error (s, d) (before @ SFlush n # after) fin" and "n \<in> set (st_flushed s)"
    and "n \<notin> set (flushes before)"
  shows "prefix (before @ [SFlush n]) fin"
proof -
  have e: "before @ SFlush n # after = fin @ st_queue s" and f: "st_flushed s = flushes fin"
    using settle_fifo [OF assms(1)] by simp_all
  show ?thesis
  proof (rule ccontr)
    assume "\<not> prefix (before @ [SFlush n]) fin"
    moreover have "prefix fin (before @ SFlush n # after)" using e by (metis prefixI)
    moreover have "prefix (before @ [SFlush n]) (before @ SFlush n # after)" by (simp add: prefix_def)
    ultimately have "prefix fin (before @ [SFlush n])" "fin \<noteq> before @ [SFlush n]"
      using prefix_same_cases by blast+
    then have "prefix fin before" by (simp add: prefix_snoc)
    then have "n \<in> set (flushes before)" using assms(2) f
      by (auto simp: prefix_def flushes_def)
    with assms(3) show False by simp
  qed
qed

end
