(* ===== verification/Btree.thy ===== *)
theory Btree
  imports Prelude "HOL-Library.Multiset" "HOL-Library.Product_Lexorder" "HOL-Library.Option_ord"
begin

text \<open>
  \<open>BTreeMap\<close> as the sources use it: an association list in ascending key order without duplicates.
  \<open>entry(k).or_default()\<close> followed by a change of the value is \<open>bt_upsert\<close>, which inserts the default
  at its place in the order when the key is absent; iteration is the list itself. Keys are compared as
  \<open>Ord\<close> compares them: pairs lexicographically and \<open>None\<close> before every \<open>Some\<close>.
\<close>

type_synonym ('k, 'v) btree = "('k \<times> 'v) list"

definition bt_ok :: "('k::linorder, 'v) btree \<Rightarrow> bool" where
  "bt_ok m = sorted_wrt (<) (map fst m)"

fun bt_upsert :: "'k::linorder \<Rightarrow> 'v \<Rightarrow> ('v \<Rightarrow> 'v) \<Rightarrow> ('k, 'v) btree \<Rightarrow> ('k, 'v) btree" where
  "bt_upsert k d f [] = [(k, f d)]"
| "bt_upsert k d f ((k', v) # m) =
     (if k < k' then (k, f d) # (k', v) # m
      else if k = k' then (k, f v) # m
      else (k', v) # bt_upsert k d f m)"

definition bt_get :: "('k, 'v) btree \<Rightarrow> 'k \<Rightarrow> 'v option" where
  "bt_get m k = map_of m k"

text \<open>\<open>get(&k).cloned().unwrap_or_default()\<close>.\<close>

definition bt_get_or :: "'v \<Rightarrow> ('k, 'v) btree \<Rightarrow> 'k \<Rightarrow> 'v" where
  "bt_get_or d m k = (case map_of m k of None \<Rightarrow> d | Some v \<Rightarrow> v)"

lemma bt_ok_Nil [simp]: "bt_ok []"
  by (simp add: bt_ok_def)

lemma bt_ok_Cons: "bt_ok ((k, v) # m) \<longleftrightarrow> (\<forall>x \<in> fst ` set m. k < x) \<and> bt_ok m"
  by (auto simp: bt_ok_def)

lemma bt_keys_upsert [simp]: "fst ` set (bt_upsert k d f m) = insert k (fst ` set m)"
  by (induction k d f m rule: bt_upsert.induct) auto

lemma bt_ok_upsert [simp]: "bt_ok m \<Longrightarrow> bt_ok (bt_upsert k d f m)"
  by (induction k d f m rule: bt_upsert.induct) (auto simp: bt_ok_Cons)

lemma bt_ok_distinct: "bt_ok m \<Longrightarrow> distinct (map fst m)"
  by (simp add: bt_ok_def strict_sorted_iff)

lemma bt_get_or_absent: "k \<notin> fst ` set m \<Longrightarrow> bt_get_or d m k = d"
  by (simp add: bt_get_or_def map_of_eq_None_iff [THEN iffD2])

lemma bt_get_or_upsert:
  "bt_ok m \<Longrightarrow> bt_get_or d (bt_upsert k d f m) k' = (if k' = k then f (bt_get_or d m k) else bt_get_or d m k')"
proof (induction m)
  case Nil
  then show ?case by (simp add: bt_get_or_def)
next
  case (Cons a m)
  obtain k0 v0 where a: "a = (k0, v0)" by (cases a)
  with Cons.prems have ok: "bt_ok m" and lt: "\<And>x. x \<in> fst ` set m \<Longrightarrow> k0 < x" by (auto simp: bt_ok_Cons)
  have step: "bt_get_or d ((k1, v) # m1) k2 = (if k2 = k1 then v else bt_get_or d m1 k2)" for k1 v m1 k2
    by (simp add: bt_get_or_def)
  consider "k < k0" | "k = k0" | "k0 < k" by fastforce
  then show ?case
  proof cases
    case 1
    then have "k \<notin> fst ` set (a # m)" using lt a by fastforce
    then have "bt_get_or d (a # m) k = d" by (rule bt_get_or_absent)
    with 1 show ?thesis by (simp add: a step)
  next
    case 2
    then show ?thesis by (simp add: a step)
  next
    case 3
    then show ?thesis using Cons.IH [OF ok] by (auto simp: a step)
  qed
qed

text \<open>A loop that folds every element into the entry of its group: the entry of a group ends up with
  the fold over the group, in the order of the loop.\<close>

definition bt_group :: "('a \<Rightarrow> 'k::linorder) \<Rightarrow> 'v \<Rightarrow> ('a \<Rightarrow> 'v \<Rightarrow> 'v) \<Rightarrow> 'a list \<Rightarrow> ('k, 'v) btree \<Rightarrow> ('k, 'v) btree" where
  "bt_group key d g xs m = fold (\<lambda>x m. bt_upsert (key x) d (g x) m) xs m"

lemma bt_group_simps [simp]:
  "bt_group key d g [] m = m"
  "bt_group key d g (x # xs) m = bt_group key d g xs (bt_upsert (key x) d (g x) m)"
  by (simp_all add: bt_group_def)

lemma bt_ok_group [simp]: "bt_ok m \<Longrightarrow> bt_ok (bt_group key d g xs m)"
  by (induction xs arbitrary: m) simp_all

lemma bt_keys_group: "fst ` set (bt_group key d g xs m) = key ` set xs \<union> fst ` set m"
  by (induction xs arbitrary: m) auto

lemma bt_get_or_group:
  "bt_ok m \<Longrightarrow> bt_get_or d (bt_group key d g xs m) k = fold g (filter (\<lambda>x. key x = k) xs) (bt_get_or d m k)"
  by (induction xs arbitrary: m) (auto simp: bt_get_or_upsert)

text \<open>Summing over the keys of a map counts every element of a bag once.\<close>

lemma size_filter_by_key:
  assumes "distinct ks" and "fst ` set_mset M \<subseteq> set ks"
  shows "(\<Sum>k\<leftarrow>ks. size (filter_mset (\<lambda>x. fst x = k \<and> P x) M)) = size (filter_mset P M)"
  using assms(2)
proof (induction M)
  case empty
  show ?case by simp
next
  case (add x M)
  let ?f = "\<lambda>k. size (filter_mset (\<lambda>x. fst x = k \<and> P x) M)"
  have "(\<Sum>k\<leftarrow>ks. size (filter_mset (\<lambda>y. fst y = k \<and> P y) (add_mset x M)))
      = (\<Sum>k\<in>set ks. ?f k + (if fst x = k then (if P x then 1 else 0) else 0))"
    by (subst sum_list_distinct_conv_sum_set [OF assms(1)]) (rule sum.cong, auto)
  also have "\<dots> = (\<Sum>k\<in>set ks. ?f k) + (if P x then 1 else 0)"
    using add.prems by (simp add: sum.distrib)
  finally show ?case
    using add by (simp add: sum_list_distinct_conv_sum_set [OF assms(1)])
qed

end
