(* ===== verification/Stats.thy ===== *)
theory Stats
  imports Btree Domain Job_Queue Adapter
begin

text \<open>
  The live transaction counters of \<^verbatim>\<open>crates/gum-engine/src/stats.rs\<close> and the bookkeeping of
  \<^verbatim>\<open>pipeline/accounting.rs\<close>, which moves a job between buckets when its transaction is mined,
  confirmed, cancelled or re-orged away. The counters are \<open>u64\<close>, added with wrap-around and subtracted
  with saturation as the source does.

  The abstract view is a bag of places: one element per job, saying for which chain and signer and in
  which bucket the job is counted. The lemmas show that the counters are the cardinalities of this bag
  whenever every move takes a job out of a place where there is one, that the snapshot's totals and its
  per-chain view count every job once, and what each bookkeeping function does to the bag.
\<close>

section \<open>Counters\<close>

datatype stat_bucket = SQueued | SProcessing | SInFlight | SIncluded | SSucceeded | SReverted | SFailed

record counts =
  c_queued :: u64
  c_processing :: u64
  c_in_flight :: u64
  c_included :: u64
  c_succeeded :: u64
  c_reverted :: u64
  c_failed :: u64
  c_total :: u64

definition counts_default :: counts where
  "counts_default = \<lparr>c_queued = 0, c_processing = 0, c_in_flight = 0, c_included = 0,
     c_succeeded = 0, c_reverted = 0, c_failed = 0, c_total = 0\<rparr>"

text \<open>\<open>slot\<close> returns a mutable reference; the model has its read and its update.\<close>

primrec slot :: "stat_bucket \<Rightarrow> counts \<Rightarrow> u64" where
  "slot SQueued c = c_queued c"
| "slot SProcessing c = c_processing c"
| "slot SInFlight c = c_in_flight c"
| "slot SIncluded c = c_included c"
| "slot SSucceeded c = c_succeeded c"
| "slot SReverted c = c_reverted c"
| "slot SFailed c = c_failed c"

primrec slot_update :: "stat_bucket \<Rightarrow> (u64 \<Rightarrow> u64) \<Rightarrow> counts \<Rightarrow> counts" where
  "slot_update SQueued f c = c\<lparr>c_queued := f (c_queued c)\<rparr>"
| "slot_update SProcessing f c = c\<lparr>c_processing := f (c_processing c)\<rparr>"
| "slot_update SInFlight f c = c\<lparr>c_in_flight := f (c_in_flight c)\<rparr>"
| "slot_update SIncluded f c = c\<lparr>c_included := f (c_included c)\<rparr>"
| "slot_update SSucceeded f c = c\<lparr>c_succeeded := f (c_succeeded c)\<rparr>"
| "slot_update SReverted f c = c\<lparr>c_reverted := f (c_reverted c)\<rparr>"
| "slot_update SFailed f c = c\<lparr>c_failed := f (c_failed c)\<rparr>"

definition counts_add :: "stat_bucket \<Rightarrow> u64 \<Rightarrow> counts \<Rightarrow> counts" where
  "counts_add b n c = (let c = slot_update b (\<lambda>s. s + n) c in c\<lparr>c_total := c_total c + n\<rparr>)"

definition counts_sub :: "stat_bucket \<Rightarrow> u64 \<Rightarrow> counts \<Rightarrow> counts" where
  "counts_sub b n c = (let c = slot_update b (\<lambda>s. sat_sub s n) c in c\<lparr>c_total := sat_sub (c_total c) n\<rparr>)"

definition counts_merge :: "counts \<Rightarrow> counts \<Rightarrow> counts" where
  "counts_merge x c =
     \<lparr>c_queued = c_queued c + c_queued x, c_processing = c_processing c + c_processing x,
      c_in_flight = c_in_flight c + c_in_flight x, c_included = c_included c + c_included x,
      c_succeeded = c_succeeded c + c_succeeded x, c_reverted = c_reverted c + c_reverted x,
      c_failed = c_failed c + c_failed x, c_total = c_total c + c_total x\<rparr>"

section \<open>The counter map\<close>

type_synonym stats_key = "chain_id \<times> address option"
type_synonym stats = "(stats_key, counts) btree"

definition stats_reset :: "stats \<Rightarrow> stats" where
  "stats_reset st = []"

definition stats_add :: "chain_id \<Rightarrow> address option \<Rightarrow> stat_bucket \<Rightarrow> u64 \<Rightarrow> stats \<Rightarrow> stats" where
  "stats_add chain signer bucket n st = bt_upsert (chain, signer) counts_default (counts_add bucket n) st"

definition transition :: "chain_id \<Rightarrow> address option \<times> stat_bucket \<Rightarrow> address option \<times> stat_bucket \<Rightarrow> stats \<Rightarrow> stats" where
  "transition chain src dst st =
     (let st = bt_upsert (chain, fst src) counts_default (counts_sub (snd src) 1) st
      in bt_upsert (chain, fst dst) counts_default (counts_add (snd dst) 1) st)"

definition stats_queued :: "chain_id \<Rightarrow> stats \<Rightarrow> u64" where
  "stats_queued chain st = (case bt_get st (chain, None) of None \<Rightarrow> 0 | Some c \<Rightarrow> c_queued c)"

record chain_signer_counts =
  csc_chain_id :: chain_id
  csc_signer :: string
  csc_counts :: counts

record snapshot =
  snap_totals :: counts
  snap_by_chain :: "(chain_id \<times> counts) list"
  snap_by_signer :: "(string \<times> counts) list"
  snap_by_chain_signer :: "chain_signer_counts list"

text \<open>The loop of \<open>snapshot\<close>, one iteration per entry of the map, over its four accumulators.\<close>

fun snapshot_loop :: "stats \<Rightarrow> counts \<times> (chain_id, counts) btree \<times> (address, counts) btree \<times> chain_signer_counts list
    \<Rightarrow> counts \<times> (chain_id, counts) btree \<times> (address, counts) btree \<times> chain_signer_counts list" where
  "snapshot_loop [] acc = acc"
| "snapshot_loop (((chain, signer), c) # m) (totals, by_chain, by_signer, by_cs) =
     snapshot_loop m
       (counts_merge c totals,
        bt_upsert chain counts_default (counts_merge c) by_chain,
        (case signer of None \<Rightarrow> by_signer
         | Some s \<Rightarrow> bt_upsert s counts_default (counts_merge c) by_signer),
        (case signer of None \<Rightarrow> by_cs
         | Some s \<Rightarrow> by_cs @ [\<lparr>csc_chain_id = chain, csc_signer = addr_hex s, csc_counts = c\<rparr>]))"

definition stats_snapshot :: "stats \<Rightarrow> snapshot" where
  "stats_snapshot st =
     (case snapshot_loop st (counts_default, [], [], []) of
        (totals, by_chain, by_signer, by_cs) \<Rightarrow>
          \<lparr>snap_totals = totals, snap_by_chain = by_chain,
           snap_by_signer = map (\<lambda>(s, c). (addr_hex s, c)) by_signer, snap_by_chain_signer = by_cs\<rparr>)"

section \<open>Bookkeeping of state changes\<close>

primrec terminal_bucket :: "outcome \<Rightarrow> stat_bucket" where
  "terminal_bucket Success = SSucceeded"
| "terminal_bucket Reverted = SReverted"

text \<open>What the bookkeeping functions touch: the engine's counters and the chain's queue. Metrics and log
  lines are left out.\<close>

type_synonym books = "stats \<times> job_queue"

definition acc_cancelled :: "pair_key \<Rightarrow> job_id \<Rightarrow> books \<Rightarrow> books" where
  "acc_cancelled k job_id b =
     (let signer = Some (pk_signer k)
      in (transition (pk_chain_id k) (signer, SInFlight) (signer, SFailed) (fst b), forget job_id (snd b)))"

definition acc_mined :: "confirm_check \<Rightarrow> pair_key \<Rightarrow> attempt \<Rightarrow> inclusion \<Rightarrow> books \<Rightarrow> books" where
  "acc_mined check k a inc b =
     (case at_owner a of
        OTopup i \<Rightarrow> b
      | OJob job_id \<Rightarrow>
          let signer = Some (pk_signer k); immediate = (check = Immediate)
          in (case at_purpose a of
                PJob \<Rightarrow>
                  let st = transition (pk_chain_id k) (signer, SInFlight) (signer, SIncluded) (fst b)
                  in if immediate
                     then (transition (pk_chain_id k) (signer, SIncluded) (signer, terminal_bucket (inc_outcome inc)) st,
                           forget job_id (snd b))
                     else (st, snd b)
              | PCancel \<Rightarrow> if immediate then acc_cancelled k job_id b else b
              | PTopup \<Rightarrow> b))"

definition acc_confirmed :: "pair_key \<Rightarrow> attempt \<Rightarrow> inclusion \<Rightarrow> books \<Rightarrow> books" where
  "acc_confirmed k a inc b =
     (case at_owner a of
        OTopup i \<Rightarrow> b
      | OJob job_id \<Rightarrow>
          let signer = Some (pk_signer k)
          in (case at_purpose a of
                PJob \<Rightarrow> (transition (pk_chain_id k) (signer, SIncluded) (signer, terminal_bucket (inc_outcome inc)) (fst b),
                         forget job_id (snd b))
              | PCancel \<Rightarrow> acc_cancelled k job_id b
              | PTopup \<Rightarrow> b))"

definition acc_demoted :: "pair_key \<Rightarrow> attempt \<Rightarrow> books \<Rightarrow> books" where
  "acc_demoted k a b =
     (case (at_owner a, at_purpose a) of
        (OJob i, PJob) \<Rightarrow>
          let signer = Some (pk_signer k)
          in (transition (pk_chain_id k) (signer, SIncluded) (signer, SInFlight) (fst b), snd b)
      | _ \<Rightarrow> b)"

section \<open>The counters count a bag of places\<close>

type_synonym place = "stats_key \<times> stat_bucket"

abbreviation cell :: "stats \<Rightarrow> stats_key \<Rightarrow> counts" where
  "cell st k \<equiv> bt_get_or counts_default st k"

definition counts_rel :: "counts \<Rightarrow> (stat_bucket \<Rightarrow> nat) \<Rightarrow> nat \<Rightarrow> bool" where
  "counts_rel c f n \<longleftrightarrow> (\<forall>b. unat (slot b c) = f b) \<and> unat (c_total c) = n"

definition stats_rel :: "stats \<Rightarrow> place multiset \<Rightarrow> bool" where
  "stats_rel st M \<longleftrightarrow> bt_ok st \<and> size M < 2 ^ 64 \<and>
     (\<forall>k. counts_rel (cell st k) (\<lambda>b. count M (k, b)) (size (filter_mset (\<lambda>p. fst p = k) M)))"

lemma slot_slot_update: "slot b (slot_update b' f c) = (if b = b' then f (slot b c) else slot b c)"
  by (cases b; cases b') simp_all

lemma slot_total_update [simp]: "slot b (c_total_update f c) = slot b c"
  by (cases b) simp_all

lemma total_slot_update [simp]: "c_total (slot_update b f c) = c_total c"
  by (cases b) simp_all

lemma slot_default [simp]: "slot b counts_default = 0" "c_total counts_default = 0"
  by (cases b) (simp_all add: counts_default_def)

lemma slot_merge [simp]: "slot b (counts_merge x c) = slot b c + slot b x"
  by (cases b) (simp_all add: counts_merge_def)

lemma total_merge [simp]: "c_total (counts_merge x c) = c_total c + c_total x"
  by (simp add: counts_merge_def)


lemma unat_plus_exact: "unat x + unat y < 2 ^ LENGTH('a) \<Longrightarrow> unat (x + y) = unat x + unat y"
  for x y :: "'a::len word"
  by (simp add: unat_word_ariths)

lemma counts_rel_add:
  assumes "counts_rel c f t" and "f b + unat n < 2 ^ 64" and "t + unat n < 2 ^ 64"
  shows "counts_rel (counts_add b n c) (f(b := f b + unat n)) (t + unat n)"
  using assms by (simp add: counts_rel_def counts_add_def Let_def slot_slot_update unat_plus_exact)

lemma counts_rel_sub:
  "counts_rel c f t \<Longrightarrow> counts_rel (counts_sub b 1 c) (f(b := f b - 1)) (t - 1)"
  by (simp add: counts_rel_def counts_sub_def Let_def slot_slot_update unat_sat_sub)

lemma stats_relD:
  "stats_rel st M \<Longrightarrow> counts_rel (cell st k) (\<lambda>b. count M (k, b)) (size (filter_mset (\<lambda>p. fst p = k) M))"
  unfolding stats_rel_def by blast

lemma stats_rel_empty [simp]: "stats_rel [] {#}"
  by (simp add: stats_rel_def counts_rel_def bt_get_or_def)

lemma count_size_le: "count M x \<le> size (filter_mset P M)" if "P x"
  using that by (metis count_filter_mset count_le_replicate_mset_subset_eq size_mset_mono size_replicate_mset le_refl)

lemma stats_rel_upsert:
  assumes rel: "stats_rel st M" and size: "size M' < 2 ^ 64"
    and others: "\<And>k' b'. k' \<noteq> k \<Longrightarrow> count M' (k', b') = count M (k', b')"
      "\<And>k'. k' \<noteq> k \<Longrightarrow> size (filter_mset (\<lambda>p. fst p = k') M') = size (filter_mset (\<lambda>p. fst p = k') M)"
    and here: "counts_rel (f (cell st k)) (\<lambda>b. count M' (k, b)) (size (filter_mset (\<lambda>p. fst p = k) M'))"
  shows "stats_rel (bt_upsert k counts_default f st) M'"
proof -
  have ok: "bt_ok st" using rel by (simp add: stats_rel_def)
  have "counts_rel (cell (bt_upsert k counts_default f st) k') (\<lambda>b. count M' (k', b))
      (size (filter_mset (\<lambda>p. fst p = k') M'))" for k'
    using here others stats_relD [OF rel, of k'] by (simp add: bt_get_or_upsert [OF ok])
  then show ?thesis using ok size by (simp add: stats_rel_def)
qed

lemma size_filter_replicate:
  "size (filter_mset P (M + replicate_mset n x)) = size (filter_mset P M) + (if P x then n else 0)"
  by (induction n) simp_all

lemma stats_rel_add:
  assumes rel: "stats_rel st M" and size: "size M + unat n < 2 ^ 64"
  shows "stats_rel (stats_add ch s b n st) (M + replicate_mset (unat n) ((ch, s), b))"
  unfolding stats_add_def
proof (rule stats_rel_upsert [OF rel])
  have le: "count M ((ch, s), b) \<le> size M" "size (filter_mset (\<lambda>p. fst p = (ch, s)) M) \<le> size M"
    using count_size_le [of "\<lambda>_. True" "((ch, s), b)" M] by (simp_all add: size_filter_mset_lesseq)
  have "counts_rel (counts_add b n (cell st (ch, s)))
      ((\<lambda>b. count M ((ch, s), b))(b := count M ((ch, s), b) + unat n))
      (size (filter_mset (\<lambda>p. fst p = (ch, s)) M) + unat n)"
    using size le by (intro counts_rel_add stats_relD [OF rel]) linarith+
  moreover have "(\<lambda>b. count M ((ch, s), b))(b := count M ((ch, s), b) + unat n)
      = (\<lambda>b'. count (M + replicate_mset (unat n) ((ch, s), b)) ((ch, s), b'))"
    by (auto simp: fun_eq_iff)
  ultimately show "counts_rel (counts_add b n (cell st (ch, s)))
      (\<lambda>b'. count (M + replicate_mset (unat n) ((ch, s), b)) ((ch, s), b'))
      (size (filter_mset (\<lambda>p. fst p = (ch, s)) (M + replicate_mset (unat n) ((ch, s), b))))"
    by (simp only: size_filter_replicate fst_conv simp_thms if_True)
qed (use size in \<open>auto simp: size_filter_replicate\<close>)

lemma stats_rel_take:
  assumes rel: "stats_rel st M" and mem: "(k, b) \<in># M"
  shows "stats_rel (bt_upsert k counts_default (counts_sub b 1) st) (M - {#(k, b)#})"
proof (rule stats_rel_upsert [OF rel])
  obtain N where M: "M = add_mset (k, b) N" using mem by (metis insert_DiffM)
  show "size (M - {#(k, b)#}) < 2 ^ 64" using rel by (simp add: stats_rel_def M)
  show "count (M - {#(k, b)#}) (k', b') = count M (k', b')" if "k' \<noteq> k" for k' b' using that by simp
  show "size (filter_mset (\<lambda>p. fst p = k') (M - {#(k, b)#})) = size (filter_mset (\<lambda>p. fst p = k') M)"
    if "k' \<noteq> k" for k' using that by (simp add: M)
  have "(\<lambda>b'. count (M - {#(k, b)#}) (k, b')) = (\<lambda>b. count M (k, b))(b := count M (k, b) - 1)"
    by (auto simp: fun_eq_iff)
  moreover have "size (filter_mset (\<lambda>p. fst p = k) (M - {#(k, b)#})) = size (filter_mset (\<lambda>p. fst p = k) M) - 1"
    by (simp add: M)
  ultimately show "counts_rel (counts_sub b 1 (cell st k)) (\<lambda>b'. count (M - {#(k, b)#}) (k, b'))
      (size (filter_mset (\<lambda>p. fst p = k) (M - {#(k, b)#})))"
    using counts_rel_sub [OF stats_relD [OF rel, of k], of b] by simp
qed

lemma stats_rel_transition:
  assumes "stats_rel st M" and "((ch, fst src), snd src) \<in># M"
  shows "stats_rel (transition ch src dst st) (M - {#((ch, fst src), snd src)#} + {#((ch, fst dst), snd dst)#})"
proof -
  let ?M = "M - {#((ch, fst src), snd src)#}"
  have t: "stats_rel (bt_upsert (ch, fst src) counts_default (counts_sub (snd src) 1) st) ?M"
    using assms by (rule stats_rel_take)
  have "size M < 2 ^ 64" using assms(1) by (simp add: stats_rel_def)
  moreover have "size ?M + 1 = size M" using assms(2) by (metis Suc_eq_plus1 size_Suc_Diff1)
  ultimately have "size ?M + unat (1 :: u64) < 2 ^ 64" by simp
  from stats_rel_add [OF t this, of ch "fst dst" "snd dst"] show ?thesis
    by (simp add: transition_def stats_add_def Let_def)
qed

section \<open>The snapshot\<close>

lemma snapshot_loop_eq:
  "snapshot_loop m (t, bc, bs, cs) =
     (fold (\<lambda>e. counts_merge (snd e)) m t,
      bt_group (\<lambda>e. fst (fst e)) counts_default (\<lambda>e. counts_merge (snd e)) m bc,
      bt_group (\<lambda>e. the (snd (fst e))) counts_default (\<lambda>e. counts_merge (snd e))
        (filter (\<lambda>e. snd (fst e) \<noteq> None) m) bs,
      cs @ map (\<lambda>e. \<lparr>csc_chain_id = fst (fst e), csc_signer = addr_hex (the (snd (fst e))), csc_counts = snd e\<rparr>)
        (filter (\<lambda>e. snd (fst e) \<noteq> None) m))"
  by (induction m arbitrary: t bc bs cs) (auto split: option.split)

lemma merged_slot:
  assumes "(\<Sum>e\<leftarrow>m. unat (slot b (snd e))) < 2 ^ 64 - unat (slot b t)"
  shows "unat (slot b (fold (\<lambda>e. counts_merge (snd e)) m t)) = unat (slot b t) + (\<Sum>e\<leftarrow>m. unat (slot b (snd e)))"
  using assms
proof (induction m arbitrary: t)
  case Nil
  then show ?case by simp
next
  case (Cons e m)
  then have "unat (slot b (counts_merge (snd e) t)) = unat (slot b t) + unat (slot b (snd e))"
    by (simp add: unat_plus_exact)
  with Cons.prems Cons.IH [of "counts_merge (snd e) t"] show ?case by simp
qed

lemma merged_total:
  assumes "(\<Sum>e\<leftarrow>m. unat (c_total (snd e))) < 2 ^ 64 - unat (c_total t)"
  shows "unat (c_total (fold (\<lambda>e. counts_merge (snd e)) m t)) = unat (c_total t) + (\<Sum>e\<leftarrow>m. unat (c_total (snd e)))"
  using assms
proof (induction m arbitrary: t)
  case Nil
  then show ?case by simp
next
  case (Cons e m)
  then have "unat (c_total (counts_merge (snd e) t)) = unat (c_total t) + unat (c_total (snd e))"
    by (simp add: unat_plus_exact)
  with Cons.prems Cons.IH [of "counts_merge (snd e) t"] show ?case by simp
qed

lemma sum_entries_by_key:
  "(\<Sum>e\<leftarrow>filter (\<lambda>e. Q (fst e)) xs. size (filter_mset (\<lambda>p. fst p = fst e \<and> P p) M))
   = (\<Sum>k\<leftarrow>map fst xs. size (filter_mset (\<lambda>p. fst p = k \<and> (Q (fst p) \<and> P p)) M))"
proof (induction xs)
  case (Cons e xs)
  have "filter_mset (\<lambda>p. fst p = fst e \<and> (Q (fst p) \<and> P p)) M
      = (if Q (fst e) then filter_mset (\<lambda>p. fst p = fst e \<and> P p) M else {#})"
    by (auto intro: filter_mset_cong)
  with Cons show ?case by simp
qed simp

lemma size_filter_place: "size (filter_mset (\<lambda>p. fst p = k \<and> snd p = b) M) = count M (k, b)"
proof -
  have "filter_mset (\<lambda>p. fst p = k \<and> snd p = b) M = filter_mset (\<lambda>p. p = (k, b)) M"
    by (rule filter_mset_cong) auto
  then show ?thesis by (simp add: filter_eq_replicate_mset)
qed

lemma stats_rel_keys:
  assumes rel: "stats_rel st M"
  shows "fst ` set_mset M \<subseteq> set (map fst st)"
proof
  fix k assume "k \<in> fst ` set_mset M"
  then obtain b where "(k, b) \<in># M" by auto
  then have "count M (k, b) \<noteq> 0" by (simp add: count_eq_zero_iff)
  moreover have "unat (slot b (cell st k)) = count M (k, b)"
    using stats_relD [OF rel, of k] by (simp add: counts_rel_def)
  ultimately have "cell st k \<noteq> counts_default" by (metis slot_default(1) unat_0)
  then show "k \<in> set (map fst st)" using bt_get_or_absent [of k st counts_default] by auto
qed

lemma stats_rel_entry:
  assumes rel: "stats_rel st M" and e: "e \<in> set st"
  shows "unat (slot b (snd e)) = size (filter_mset (\<lambda>p. fst p = fst e \<and> snd p = b) M)"
    and "unat (c_total (snd e)) = size (filter_mset (\<lambda>p. fst p = fst e \<and> True) M)"
proof -
  have "map_of st (fst e) = Some (snd e)"
    using rel e by (simp add: stats_rel_def bt_ok_distinct)
  then have "cell st (fst e) = snd e" by (simp add: bt_get_or_def)
  then have "counts_rel (snd e) (\<lambda>b. count M (fst e, b)) (size (filter_mset (\<lambda>p. fst p = fst e) M))"
    using stats_relD [OF rel, of "fst e"] by simp
  then show "unat (slot b (snd e)) = size (filter_mset (\<lambda>p. fst p = fst e \<and> snd p = b) M)"
    and "unat (c_total (snd e)) = size (filter_mset (\<lambda>p. fst p = fst e \<and> True) M)"
    by (simp_all add: counts_rel_def size_filter_place)
qed

text \<open>Merging the entries whose key satisfies \<open>Q\<close> counts the places with such a key.\<close>

lemma merged_entries:
  assumes rel: "stats_rel st M"
  shows "counts_rel (fold (\<lambda>e. counts_merge (snd e)) (filter (\<lambda>e. Q (fst e)) st) counts_default)
      (\<lambda>b. size (filter_mset (\<lambda>p. Q (fst p) \<and> snd p = b) M)) (size (filter_mset (\<lambda>p. Q (fst p)) M))"
proof -
  let ?m = "filter (\<lambda>e. Q (fst e)) st"
  have sum: "(\<Sum>e\<leftarrow>?m. size (filter_mset (\<lambda>p. fst p = fst e \<and> P p) M)) = size (filter_mset (\<lambda>p. Q (fst p) \<and> P p) M)" for P
    using size_filter_by_key [OF _ stats_rel_keys [OF rel], of "\<lambda>p. Q (fst p) \<and> P p"] rel
    by (simp only: sum_entries_by_key stats_rel_def bt_ok_distinct)
  have s: "(\<Sum>e\<leftarrow>?m. unat (slot b (snd e))) = size (filter_mset (\<lambda>p. Q (fst p) \<and> snd p = b) M)" for b
    unfolding sum [of "\<lambda>p. snd p = b", symmetric]
    by (intro arg_cong [where f = sum_list] map_cong refl stats_rel_entry(1) [OF rel]) simp
  have t: "(\<Sum>e\<leftarrow>?m. unat (c_total (snd e))) = size (filter_mset (\<lambda>p. Q (fst p)) M)"
    unfolding sum [of "\<lambda>_. True", unfolded HOL.simp_thms(21), symmetric]
    by (intro arg_cong [where f = sum_list] map_cong refl stats_rel_entry(2) [OF rel, unfolded HOL.simp_thms(21)]) simp
  have sz: "size (filter_mset R M) < 2 ^ 64" for R
    using size_filter_mset_lesseq [of R M] rel unfolding stats_rel_def by linarith
  have "unat (slot b (fold (\<lambda>e. counts_merge (snd e)) ?m counts_default))
      = size (filter_mset (\<lambda>p. Q (fst p) \<and> snd p = b) M)" for b
    using merged_slot [of b ?m counts_default] s [of b] sz by simp
  moreover have "unat (c_total (fold (\<lambda>e. counts_merge (snd e)) ?m counts_default))
      = size (filter_mset (\<lambda>p. Q (fst p)) M)"
    using merged_total [of ?m counts_default] t sz by simp
  ultimately show ?thesis by (simp add: counts_rel_def)
qed


section \<open>Runs\<close>

text \<open>The operations as a sequence of calls, and the same sequence on the bag of places. A transition is
  defined on the bag only when a job is at the place it leaves: this is what the callers owe.\<close>

datatype stats_op = SReset | SAdd chain_id "address option" stat_bucket u64
  | SMove chain_id "address option \<times> stat_bucket" "address option \<times> stat_bucket"

primrec stats_exec :: "stats_op \<Rightarrow> stats \<Rightarrow> stats" where
  "stats_exec SReset st = stats_reset st"
| "stats_exec (SAdd ch s b n) st = stats_add ch s b n st"
| "stats_exec (SMove ch src dst) st = transition ch src dst st"

primrec place_exec :: "stats_op \<Rightarrow> place multiset \<Rightarrow> place multiset option" where
  "place_exec SReset M = Some {#}"
| "place_exec (SAdd ch s b n) M =
     (if size M + unat n < 2 ^ 64 then Some (M + replicate_mset (unat n) ((ch, s), b)) else None)"
| "place_exec (SMove ch src dst) M =
     (if ((ch, fst src), snd src) \<in># M
      then Some (M - {#((ch, fst src), snd src)#} + {#((ch, fst dst), snd dst)#}) else None)"

fun place_run :: "stats_op list \<Rightarrow> place multiset \<Rightarrow> place multiset option" where
  "place_run [] M = Some M"
| "place_run (x # xs) M = Option.bind (place_exec x M) (place_run xs)"

lemma stats_exec_rel: "stats_rel st M \<Longrightarrow> place_exec x M = Some M' \<Longrightarrow> stats_rel (stats_exec x st) M'"
  using stats_rel_transition [of st M]
  by (cases x) (auto simp: stats_reset_def stats_rel_add split: if_splits)

lemma stats_run_rel:
  "stats_rel st M \<Longrightarrow> place_run xs M = Some M' \<Longrightarrow> stats_rel (fold stats_exec xs st) M'"
  by (induction xs arbitrary: st M) (auto simp: bind_eq_Some_conv dest: stats_exec_rel)

lemma snapshot_totals: "snap_totals (stats_snapshot st) = fold (\<lambda>e. counts_merge (snd e)) st counts_default"
  by (simp add: stats_snapshot_def snapshot_loop_eq)

lemma snapshot_by_chain:
  "bt_get_or counts_default (snap_by_chain (stats_snapshot st)) ch
   = fold (\<lambda>e. counts_merge (snd e)) (filter (\<lambda>e. fst (fst e) = ch) st) counts_default"
  by (simp add: stats_snapshot_def snapshot_loop_eq bt_get_or_group) (simp add: bt_get_or_def)


text \<open>The life of one job on chain 1 with signer 7, beside a second job that stays queued.\<close>

definition demo_life :: "stats_op list" where
  "demo_life =
    [SAdd 1 None SQueued 2,
     SMove 1 (None, SQueued) (Some 7, SProcessing),
     SMove 1 (Some 7, SProcessing) (Some 7, SInFlight),
     SMove 1 (Some 7, SInFlight) (Some 7, SIncluded),
     SMove 1 (Some 7, SIncluded) (Some 7, SSucceeded)]"

lemma replicate_two: "replicate_mset 2 x = {#x, x#}"
  by (simp add: numeral_2_eq_2)


section \<open>What the bookkeeping does to the bag\<close>

text \<open>The place of a job of a pair.\<close>

abbreviation at_place :: "pair_key \<Rightarrow> stat_bucket \<Rightarrow> place" where
  "at_place k b \<equiv> ((pk_chain_id k, Some (pk_signer k)), b)"

lemma pair_move_rel:
  assumes "stats_rel st (add_mset (at_place k b) M)"
  shows "stats_rel (transition (pk_chain_id k) (Some (pk_signer k), b) (Some (pk_signer k), b') st)
           (add_mset (at_place k b') M)"
  using stats_rel_transition [OF assms, of "pk_chain_id k" "(Some (pk_signer k), b)" "(Some (pk_signer k), b')"]
  by simp

text \<open>The bookkeeping of a mined transaction agrees with its confirmation: whether an attempt of a
  job is confirmed at once or first included and confirmed later, the job leaves the in-flight bucket,
  lands in the same terminal bucket (failed for a cancel, succeeded or reverted for the job's own
  transaction), and is forgotten by the queue in both cases; a re-org in between puts it back in
  flight.\<close>

theorem bookkeeping_follows_the_job:
  assumes "at_owner a = OJob i" and "at_purpose a \<noteq> PTopup" and "check \<noteq> Immediate"
    and "stats_rel st (add_mset (at_place k SInFlight) M)"
  shows "(\<exists>st' st''.
      acc_mined Immediate k a inc (st, q) = (st', forget i q)
      \<and> acc_confirmed k a inc (acc_mined check k a inc (st, q)) = (st'', forget i q)
      \<and> stats_rel st' (add_mset (at_place k (if at_purpose a = PCancel then SFailed else terminal_bucket (inc_outcome inc))) M)
      \<and> stats_rel st'' (add_mset (at_place k (if at_purpose a = PCancel then SFailed else terminal_bucket (inc_outcome inc))) M))
    \<and> stats_rel (fst (acc_demoted k a (acc_mined check k a inc (st, q)))) (add_mset (at_place k SInFlight) M)"
  using assms
  by (cases "at_purpose a")
    (auto simp: acc_mined_def acc_confirmed_def acc_demoted_def acc_cancelled_def Let_def intro: pair_move_rel)

definition stat_pair :: pair_key where
  "stat_pair = \<lparr>pk_chain_id = 1, pk_signer = 7\<rparr>"

definition stat_attempt :: attempt where
  "stat_attempt = \<lparr>at_id = 1, at_chain_id = 1, at_signer = 7, at_nonce = 0, at_purpose = PJob, at_owner = OJob 5,
     at_tx_hash = 11, at_raw_tx = [], at_gas_limit = 21000, at_max_fee_per_gas = 2, at_max_priority_fee_per_gas = 1,
     at_value = 0, at_status = ABroadcast, at_block_number = None, at_block_hash = None, at_created_at = 0\<rparr>"

definition stat_inclusion :: inclusion where
  "stat_inclusion = \<lparr>inc_tx_hash = 11, inc_block_number = 3, inc_block_hash = 12, inc_outcome = Reverted,
     inc_gas_used = 21000, inc_effective_gas_price = 2, inc_fee_paid = 42000, inc_l1_fee = None, inc_receipt = JNull\<rparr>"

theorem bookkeeping_follows_the_job_witness:
  "stats_rel (fst (acc_demoted stat_pair stat_attempt
      (acc_mined BlockHash stat_pair stat_attempt stat_inclusion (stats_add 1 (Some 7) SInFlight 1 [], queue_new 4))))
     {#at_place stat_pair SInFlight#}"
proof -
  have "stats_rel (stats_add 1 (Some 7) SInFlight 1 []) {#at_place stat_pair SInFlight#}"
    using stats_rel_add [OF stats_rel_empty, of 1 1 "Some 7" SInFlight] by (simp add: stat_pair_def)
  from bookkeeping_follows_the_job [OF _ _ _ this, of stat_attempt 5 BlockHash stat_inclusion "queue_new 4"]
  show ?thesis by (simp add: stat_attempt_def)
qed

end
