(* ===== verification/Pair_State.thy ===== *)
theory Pair_State
  imports Domain Ledger
begin

text \<open>
  The in-memory (signer, chain) pair of \<^verbatim>\<open>crates/gum-engine/src/engine.rs\<close> and the operator actions on it
  of \<^verbatim>\<open>api.rs\<close>. Every method locks the state, works and unlocks: each is one atomic step. A method
  returns its result, the new state and what it does outside the state: the row it asks the store to
  write in the background, and the wake-up of the pair's worker. The clock is an argument.

  The lemmas are about the pause protocol: an operator pause holds until the operator ends it, a resume
  clears only the pause it names, and how often an operator has to ask.
\<close>

section \<open>State\<close>

record pair_state =
  ps_pause :: "pause option"
  ps_manual_pause :: bool
  ps_current :: "uuid option"
  ps_next_nonce :: u64
  ps_nonce_ready :: bool
  ps_recovery_requested :: bool
  ps_draining :: bool

record pair =
  pa_key :: pair_key
  pa_role :: pair_role
  pa_ledger :: ledger
  pa_state :: pair_state

record pair_view =
  pv_pause :: "pause option"
  pv_current :: "uuid option"
  pv_next_nonce :: u64
  pv_draining :: bool
  pv_nonce_ready :: bool

text \<open>What a method does besides changing the state: \<open>persist_pause\<close> spawns \<open>record_pause\<close> with these
  arguments; \<open>wake.notify_waiters()\<close>.\<close>

datatype pair_effect = PersistPause "pause option" bool | WakeWorker

definition pair_new :: "timestamp \<Rightarrow> bool \<Rightarrow> pair_state" where
  "pair_new now manual =
     \<lparr>ps_pause = Some \<lparr>pz_reason = Booting, pz_recovery_step = ReconcilingNonce, pz_since = now,
                       pz_detail = ''loading state and reconciling with the chain''\<rparr>,
      ps_manual_pause = manual, ps_current = None, ps_next_nonce = 0, ps_nonce_ready = False,
      ps_recovery_requested = True, ps_draining = False\<rparr>"

section \<open>Operations\<close>

definition pair_view_of :: "pair_state \<Rightarrow> pair_view" where
  "pair_view_of s = \<lparr>pv_pause = ps_pause s, pv_current = ps_current s, pv_next_nonce = ps_next_nonce s,
     pv_draining = ps_draining s, pv_nonce_ready = ps_nonce_ready s\<rparr>"

definition is_paused :: "pair_state \<Rightarrow> bool" where
  "is_paused s = (ps_pause s \<noteq> None)"

definition reason_of :: "pair_state \<Rightarrow> pause_reason option" where
  "reason_of s = map_option pz_reason (ps_pause s)"

definition set_next_nonce :: "u64 \<Rightarrow> pair_state \<Rightarrow> pair_state" where
  "set_next_nonce nonce s = s\<lparr>ps_next_nonce := nonce, ps_nonce_ready := True\<rparr>"

definition advance_nonce :: "pair_state \<Rightarrow> pair_state" where
  "advance_nonce s = s\<lparr>ps_next_nonce := ps_next_nonce s + 1\<rparr>"

definition set_current :: "uuid option \<Rightarrow> pair_state \<Rightarrow> pair_state" where
  "set_current i s = s\<lparr>ps_current := i\<rparr>"

definition set_draining :: "bool \<Rightarrow> pair_state \<Rightarrow> pair_state" where
  "set_draining d s = s\<lparr>ps_draining := d\<rparr>"

definition pair_pause :: "timestamp \<Rightarrow> pause_reason \<Rightarrow> recovery_step \<Rightarrow> string \<Rightarrow> pair_state
    \<Rightarrow> bool \<times> pair_state \<times> pair_effect list" where
  "pair_pause now reason step detail s =
     (let s = (if reason = Manual then s\<lparr>ps_manual_pause := True\<rparr> else s);
          changed = (reason_of s \<noteq> Some reason);
          since = (if changed then now else (case ps_pause s of Some p \<Rightarrow> pz_since p | None \<Rightarrow> now));
          p = \<lparr>pz_reason = reason, pz_recovery_step = step, pz_since = since, pz_detail = detail\<rparr>
      in (changed, s\<lparr>ps_pause := Some p\<rparr>, [PersistPause (Some p) (ps_manual_pause s)]))"

definition resume_if :: "timestamp \<Rightarrow> pause_reason \<Rightarrow> pair_state \<Rightarrow> bool \<times> pair_state \<times> pair_effect list" where
  "resume_if now reason s =
     (if reason_of s \<noteq> Some reason then (False, s, [])
      else let s = (if reason = Manual then s\<lparr>ps_manual_pause := False\<rparr> else s)
           in if ps_manual_pause s
              then (False, s\<lparr>ps_pause := Some \<lparr>pz_reason = Manual, pz_recovery_step = AwaitingOperatorResume,
                                              pz_since = now, pz_detail = ''paused by operator''\<rparr>\<rparr>, [])
              else (True, s\<lparr>ps_pause := None\<rparr>, [PersistPause None (ps_manual_pause s), WakeWorker]))"

definition request_recovery :: "pair_state \<Rightarrow> pair_state \<times> pair_effect list" where
  "request_recovery s = (s\<lparr>ps_recovery_requested := True\<rparr>, [WakeWorker])"

definition take_recovery_request :: "pair_state \<Rightarrow> bool \<times> pair_state" where
  "take_recovery_request s = (ps_recovery_requested s, s\<lparr>ps_recovery_requested := False\<rparr>)"

text \<open>The operator actions on a pair (\<open>admin_pair\<close>, after the pair was found).\<close>

definition operator_reasons :: "pause_reason list" where
  "operator_reasons = [Manual, StuckUnresolved, NonceDrift, SignerUnavailable]"

definition admin_pair :: "timestamp \<Rightarrow> string \<Rightarrow> pair_state \<Rightarrow> (pair_state \<times> pair_effect list) option" where
  "admin_pair now action s =
     (if action = ''pause'' then
        (case pair_pause now Manual AwaitingOperatorResume ''paused by operator'' s of (_, s, es) \<Rightarrow> Some (s, es))
      else if action = ''resume'' then
        (case fold (\<lambda>reason (s, es). case resume_if now reason s of (_, s, es') \<Rightarrow> (s, es @ es')) operator_reasons (s, [])
         of (s, es) \<Rightarrow> case request_recovery s of (s, es') \<Rightarrow> Some (s, es @ es'))
      else if action = ''recover'' then Some (request_recovery s)
      else None)"

section \<open>Runs\<close>

datatype pair_call = CPause timestamp pause_reason recovery_step string | CResume timestamp pause_reason
  | CSetNonce u64 | CAdvance | CCurrent "uuid option" | CDraining bool | CRequestRecovery | CTakeRecovery

primrec pair_exec :: "pair_call \<Rightarrow> pair_state \<Rightarrow> pair_state" where
  "pair_exec (CPause now r st d) s = fst (snd (pair_pause now r st d s))"
| "pair_exec (CResume now r) s = fst (snd (resume_if now r s))"
| "pair_exec (CSetNonce n) s = set_next_nonce n s"
| "pair_exec CAdvance s = advance_nonce s"
| "pair_exec (CCurrent i) s = set_current i s"
| "pair_exec (CDraining d) s = set_draining d s"
| "pair_exec CRequestRecovery s = fst (request_recovery s)"
| "pair_exec CTakeRecovery s = snd (take_recovery_request s)"

primrec ends_manual :: "pair_call \<Rightarrow> bool" where
  "ends_manual (CPause now r st d) = False"
| "ends_manual (CResume now r) = (r = Manual)"
| "ends_manual (CSetNonce n) = False"
| "ends_manual CAdvance = False"
| "ends_manual (CCurrent i) = False"
| "ends_manual (CDraining d) = False"
| "ends_manual CRequestRecovery = False"
| "ends_manual CTakeRecovery = False"

lemmas pair_call_defs = pair_pause_def resume_if_def set_next_nonce_def advance_nonce_def set_current_def
  set_draining_def request_recovery_def take_recovery_request_def is_paused_def reason_of_def

text \<open>The invariant: an operator pause shows as a pause, and a manual pause is remembered as one.\<close>

definition pause_inv :: "pair_state \<Rightarrow> bool" where
  "pause_inv s \<longleftrightarrow> (ps_manual_pause s \<longrightarrow> is_paused s) \<and> (reason_of s = Some Manual \<longrightarrow> ps_manual_pause s)"

lemma pause_inv_new: "pause_inv (pair_new now manual)"
  by (simp add: pause_inv_def pair_new_def is_paused_def reason_of_def)

lemma pause_inv_exec: "pause_inv s \<Longrightarrow> pause_inv (pair_exec c s)"
  by (cases c) (auto simp: pause_inv_def pair_call_defs Let_def)

lemma pause_inv_run: "pause_inv s \<Longrightarrow> pause_inv (fold pair_exec cs s)"
  by (induction cs arbitrary: s) (simp_all add: pause_inv_exec)

lemma manual_kept: "ps_manual_pause s \<Longrightarrow> \<not> ends_manual c \<Longrightarrow> ps_manual_pause (pair_exec c s)"
  by (cases c) (auto simp: pair_call_defs Let_def)

lemma manual_kept_run: "ps_manual_pause s \<Longrightarrow> list_all (\<lambda>c. \<not> ends_manual c) cs \<Longrightarrow> ps_manual_pause (fold pair_exec cs s)"
  by (induction cs arbitrary: s) (simp_all add: manual_kept)

text \<open>C35. An operator pause holds. From the creation of the pair on, after any calls and an operator
  pause, no further calls other than an operator resume, whatever pauses they layer on top or clear,
  leave the pair running; and a resume for a reason that is not the pause in force changes nothing.\<close>

theorem operator_pause_holds:
  assumes "list_all (\<lambda>c. \<not> ends_manual c) later"
  shows "is_paused (fold pair_exec (earlier @ CPause now Manual st d # later) (pair_new t0 m))
    \<and> (reason_of s \<noteq> Some r \<longrightarrow> resume_if t r s = (False, s, []))"
proof -
  let ?s = "pair_exec (CPause now Manual st d) (fold pair_exec earlier (pair_new t0 m))"
  have "ps_manual_pause ?s" by (simp add: pair_pause_def Let_def)
  then have "ps_manual_pause (fold pair_exec later ?s)" using assms by (rule manual_kept_run)
  moreover have "pause_inv (fold pair_exec later ?s)"
    by (intro pause_inv_run pause_inv_exec pause_inv_new)
  ultimately show ?thesis by (simp add: pause_inv_def resume_if_def)
qed

theorem operator_pause_holds_witness:
  "is_paused (fold pair_exec ([CSetNonce 4, CResume 1 Booting] @ CPause 2 Manual AwaitingOperatorResume ''op''
      # [CPause 3 ChainOutage AwaitingChainHead ''down'', CResume 4 ChainOutage, CTakeRecovery]) (pair_new 0 False))"
  using operator_pause_holds [of "[CPause 3 ChainOutage AwaitingChainHead ''down'', CResume 4 ChainOutage, CTakeRecovery]"
      "[CSetNonce 4, CResume 1 Booting]" 2 AwaitingOperatorResume "''op''" 0 False "pair_new 0 False" Manual 0]
  by simp

section \<open>Operator resume\<close>

text \<open>When the operator's own pause is in force, or one of the reasons that wait for an operator without
  an operator pause below it, one resume clears it.\<close>

lemma operator_resume_clears:
  assumes "reason_of s = Some r" and "r \<in> set operator_reasons" and "r = Manual \<or> \<not> ps_manual_pause s"
  shows "\<exists>s' es. admin_pair now ''resume'' s = Some (s', es) \<and> \<not> is_paused s' \<and> ps_recovery_requested s'"
  using assms by (auto simp: admin_pair_def operator_reasons_def pair_call_defs Let_def)

text \<open>An operator resume does not always resume: the list of reasons is tried once, with the manual
  pause first. When the operator had paused the pair and it then stopped for a reason that waits for an
  operator too, the resume clears that reason but restores the manual pause, so the pair stays paused
  until the operator resumes a second time.\<close>

lemma operator_resume_may_need_two_calls:
  assumes "reason_of s = Some r" and "r \<in> set operator_reasons" and "r \<noteq> Manual" and "ps_manual_pause s"
  shows "\<exists>s1 es1 s2 es2. admin_pair now ''resume'' s = Some (s1, es1) \<and> reason_of s1 = Some Manual
    \<and> admin_pair now ''resume'' s1 = Some (s2, es2) \<and> \<not> is_paused s2"
  using assms by (auto simp: admin_pair_def operator_reasons_def pair_call_defs Let_def)

lemma operator_resume_may_need_two_calls_witness:
  "\<exists>s1 es1 s2 es2.
     admin_pair 9 ''resume'' (fold pair_exec [CResume 1 Booting, CPause 2 Manual AwaitingOperatorResume ''op'',
        CPause 3 StuckUnresolved NeedsOperator ''stuck''] (pair_new 0 False)) = Some (s1, es1)
     \<and> reason_of s1 = Some Manual \<and> admin_pair 9 ''resume'' s1 = Some (s2, es2) \<and> \<not> is_paused s2"
  by (rule operator_resume_may_need_two_calls [where r = StuckUnresolved])
    (simp_all add: pair_new_def operator_reasons_def pair_call_defs Let_def)

end
