(* ===== verification/Runtime.thy ===== *)
theory Runtime
  imports Settle Stats Pair_State Chain_Kinds
begin

text \<open>
  What the tasks of one pair work on: the parts of \<open>Engine\<close> (\<^verbatim>\<open>crates/gum-engine/src/engine.rs\<close>) they reach,
  with the pair and its chain. The write-behind and the confirmation verifier are seen by their senders
  through the channels \<open>en_settler\<close> and \<open>en_confirmer\<close>. \<open>en_sent\<close> is the history of what was handed to the
  network, in order; the code has no such field, it is what the safety theorems speak about. The clocks
  are fields that the environment sets.
\<close>

record pending_confirmation =
  pc_attempt :: attempt
  pc_inclusion :: inclusion
  pc_worst_case :: u256
  pc_due :: instant
  pc_misses :: u32

record runtime =
  en_db :: db
  en_epoch :: int
  en_stats :: stats
  en_ctx :: chain_ctx
  en_pair :: pair
  en_settler :: "settle_op list"
  en_confirmer :: "pending_confirmation list"
  en_stop_sending :: bool
  en_now :: instant
  en_utc :: timestamp
  en_sent :: "attempt list"

text \<open>Lifting the operations of the parts.\<close>

definition on_pair :: "(pair_state \<Rightarrow> pair_state) \<Rightarrow> runtime \<Rightarrow> runtime" where
  "on_pair f w = w\<lparr>en_pair := (en_pair w)\<lparr>pa_state := f (pa_state (en_pair w))\<rparr>\<rparr>"

definition on_ledger :: "(ledger \<Rightarrow> ledger) \<Rightarrow> runtime \<Rightarrow> runtime" where
  "on_ledger f w = w\<lparr>en_pair := (en_pair w)\<lparr>pa_ledger := f (pa_ledger (en_pair w))\<rparr>\<rparr>"

definition on_ctx :: "(chain_ctx \<Rightarrow> chain_ctx) \<Rightarrow> runtime \<Rightarrow> runtime" where
  "on_ctx f w = w\<lparr>en_ctx := f (en_ctx w)\<rparr>"

definition on_books :: "(books \<Rightarrow> books) \<Rightarrow> runtime \<Rightarrow> runtime" where
  "on_books f w =
     (case f (en_stats w, cc_queue (en_ctx w)) of
        (st, q) \<Rightarrow> w\<lparr>en_stats := st, en_ctx := (en_ctx w)\<lparr>cc_queue := q\<rparr>\<rparr>)"

definition pause_now :: "pause_reason \<Rightarrow> recovery_step \<Rightarrow> string \<Rightarrow> runtime \<Rightarrow> runtime" where
  "pause_now r step detail w = on_pair (\<lambda>s. fst (snd (pair_pause (en_utc w) r step detail s))) w"

definition resume_now :: "pause_reason \<Rightarrow> runtime \<Rightarrow> runtime" where
  "resume_now r w = on_pair (\<lambda>s. fst (snd (resume_if (en_utc w) r s))) w"

definition recover_now :: "runtime \<Rightarrow> runtime" where
  "recover_now w = on_pair (\<lambda>s. fst (request_recovery s)) w"

abbreviation pstate :: "runtime \<Rightarrow> pair_state" where
  "pstate w \<equiv> pa_state (en_pair w)"

abbreviation adapter_of :: "runtime \<Rightarrow> chain_adapter" where
  "adapter_of w \<equiv> cc_adapter (en_ctx w)"

abbreviation tun_of :: "runtime \<Rightarrow> tunables" where
  "tun_of w \<equiv> cc_tunables (en_ctx w)"

abbreviation key_of_pair :: "runtime \<Rightarrow> pair_key" where
  "key_of_pair w \<equiv> pa_key (en_pair w)"

lemma on_simps [simp]:
  "en_db (on_pair f w) = en_db w" "en_db (on_ledger g w) = en_db w" "en_db (on_ctx h w) = en_db w"
  "en_sent (on_pair f w) = en_sent w" "en_sent (on_ledger g w) = en_sent w" "en_sent (on_ctx h w) = en_sent w"
  "en_epoch (on_pair f w) = en_epoch w" "en_epoch (on_ledger g w) = en_epoch w" "en_epoch (on_ctx h w) = en_epoch w"
  "en_ctx (on_pair f w) = en_ctx w" "en_ctx (on_ledger g w) = en_ctx w"
  "en_settler (on_pair f w) = en_settler w" "en_settler (on_ledger g w) = en_settler w" "en_settler (on_ctx h w) = en_settler w"
  "en_stop_sending (on_pair f w) = en_stop_sending w" "en_stop_sending (on_ledger g w) = en_stop_sending w"
  "en_stop_sending (on_ctx h w) = en_stop_sending w"
  "en_now (on_pair f w) = en_now w" "en_now (on_ledger g w) = en_now w" "en_now (on_ctx h w) = en_now w"
  by (simp_all add: on_pair_def on_ledger_def on_ctx_def)

lemma on_books_simps [simp]:
  "en_db (on_books f w) = en_db w" "en_sent (on_books f w) = en_sent w" "en_epoch (on_books f w) = en_epoch w"
  by (simp_all add: on_books_def split: prod.split)

lemma now_simps [simp]:
  "en_db (pause_now r s d w) = en_db w" "en_db (resume_now r w) = en_db w" "en_db (recover_now w) = en_db w"
  "en_sent (pause_now r s d w) = en_sent w" "en_sent (resume_now r w) = en_sent w" "en_sent (recover_now w) = en_sent w"
  "en_epoch (pause_now r s d w) = en_epoch w" "en_epoch (resume_now r w) = en_epoch w" "en_epoch (recover_now w) = en_epoch w"
  "en_ctx (pause_now r s d w) = en_ctx w" "en_ctx (resume_now r w) = en_ctx w" "en_ctx (recover_now w) = en_ctx w"
  by (simp_all add: pause_now_def resume_now_def recover_now_def)

end
