(* ===== verification/Tx_Driver.thy ===== *)
theory Tx_Driver
  imports Runtime
begin

text \<open>
  Driving one nonce from signature to receipt, \<^verbatim>\<open>crates/gum-engine/src/pipeline/tx.rs\<close>: signing and binding a
  new transaction, broadcasting it, watching for its receipt, reacting to send errors, replacing it with
  higher fees, cancelling it, and the escalation ladder. Every answer of the world that an operation can
  meet (the node, the signer, the connection to the store, the treasury) is a field of \<open>answers\<close>; the
  operations themselves are functions of the runtime, composed as the code composes them. One iteration
  of the loop of \<open>resolve\<close> is \<open>resolve_step\<close>, with one set of answers (indexed where a call can be made
  more than once) and one reading of the clock.
\<close>

section \<open>Types\<close>

record tx_intent =
  ti_owner :: slot_owner
  ti_purpose :: attempt_purpose
  ti_to :: address
  ti_data :: bytes
  ti_value :: u256
  ti_gas_limit :: u64

datatype not_bound = NbSigner signer_error | OwnerGone | NbStore store_error | NbRpc rpc_error

datatype tx_outcome = Mined attempt inclusion | NotBound not_bound | Voided bool string | Unresolved
  | NeedsRecovery | Aborted

record in_flight =
  fl_intent :: tx_intent
  fl_nonce :: u64
  fl_attempts :: "attempt list"
  fl_worst_case :: u256
  fl_sent_head :: u64
  fl_sent_at :: instant
  fl_ladder_pos :: nat
  fl_bumps :: u32
  fl_never_accepted :: bool

datatype next_move = Poll | SendAgain | Finish tx_outcome

record tx_fields =
  tf_chain_id :: u64
  tf_nonce :: u64
  tf_to :: address
  tf_data :: bytes
  tf_value :: u256
  tf_gas_limit :: u64
  tf_max_fee_per_gas :: u128
  tf_max_priority_fee_per_gas :: u128

record signed_tx =
  stx_hash :: b256
  stx_raw :: bytes

type_synonym receipt_answer = "(receipt option, rpc_error) result"

record answers =
  an_sign :: "tx_fields \<Rightarrow> (signed_tx, signer_error) result"
  an_id :: uuid
  an_bind :: "nat \<Rightarrow> fault \<times> fault"
  an_void :: fault
  an_void_id :: uuid
  an_send_sync :: "(receipt, rpc_error) result"
  an_send :: "(b256, rpc_error) result"
  an_receipts :: "nat \<Rightarrow> b256 \<Rightarrow> receipt_answer"
  an_latest :: "nat \<Rightarrow> block_answer"
  an_count :: "(u64, rpc_error) result"
  an_balance :: "nat \<Rightarrow> (u256, rpc_error) result"
  an_estimate :: "(u64, rpc_error) result"
  an_topup :: "(unit, string) result"
  an_credited :: "ledger \<Rightarrow> ledger"
  an_decode :: "bytes \<Rightarrow> (address \<times> bytes) option"
  an_json :: "receipt \<Rightarrow> json"

section \<open>Costs and signing\<close>

definition estimate_encoded_len :: "nat \<Rightarrow> usize" where
  "estimate_encoded_len data_len = 120 + of_nat data_len"

definition worst_case :: "runtime \<Rightarrow> u64 \<Rightarrow> u256 \<Rightarrow> nat \<Rightarrow> fee_quote \<Rightarrow> u256" where
  "worst_case w gas_limit value data_len fees =
     ad_worst_case_cost (adapter_of w)
       \<lparr>tx_gas_limit = gas_limit, tx_value = value, tx_encoded_len = estimate_encoded_len data_len\<rparr>
       fees (cost_context_of (en_ctx w))"

definition cost_of :: "runtime \<Rightarrow> tx_intent \<Rightarrow> fee_quote \<Rightarrow> u256" where
  "cost_of w i fees = worst_case w (ti_gas_limit i) (ti_value i) (length (ti_data i)) fees"

definition quote_of :: "attempt \<Rightarrow> fee_quote" where
  "quote_of a = \<lparr>max_fee_per_gas = at_max_fee_per_gas a, max_priority_fee_per_gas = at_max_priority_fee_per_gas a\<rparr>"

definition sign :: "answers \<Rightarrow> runtime \<Rightarrow> tx_intent \<Rightarrow> u64 \<Rightarrow> fee_quote \<Rightarrow> attempt_purpose \<Rightarrow> address \<Rightarrow> bytes
    \<Rightarrow> u256 \<Rightarrow> u64 \<Rightarrow> (attempt, signer_error) result" where
  "sign an w i nonce fees purpose to_addr data value gas_limit =
     and_then (an_sign an \<lparr>tf_chain_id = pk_chain_id (key_of_pair w), tf_nonce = nonce, tf_to = to_addr, tf_data = data,
                 tf_value = value, tf_gas_limit = gas_limit, tf_max_fee_per_gas = max_fee_per_gas fees,
                 tf_max_priority_fee_per_gas = max_priority_fee_per_gas fees\<rparr>) (\<lambda>signed.
     Ok \<lparr>at_id = an_id an, at_chain_id = pk_chain_id (key_of_pair w), at_signer = pk_signer (key_of_pair w),
         at_nonce = nonce, at_purpose = purpose, at_owner = ti_owner i, at_tx_hash = stx_hash signed,
         at_raw_tx = stx_raw signed, at_gas_limit = gas_limit, at_max_fee_per_gas = max_fee_per_gas fees,
         at_max_priority_fee_per_gas = max_priority_fee_per_gas fees, at_value = value, at_status = ABroadcast,
         at_block_number = None, at_block_hash = None, at_created_at = en_utc w\<rparr>)"

section \<open>Binding\<close>

text \<open>The loop of six rounds. \<open>None\<close> is the \<open>unreachable!\<close> after it. In every round the first fault is
  that of the bind, the second that of the question whether the attempt exists.\<close>

fun bind_rounds :: "(nat \<Rightarrow> fault \<times> fault) \<Rightarrow> timestamp \<Rightarrow> int \<Rightarrow> attempt \<Rightarrow> bind_kind \<Rightarrow> nat \<Rightarrow> nat \<Rightarrow> db
    \<Rightarrow> (unit, store_error) result option \<times> db" where
  "bind_rounds bf now epoch a kind 0 r d = (None, d)"
| "bind_rounds bf now epoch a kind (Suc n) r d =
     (case faulty (fst (bf r)) (\<lambda>d. and_then (bind_attempt now epoch a kind d) (\<lambda>d. Ok (d, ()))) d of
        (Ok _, d') \<Rightarrow> (Some (Ok ()), d')
      | (Err e, d') \<Rightarrow>
          if is_transient e then
            (if faulty_read (snd (bf r)) (attempt_exists (at_tx_hash a)) d' = Ok True then (Some (Ok ()), d')
             else if r = 5 then (Some (Err e), d')
             else bind_rounds bf now epoch a kind n (Suc r) d')
          else (Some (Err e), d'))"

definition bind_tx :: "answers \<Rightarrow> attempt \<Rightarrow> bind_kind \<Rightarrow> runtime \<Rightarrow> (unit, store_error) result \<times> runtime" where
  "bind_tx an a kind w =
     (case bind_rounds (an_bind an) (en_utc w) (en_epoch w) a kind 6 0 (en_db w) of
        (Some r, d) \<Rightarrow> (r, w\<lparr>en_db := d\<rparr>)
      | (None, d) \<Rightarrow> (Err (Corrupt ''unreachable''), w\<lparr>en_db := d\<rparr>))"

section \<open>Receipts\<close>

definition inclusion_from :: "(receipt \<Rightarrow> json) \<Rightarrow> chain_adapter \<Rightarrow> attempt \<Rightarrow> receipt \<Rightarrow> inclusion option" where
  "inclusion_from to_json ad a rc =
     (case (rc_block_number rc, rc_block_hash rc) of
        (Some n, Some h) \<Rightarrow>
          let cost = ad_actual_cost ad (at_gas_limit a) rc
          in Some \<lparr>inc_tx_hash = rc_transaction_hash rc, inc_block_number = n, inc_block_hash = h,
               inc_outcome = from_receipt_status (succeeded rc), inc_gas_used = gas_used_u64 rc,
               inc_effective_gas_price = effective_gas_price_u128 rc, inc_fee_paid = fee_paid cost,
               inc_l1_fee = l1_fee cost, inc_receipt = to_json rc\<rparr>
      | _ \<Rightarrow> None)"

definition transferred :: "attempt \<Rightarrow> inclusion \<Rightarrow> u256" where
  "transferred a inc = (if inc_outcome inc = Success then at_value a else 0)"

definition spent_by :: "attempt \<Rightarrow> inclusion \<Rightarrow> u256" where
  "spent_by a inc = sat_add (inc_fee_paid inc) (transferred a inc)"

definition tx_settle :: "attempt \<Rightarrow> inclusion \<Rightarrow> u256 \<Rightarrow> bool \<Rightarrow> runtime \<Rightarrow> runtime" where
  "tx_settle a inc wc reincluded w =
     (let w = on_ledger (settle (at_nonce a) (spent_by a inc) (inc_block_number inc)) w;
          w = on_ctx (\<lambda>c. snd (observe_head (en_now w) (inc_block_number inc) (Some (inc_block_hash inc)) c)) w;
          w = on_ctx (observe_receipt_price (en_now w) (inc_effective_gas_price inc)
                (min (at_max_priority_fee_per_gas a) (at_max_fee_per_gas a))) w;
          w = (case inc_l1_fee inc of Some l1 \<Rightarrow> on_ctx (observe_l1_fee l1 (of_nat (length (at_raw_tx a)))) w | None \<Rightarrow> w);
          confirm_now = (confirm_check_of (en_ctx w) = Immediate);
          w = w\<lparr>en_settler := en_settler w @ [SInclusion a inc confirm_now reincluded]\<rparr>
      in if confirm_now then w
         else w\<lparr>en_confirmer := en_confirmer w @ [\<lparr>pc_attempt = a, pc_inclusion = inc, pc_worst_case = wc,
                   pc_due = en_now w + millis (confirmation_delay_ms (tun_of w)), pc_misses = 0\<rparr>]\<rparr>)"

definition on_receipt :: "answers \<Rightarrow> in_flight \<Rightarrow> receipt \<Rightarrow> runtime \<Rightarrow> tx_outcome option \<times> runtime" where
  "on_receipt an f rc w =
     (case find (\<lambda>a. at_tx_hash a = rc_transaction_hash rc) (fl_attempts f) of
        None \<Rightarrow> (None, w)
      | Some a \<Rightarrow>
          (case inclusion_from (an_json an) (adapter_of w) a rc of
             None \<Rightarrow> (None, w)
           | Some inc \<Rightarrow>
               let w = tx_settle a inc (fl_worst_case f) False w
               in (Some (Mined a inc), resume_now InsufficientFunds (resume_now StuckUnresolved w))))"

text \<open>Looking for receipts of a list of hashes: the first usable one ends the search. A failed lookup
  ends the poll of \<open>resolve\<close> but not the search of \<open>on_nonce_too_low\<close>.\<close>

fun poll_receipts :: "answers \<Rightarrow> in_flight \<Rightarrow> (b256 \<Rightarrow> receipt_answer) \<Rightarrow> bool \<Rightarrow> b256 list \<Rightarrow> runtime
    \<Rightarrow> tx_outcome option \<times> runtime" where
  "poll_receipts an f look stop_on_error [] w = (None, w)"
| "poll_receipts an f look stop_on_error (h # hs) w =
     (case look h of
        Ok (Some rc) \<Rightarrow>
          (case on_receipt an f rc w of
             (Some out, w') \<Rightarrow> (Some out, w')
           | (None, w') \<Rightarrow> poll_receipts an f look stop_on_error hs w')
      | Ok None \<Rightarrow> poll_receipts an f look stop_on_error hs w
      | Err e \<Rightarrow> if stop_on_error then (None, w) else poll_receipts an f look stop_on_error hs w)"

definition newest_first :: "in_flight \<Rightarrow> b256 list" where
  "newest_first f = rev (map at_tx_hash (fl_attempts f))"

text \<open>The four rounds of \<open>on_nonce_too_low\<close>.\<close>

fun search_rounds :: "answers \<Rightarrow> in_flight \<Rightarrow> nat list \<Rightarrow> runtime \<Rightarrow> tx_outcome option \<times> runtime" where
  "search_rounds an f [] w = (None, w)"
| "search_rounds an f (k # ks) w =
     (case poll_receipts an f (an_receipts an k) False (newest_first f) w of
        (Some out, w') \<Rightarrow> (Some out, w')
      | (None, w') \<Rightarrow> search_rounds an f ks w')"

section \<open>Giving a nonce up\<close>

definition void_tx :: "answers \<Rightarrow> in_flight \<Rightarrow> attempt \<Rightarrow> void_mode \<Rightarrow> void_disposition \<Rightarrow> string \<Rightarrow> runtime
    \<Rightarrow> next_move \<times> runtime" where
  "void_tx an f a mode disposition reason w =
     (case faulty (an_void an) (\<lambda>d. and_then (void_binding (en_utc w) (en_utc w) (an_void_id an) (en_epoch w) a mode disposition d)
                                      (\<lambda>d. Ok (d, ()))) (en_db w) of
        (Ok _, d) \<Rightarrow>
          let w = on_ledger (release (fl_nonce f)) (w\<lparr>en_db := d\<rparr>);
              w = (if mode = NonceUnused then on_pair (set_next_nonce (fl_nonce f)) w else w)
          in (Finish (Voided (disposition = Requeue) reason), w)
      | (Err (Fenced m), d) \<Rightarrow> (Finish Aborted, w\<lparr>en_db := d, en_stop_sending := True\<rparr>)
      | (Err e, d) \<Rightarrow> (Poll, w\<lparr>en_db := d\<rparr>))"

definition on_nonce_too_low :: "answers \<Rightarrow> in_flight \<Rightarrow> attempt \<Rightarrow> bool \<Rightarrow> runtime \<Rightarrow> next_move \<times> runtime" where
  "on_nonce_too_low an f a fresh w =
     (case search_rounds an f [0, 1, 2, 3] w of
        (Some out, w') \<Rightarrow> (Finish out, w')
      | (None, w') \<Rightarrow>
          if fresh then
            (case void_tx an f a NonceTakenByForeignTx Requeue ''nonce consumed by a foreign transaction'' w' of
               (nx, w'') \<Rightarrow> (nx, recover_now w''))
          else
            (Finish Unresolved,
             pause_now NonceDrift NeedsOperator
               (''nonce '' @ dec_str (unat (at_nonce a)) @ '' is consumed on-chain but none of our transactions for it has a receipt'') w'))"

section \<open>Replacing, funding, cancelling\<close>

definition replace_with_fresh_fees :: "answers \<Rightarrow> in_flight \<Rightarrow> runtime \<Rightarrow> next_move \<times> in_flight \<times> runtime" where
  "replace_with_fresh_fees an f w =
     (let t = tun_of w in
      if max (max_bumps t) 1 \<le> fl_bumps f then (Poll, f, w)
      else (case base_fee (en_now w) True (an_latest an 2) (en_ctx w) of
        (Err e, _, c) \<Rightarrow> (Poll, f, w\<lparr>en_ctx := c\<rparr>)
      | (Ok base, _, c) \<Rightarrow>
          let w = w\<lparr>en_ctx := c\<rparr>;
              prev = quote_of (last (fl_attempts f));
              quote = (if cap_replacement (ad_capabilities (adapter_of w))
                       then ad_replacement (adapter_of w) prev base (max_fee_cap_wei t) t
                       else let q = ad_fee_quote (adapter_of w) base t
                            in if max_fee_per_gas prev < max_fee_per_gas q then Some q else None)
          in (case quote of
                None \<Rightarrow> (Poll, f, w)
              | Some q \<Rightarrow>
                  (case find (\<lambda>a. at_purpose a \<noteq> PCancel) (fl_attempts f) of
                     None \<Rightarrow> (Poll, f, w)
                   | Some original \<Rightarrow>
                       (case an_decode an (at_raw_tx original) of
                          None \<Rightarrow> (Poll, f, w)
                        | Some (to_addr, data) \<Rightarrow>
                            (case sign an w (fl_intent f) (fl_nonce f) q (at_purpose original) to_addr data
                                    (at_value original) (at_gas_limit original) of
                               Err e \<Rightarrow> (Poll, f, w)
                             | Ok a \<Rightarrow>
                                 (case bind_tx an a Replacement w of
                                    (Err (Fenced m), w) \<Rightarrow> (Finish Aborted, f, w\<lparr>en_stop_sending := True\<rparr>)
                                  | (Err e, w) \<Rightarrow> (Poll, f, w)
                                  | (Ok _, w) \<Rightarrow>
                                      let wc = max (fl_worst_case f)
                                                 (worst_case w (at_gas_limit a) (at_value a) (length (at_raw_tx a)) q)
                                      in (SendAgain,
                                          f\<lparr>fl_bumps := fl_bumps f + 1, fl_worst_case := wc,
                                            fl_attempts := fl_attempts f @ [a]\<rparr>,
                                          on_ledger (reserve (fl_nonce f) wc) w))))))))"

definition fund_and_retry :: "answers \<Rightarrow> in_flight \<Rightarrow> runtime \<Rightarrow> next_move \<times> runtime" where
  "fund_and_retry an f w =
     (let ticket = begin_reconcile (pa_ledger (en_pair w));
          w = (case an_balance an 1 of
                 Ok balance \<Rightarrow> on_ledger (\<lambda>l. snd (reconcile ticket balance (chain_head (en_ctx w)) l)) w
               | Err e \<Rightarrow> w)
      in if pa_role (en_pair w) = RTreasury
         then (SendAgain, pause_now InsufficientFunds AwaitingTreasuryRefill ''treasury cannot cover its own transaction'' w)
         else (case an_topup an of
                 Ok _ \<Rightarrow> (SendAgain, resume_now InsufficientFunds (on_ledger (an_credited an) w))
               | Err reason \<Rightarrow> (SendAgain, pause_now InsufficientFunds AwaitingTreasuryRefill reason w)))"

definition cancel_tx :: "answers \<Rightarrow> in_flight \<Rightarrow> runtime \<Rightarrow> next_move \<times> in_flight \<times> runtime" where
  "cancel_tx an f w =
     (let t = tun_of w;
          prev = quote_of (last (fl_attempts f));
          (r, _, c) = base_fee (en_now w) True (an_latest an 1) (en_ctx w);
          base = (case r of Ok b \<Rightarrow> b | Err e \<Rightarrow> 0);
          w = w\<lparr>en_ctx := c\<rparr>;
          me = pk_signer (key_of_pair w)
      in case ad_replacement (adapter_of w) prev base (cancel_fee_cap_wei t) t of
           None \<Rightarrow> (Poll, f, w)
         | Some q \<Rightarrow>
             (case (case ad_transfer_gas (adapter_of w) of
                      FixedGas g \<Rightarrow> Some g
                    | EstimateGas \<Rightarrow> (case an_estimate an of
                        Ok g \<Rightarrow> Some (sat_mul g (ucast (estimate_multiplier_bps t)) div 10000)
                      | Err e \<Rightarrow> None)) of
                None \<Rightarrow> (Poll, f, w)
              | Some gas \<Rightarrow>
                  (case sign an w (fl_intent f) (fl_nonce f) q PCancel me [] 0 gas of
                     Err e \<Rightarrow> (Poll, f, w)
                   | Ok a \<Rightarrow>
                       (case bind_tx an a Cancel w of
                          (Err (Fenced m), w) \<Rightarrow> (Finish Aborted, f, w\<lparr>en_stop_sending := True\<rparr>)
                        | (Err e, w) \<Rightarrow> (Poll, f, w)
                        | (Ok _, w) \<Rightarrow>
                            let wc = max (fl_worst_case f) (worst_case w gas 0 0 q)
                            in (SendAgain, f\<lparr>fl_worst_case := wc, fl_attempts := fl_attempts f @ [a]\<rparr>,
                                on_ledger (reserve (fl_nonce f) wc) w)))))"

section \<open>Send errors\<close>

definition on_send_error :: "answers \<Rightarrow> in_flight \<Rightarrow> attempt \<Rightarrow> rpc_error \<Rightarrow> string \<Rightarrow> runtime
    \<Rightarrow> next_move \<times> in_flight \<times> runtime" where
  "on_send_error an f a err err_text w =
     (let fresh = fl_never_accepted f in
      case ad_classify_send_error (adapter_of w) err of
        AlreadyKnown \<Rightarrow> (Poll, f\<lparr>fl_never_accepted := False\<rparr>, w)
      | AcceptedPending \<Rightarrow> (Poll, f\<lparr>fl_never_accepted := False\<rparr>, w)
      | Indeterminate \<Rightarrow> (Poll, f, w)
      | PoolBusy \<Rightarrow> (SendAgain, f, w)
      | NonceTooLow \<Rightarrow> (case on_nonce_too_low an f a fresh w of (nx, w) \<Rightarrow> (nx, f, w))
      | NonceTooHigh \<Rightarrow> (Finish NeedsRecovery, f, w)
      | FeeTooLow \<Rightarrow> replace_with_fresh_fees an f w
      | LacksFunds \<Rightarrow> (case fund_and_retry an f w of (nx, w) \<Rightarrow> (nx, f, w))
      | Deterministic \<Rightarrow>
          if fresh \<and> cap_trust_stateless_rejects (ad_capabilities (adapter_of w))
          then (case void_tx an f a NonceUnused (Fail InvalidTx (''rejected by the node: '' @ err_text))
                       (''stateless reject: '' @ err_text) w of (nx, w) \<Rightarrow> (nx, f, w))
          else (Poll, f, w))"

section \<open>Escalation\<close>

definition escalate :: "answers \<Rightarrow> in_flight \<Rightarrow> runtime \<Rightarrow> next_move \<times> in_flight \<times> runtime" where
  "escalate an f w =
     (let ladder = ad_stuck_ladder (adapter_of w) in
      if length ladder \<le> fl_ladder_pos f then
        (Finish Unresolved, f,
         pause_now StuckUnresolved NeedsOperator
           (''nonce '' @ dec_str (unat (fl_nonce f)) @ '' is not being mined and every automatic remedy has been tried'') w)
      else (case ladder ! fl_ladder_pos f of
        Rebroadcast \<Rightarrow> (SendAgain, f\<lparr>fl_ladder_pos := fl_ladder_pos f + 1\<rparr>, w)
      | Diagnose \<Rightarrow>
          (case an_count an of
             Err e \<Rightarrow> (Poll, f, w)
           | Ok chain_nonce \<Rightarrow>
               let f = f\<lparr>fl_ladder_pos := fl_ladder_pos f + 1\<rparr>
               in if chain_nonce < fl_nonce f then (Finish NeedsRecovery, f, w)
                  else if fl_nonce f < chain_nonce
                    then (case on_nonce_too_low an f (last (fl_attempts f)) False w of (nx, w) \<Rightarrow> (nx, f, w))
                  else (case an_balance an 0 of
                     Ok balance \<Rightarrow>
                       if ad_spendable (adapter_of w) balance (ti_value (fl_intent f)) < fl_worst_case f
                       then (case fund_and_retry an f w of (nx, w) \<Rightarrow> (nx, f, w))
                       else (Poll, f, w)
                   | Err e \<Rightarrow> (Poll, f, w)))
      | Bump \<Rightarrow>
          let lst = last (fl_attempts f);
              (r, _, c) = base_fee (en_now w) True (an_latest an 1) (en_ctx w);
              base = (case r of Ok b \<Rightarrow> b | Err e \<Rightarrow> 0);
              w = w\<lparr>en_ctx := c\<rparr>;
              underpriced = (at_max_fee_per_gas lst < sat_add base (at_max_priority_fee_per_gas lst))
          in if underpriced \<and> fl_bumps f < max_bumps (tun_of w) then replace_with_fresh_fees an f w
             else (SendAgain, f\<lparr>fl_ladder_pos := fl_ladder_pos f + 1\<rparr>, w)
      | NoopTx \<Rightarrow> cancel_tx an (f\<lparr>fl_ladder_pos := fl_ladder_pos f + 1\<rparr>) w))"


section \<open>The loop\<close>

record drive =
  dr_flight :: in_flight
  dr_broadcast_pending :: bool
  dr_first_broadcast :: bool
  dr_parked :: bool
  dr_poll :: duration

definition base_poll :: "tunables \<Rightarrow> duration" where
  "base_poll t = millis (max (receipt_poll_interval_ms t) 50)"

definition drive_start :: "in_flight \<Rightarrow> tunables \<Rightarrow> drive" where
  "drive_start f t = \<lparr>dr_flight = f, dr_broadcast_pending = True, dr_first_broadcast = True, dr_parked = False,
     dr_poll = base_poll t\<rparr>"

text \<open>Sending the stored bytes: \<open>Ok (Some rc)\<close> when the node answered with the receipt.\<close>

definition broadcast :: "answers \<Rightarrow> attempt \<Rightarrow> bool \<Rightarrow> runtime \<Rightarrow> receipt_answer \<times> runtime" where
  "broadcast an a allow_sync w =
     (if allow_sync \<and> cc_sync_send (en_ctx w) then and_then (an_send_sync an) (\<lambda>rc. Ok (Some rc))
      else and_then (an_send an) (\<lambda>_. Ok None),
      w\<lparr>en_sent := en_sent w @ [a]\<rparr>)"

definition stuck_after :: "tunables \<Rightarrow> duration" where
  "stuck_after t = millis (max (stuck_after_blocks t) 1 * max (block_time_ms t) 1)"

text \<open>The first half of an iteration, when a broadcast is pending.\<close>

definition broadcast_step :: "answers \<Rightarrow> (rpc_error \<Rightarrow> string) \<Rightarrow> drive \<Rightarrow> runtime \<Rightarrow> tx_outcome option \<times> drive \<times> runtime" where
  "broadcast_step an show_rpc s w =
     (let f = dr_flight s;
          a = last (fl_attempts f);
          (r, w) = broadcast an a (dr_first_broadcast s) w;
          f = f\<lparr>fl_sent_head := max (chain_head (en_ctx w)) (fl_sent_head f), fl_sent_at := en_now w\<rparr>;
          s = s\<lparr>dr_broadcast_pending := False, dr_first_broadcast := False, dr_flight := f\<rparr>
      in case r of
           Ok (Some rc) \<Rightarrow> (case on_receipt an f rc w of (out, w) \<Rightarrow> (out, s, w))
         | Ok None \<Rightarrow> (None, s\<lparr>dr_flight := f\<lparr>fl_never_accepted := False\<rparr>\<rparr>, w)
         | Err e \<Rightarrow>
             if is_definitely_not_delivered e
             then (None, s\<lparr>dr_broadcast_pending := True, dr_first_broadcast := fl_never_accepted f\<rparr>, w)
             else (case on_send_error an f a e (show_rpc e) w of
                     (Poll, f, w) \<Rightarrow> (None, s\<lparr>dr_flight := f\<rparr>, w)
                   | (SendAgain, f, w) \<Rightarrow> (None, s\<lparr>dr_flight := f, dr_broadcast_pending := True\<rparr>, w)
                   | (Finish out, f, w) \<Rightarrow> (Some out, s\<lparr>dr_flight := f\<rparr>, w)))"

text \<open>The second half: the poll, and the escalation when the nonce is stuck.\<close>

definition poll_step :: "answers \<Rightarrow> drive \<Rightarrow> runtime \<Rightarrow> tx_outcome option \<times> drive \<times> runtime" where
  "poll_step an s w =
     (let f = dr_flight s;
          t = tun_of w;
          s = s\<lparr>dr_poll := min (dr_poll s * 3 div 2) (base_poll t * 8)\<rparr>
      in case poll_receipts an f (an_receipts an 4) True (newest_first f) w of
           (Some out, w) \<Rightarrow> (Some out, s, w)
         | (None, w) \<Rightarrow>
             if chain_status_of (en_ctx w) \<noteq> Healthy then (None, s\<lparr>dr_flight := f\<lparr>fl_sent_at := en_now w\<rparr>\<rparr>, w)
             else if dr_parked s then (None, s\<lparr>dr_poll := ms 30000\<rparr>, w)
             else if elapsed (en_now w) (fl_sent_at f) < stuck_after t then (None, s, w)
             else (case an_latest an 0 of
                     Ok (Some b) \<Rightarrow>
                       let w = on_ctx (observe_block (en_now w) b) w
                       in if bk_number b < fl_sent_head f + stuck_after_blocks t then (None, s, w)
                          else (case escalate an f w of
                                  (Poll, f, w) \<Rightarrow> (None, s\<lparr>dr_flight := f, dr_poll := base_poll t\<rparr>, w)
                                | (SendAgain, f, w) \<Rightarrow>
                                    (None, s\<lparr>dr_flight := f, dr_broadcast_pending := True, dr_poll := base_poll t\<rparr>, w)
                                | (Finish Unresolved, f, w) \<Rightarrow> (None, s\<lparr>dr_flight := f, dr_parked := True\<rparr>, w)
                                | (Finish out, f, w) \<Rightarrow> (Some out, s\<lparr>dr_flight := f\<rparr>, w))
                   | _ \<Rightarrow> (None, s, w)))"

definition resolve_step :: "answers \<Rightarrow> (rpc_error \<Rightarrow> string) \<Rightarrow> drive \<Rightarrow> runtime \<Rightarrow> tx_outcome option \<times> drive \<times> runtime" where
  "resolve_step an show_rpc s w =
     (if en_stop_sending w then (Some Aborted, s, w)
      else if dr_broadcast_pending s then broadcast_step an show_rpc s w
      else poll_step an s w)"

text \<open>The loop over the answers of the world, one set per iteration with the clocks it happens at: it is
  still running when the answers end before an outcome.\<close>

record turn =
  tn_answers :: answers
  tn_now :: instant
  tn_utc :: timestamp
  tn_stop :: bool

definition begin_turn :: "turn \<Rightarrow> runtime \<Rightarrow> runtime" where
  "begin_turn t w = w\<lparr>en_now := max (en_now w) (tn_now t), en_utc := tn_utc t,
     en_stop_sending := (en_stop_sending w \<or> tn_stop t)\<rparr>"

fun resolve :: "(rpc_error \<Rightarrow> string) \<Rightarrow> turn list \<Rightarrow> drive \<Rightarrow> runtime \<Rightarrow> tx_outcome option \<times> drive \<times> runtime" where
  "resolve show_rpc [] s w = (None, s, w)"
| "resolve show_rpc (t # ts) s w =
     (case resolve_step (tn_answers t) show_rpc s (begin_turn t w) of
        (Some out, s, w) \<Rightarrow> (Some out, s, w)
      | (None, s, w) \<Rightarrow> resolve show_rpc ts s w)"

section \<open>Entry points\<close>

datatype started = Ended tx_outcome | Driving drive

definition execute_start :: "answers \<Rightarrow> tx_intent \<Rightarrow> fee_quote \<Rightarrow> runtime \<Rightarrow> started \<times> runtime" where
  "execute_start an i fees w =
     (let nonce = ps_next_nonce (pstate w) in
      case sign an w i nonce fees (ti_purpose i) (ti_to i) (ti_data i) (ti_value i) (ti_gas_limit i) of
        Err e \<Rightarrow> (Ended (NotBound (NbSigner e)), w)
      | Ok a \<Rightarrow>
          (case bind_tx an a First w of
             (Err (Fenced m), w) \<Rightarrow> (Ended Aborted, w\<lparr>en_stop_sending := True\<rparr>)
           | (Err (StateConflict x y z), w) \<Rightarrow> (Ended (NotBound OwnerGone), w)
           | (Err e, w) \<Rightarrow> (Ended (NotBound (NbStore e)), w)
           | (Ok _, w) \<Rightarrow>
               let w = on_pair advance_nonce w;
                   wc = cost_of w i fees;
                   w = on_ledger (reserve nonce wc) w
               in (Driving (drive_start \<lparr>fl_intent = i, fl_nonce = nonce, fl_attempts = [a], fl_worst_case = wc,
                      fl_sent_head = chain_head (en_ctx w), fl_sent_at = en_now w, fl_ladder_pos = 0, fl_bumps = 0,
                      fl_never_accepted = True\<rparr> (tun_of w)), w)))"

definition resume_start :: "attempt list \<Rightarrow> runtime \<Rightarrow> started \<times> runtime" where
  "resume_start atts w =
     (case atts of
        [] \<Rightarrow> (Ended Unresolved, w)
      | first # rest \<Rightarrow>
          let job_attempt = (case find (\<lambda>a. at_purpose a \<noteq> PCancel) atts of Some a \<Rightarrow> a | None \<Rightarrow> first);
              i = \<lparr>ti_owner = at_owner first, ti_purpose = at_purpose job_attempt, ti_to = 0, ti_data = [],
                   ti_value = at_value job_attempt, ti_gas_limit = at_gas_limit job_attempt\<rparr>;
              wc = fold max (map (\<lambda>a. worst_case w (at_gas_limit a) (at_value a) (length (at_raw_tx a)) (quote_of a)) atts) 0;
              w = on_ledger (reserve (at_nonce first) wc) w;
              cancelled = list_ex (\<lambda>a. at_purpose a = PCancel) atts
          in (Driving (drive_start \<lparr>fl_intent = i, fl_nonce = at_nonce first, fl_attempts = atts, fl_worst_case = wc,
                 fl_sent_head = chain_head (en_ctx w), fl_sent_at = en_now w,
                 fl_ladder_pos = (if cancelled then length (ad_stuck_ladder (adapter_of w)) else 0), fl_bumps = 0,
                 fl_never_accepted = False\<rparr> (tun_of w)), w))"

text \<open>\<open>execute\<close> and \<open>resume\<close>: the start, then the loop.\<close>

definition drive_on :: "(rpc_error \<Rightarrow> string) \<Rightarrow> turn list \<Rightarrow> started \<times> runtime \<Rightarrow> tx_outcome option \<times> runtime" where
  "drive_on show_rpc ts sw =
     (case sw of
        (Ended out, w) \<Rightarrow> (Some out, w)
      | (Driving s, w) \<Rightarrow> (case resolve show_rpc ts s w of (out, s, w) \<Rightarrow> (out, w)))"

definition execute :: "(rpc_error \<Rightarrow> string) \<Rightarrow> turn \<Rightarrow> turn list \<Rightarrow> tx_intent \<Rightarrow> fee_quote \<Rightarrow> runtime
    \<Rightarrow> tx_outcome option \<times> runtime" where
  "execute show_rpc t ts i fees w = drive_on show_rpc ts (execute_start (tn_answers t) i fees (begin_turn t w))"

definition resume :: "(rpc_error \<Rightarrow> string) \<Rightarrow> turn list \<Rightarrow> attempt list \<Rightarrow> runtime \<Rightarrow> tx_outcome option \<times> runtime" where
  "resume show_rpc ts atts w = drive_on show_rpc ts (resume_start atts w)"

end
