(* ===== verification/Monitor.thy ===== *)
theory Monitor
  imports Chain_Ctx Chain_Kinds Pair_State
begin

text \<open>
  The chain health monitor of \<^verbatim>\<open>crates/gum-engine/src/chain/monitor.rs\<close>. The state is the chain's context,
  the monitor's own \<open>trouble_since\<close> and the pairs of the chain; one iteration of the loop is a function
  of the time it wakes up, the time its probe is answered, whether the RPC breaker is open and the
  answer to the probe. Alerts, metrics and log lines are left out.

  The lemmas show when an outage is declared and ended, and what both mean for the pairs: declaring it
  leaves every pair paused, ending it makes every pair reconcile first.
\<close>

record mon =
  mo_ctx :: chain_ctx
  mo_trouble_since :: "instant option"
  mo_pairs :: "pair_state list"

record probe =
  pb_woken :: instant
  pb_answered :: instant
  pb_utc :: timestamp
  pb_breaker_open :: bool
  pb_answer :: block_answer

definition idle_of :: "tunables \<Rightarrow> duration" where
  "idle_of t = millis (max (idle_probe_interval_ms t) 1000)"

definition fast_of :: "tunables \<Rightarrow> duration" where
  "fast_of t = millis (max (degraded_probe_interval_ms t) 500)"

text \<open>How long the loop sleeps before it looks again.\<close>

definition monitor_wait :: "instant \<Rightarrow> mon \<Rightarrow> duration" where
  "monitor_wait now m =
     (let t = cc_tunables (mo_ctx m); idle = idle_of t
      in if chain_status_of (mo_ctx m) = Healthy \<and> mo_trouble_since m = None
         then let since = (case hv_last_observed (cc_health (mo_ctx m)) of Some x \<Rightarrow> elapsed now x | None \<Rightarrow> idle)
              in max (idle - since) (ms 250)
         else fast_of t)"

text \<open>Traffic is telling everything: no probe is spent.\<close>

definition monitor_skips :: "probe \<Rightarrow> mon \<Rightarrow> bool" where
  "monitor_skips p m =
     (chain_status_of (mo_ctx m) = Healthy \<and> mo_trouble_since m = None \<and> \<not> pb_breaker_open p
      \<and> (case hv_last_observed (cc_health (mo_ctx m)) of
           Some x \<Rightarrow> elapsed (pb_woken p) x < idle_of (cc_tunables (mo_ctx m)) | None \<Rightarrow> False))"

text \<open>The verdict on a probe and the context with the block observed.\<close>

definition judge_probe :: "probe \<Rightarrow> chain_ctx \<Rightarrow> bool \<times> chain_ctx" where
  "judge_probe p c =
     (case pb_answer p of
        Ok (Some b) \<Rightarrow>
          let before = cc_health c;
              advanced = (hv_head_number before < bk_number b \<or> hv_last_advance before = None);
              c' = observe_block (pb_answered p) b c
          in (case liveness (cc_tunables c) of
                RpcResponsive \<Rightarrow> (True, c')
              | HeadAdvance \<Rightarrow>
                  (advanced \<or> (case hv_last_advance before of Some a \<Rightarrow> elapsed (pb_answered p) a | None \<Rightarrow> 0)
                       < millis (stall_warn_ms (cc_tunables c)), c'))
      | Ok None \<Rightarrow> (False, c)
      | Err e \<Rightarrow> (False, c))"

definition on_outage :: "timestamp \<Rightarrow> chain_ctx \<times> pair_state list \<Rightarrow> chain_ctx \<times> pair_state list" where
  "on_outage utc cp =
     (snd (set_chain_status Down (fst cp)),
      map (\<lambda>s. if is_paused s then s
               else fst (snd (pair_pause utc ChainOutage AwaitingChainHead
                 ''chain outage: waiting for the chain to produce blocks / the RPC to answer'' s))) (snd cp))"

definition on_recovered :: "chain_status \<Rightarrow> chain_ctx \<times> pair_state list \<Rightarrow> chain_ctx \<times> pair_state list" where
  "on_recovered previous cp =
     (snd (set_chain_status Healthy (fst cp)),
      if previous = Down then map (\<lambda>s. fst (request_recovery s)) (snd cp) else snd cp)"

definition stalled_for :: "instant \<Rightarrow> instant \<Rightarrow> chain_ctx \<Rightarrow> duration" where
  "stalled_for now since c =
     (case liveness (cc_tunables c) of
        HeadAdvance \<Rightarrow> max (case hv_last_advance (cc_health c) of Some a \<Rightarrow> elapsed now a | None \<Rightarrow> elapsed now since)
                          (elapsed now since)
      | RpcResponsive \<Rightarrow> elapsed now since)"

definition monitor_iter :: "probe \<Rightarrow> mon \<Rightarrow> mon" where
  "monitor_iter p m =
     (if monitor_skips p m then m
      else
        let status = chain_status_of (mo_ctx m);
            t = cc_tunables (mo_ctx m);
            (good, c) = judge_probe p (mo_ctx m)
        in if good then
             (let (c', ps) = (if status \<noteq> Healthy then on_recovered status (c, mo_pairs m) else (c, mo_pairs m))
              in m\<lparr>mo_ctx := c', mo_trouble_since := None, mo_pairs := ps\<rparr>)
           else
             (let since = (case mo_trouble_since m of Some x \<Rightarrow> x | None \<Rightarrow> pb_answered p);
                  stalled = stalled_for (pb_answered p) since c;
                  (c', ps) =
                    (if millis (stall_outage_ms t) \<le> stalled \<and> status \<noteq> Down then on_outage (pb_utc p) (c, mo_pairs m)
                     else if millis (stall_warn_ms t) \<le> stalled \<and> status = Healthy
                       then (snd (set_chain_status Degraded c), mo_pairs m)
                     else (c, mo_pairs m))
              in m\<lparr>mo_ctx := c', mo_trouble_since := Some since, mo_pairs := ps\<rparr>))"

section \<open>Facts\<close>

lemma status_set_status [simp]: "chain_status_of (snd (set_chain_status s c)) = s"
  by (simp add: set_chain_status_def chain_status_of_def)

lemma tunables_set_status [simp]: "cc_tunables (snd (set_chain_status s c)) = cc_tunables c"
  by (simp add: set_chain_status_def)

lemma status_observe_block [simp]: "chain_status_of (observe_block now b c) = chain_status_of c"
  by (simp add: observe_defs chain_status_of_def Let_def split: option.split)

lemma judge_probe_snd:
  "chain_status_of (snd (judge_probe p c)) = chain_status_of c" "cc_tunables (snd (judge_probe p c)) = cc_tunables c"
  by (simp_all add: judge_probe_def Let_def split: sum.split option.split liveness_mode.split)

lemma judge_probe_keeps:
  "judge_probe p c = (g, c') \<Longrightarrow> chain_status_of c' = chain_status_of c \<and> cc_tunables c' = cc_tunables c"
  using judge_probe_snd [of p c] by simp

lemma judge_probe_good: "judge_probe p c = (True, c') \<Longrightarrow> \<exists>b. pb_answer p = Ok (Some b)"
  by (auto simp: judge_probe_def Let_def split: sum.splits option.splits liveness_mode.splits)

lemma paused_on_outage: "list_all is_paused (snd (on_outage utc cp))"
  by (auto simp: on_outage_def list_all_iff is_paused_def pair_pause_def Let_def)

lemma recovery_on_recovered: "list_all ps_recovery_requested (snd (on_recovered Down cp))"
  by (simp add: on_recovered_def list_all_iff request_recovery_def)

text \<open>The probe brought no block.\<close>

definition failing :: "probe \<Rightarrow> bool" where
  "failing p \<longleftrightarrow> (\<forall>b. pb_answer p \<noteq> Ok (Some b))"

lemma failing_judge: "failing p \<Longrightarrow> judge_probe p c = (False, c)"
  unfolding failing_def judge_probe_def by (cases "pb_answer p") (auto split: option.split)

lemma stalled_ge_since: "elapsed now since \<le> stalled_for now since c"
  by (simp add: stalled_for_def split: liveness_mode.split)

lemma iter_failing:
  assumes "failing p" and "mo_trouble_since m = Some t0"
  shows "mo_trouble_since (monitor_iter p m) = Some t0
    \<and> cc_tunables (mo_ctx (monitor_iter p m)) = cc_tunables (mo_ctx m)
    \<and> (chain_status_of (mo_ctx m) = Down \<longrightarrow> monitor_iter p m = m)
    \<and> (chain_status_of (mo_ctx m) \<noteq> Down \<longrightarrow> chain_status_of (mo_ctx (monitor_iter p m)) = Down \<longrightarrow>
         list_all is_paused (mo_pairs (monitor_iter p m)))
    \<and> (millis (stall_outage_ms (cc_tunables (mo_ctx m))) \<le> elapsed (pb_answered p) t0 \<longrightarrow>
         chain_status_of (mo_ctx (monitor_iter p m)) = Down)"
proof -
  have "\<not> monitor_skips p m" using assms(2) by (simp add: monitor_skips_def)
  then show ?thesis
    using assms stalled_ge_since [of "pb_answered p" t0 "mo_ctx m"] paused_on_outage
    by (auto simp: monitor_iter_def failing_judge Let_def on_outage_def split: prod.split)
qed

lemma failing_run:
  assumes "list_all failing ps" and "mo_trouble_since m = Some t0"
    and "chain_status_of (mo_ctx m) = Down \<longrightarrow> list_all is_paused (mo_pairs m)"
  shows "mo_trouble_since (fold monitor_iter ps m) = Some t0
    \<and> cc_tunables (mo_ctx (fold monitor_iter ps m)) = cc_tunables (mo_ctx m)
    \<and> (chain_status_of (mo_ctx (fold monitor_iter ps m)) = Down \<longrightarrow> list_all is_paused (mo_pairs (fold monitor_iter ps m)))"
  using assms
proof (induction ps arbitrary: m)
  case (Cons p ps)
  have f: "failing p" and fs: "list_all failing ps" using Cons.prems(1) by simp_all
  note i = iter_failing [OF f Cons.prems(2)]
  have "chain_status_of (mo_ctx (monitor_iter p m)) = Down \<longrightarrow> list_all is_paused (mo_pairs (monitor_iter p m))"
    using i Cons.prems(3) by (cases "chain_status_of (mo_ctx m) = Down") simp_all
  from Cons.IH [OF fs _ this] i show ?case by simp
qed simp

text \<open>C33. A dead chain is declared down and its signers stop: once the monitor has seen trouble, and
  every later probe brings no block, the first probe answered at least the outage limit after the trouble
  began finds the chain down with every one of its pairs paused, however many probes came before it.\<close>

theorem dead_chain_is_declared_down:
  assumes "mo_trouble_since m = Some t0" and "chain_status_of (mo_ctx m) \<noteq> Down"
    and "list_all failing (ps @ [p])"
    and "millis (stall_outage_ms (cc_tunables (mo_ctx m))) \<le> elapsed (pb_answered p) t0"
  shows "chain_status_of (mo_ctx (fold monitor_iter (ps @ [p]) m)) = Down
    \<and> list_all is_paused (mo_pairs (fold monitor_iter (ps @ [p]) m))"
proof -
  have fs: "list_all failing ps" and f: "failing p" using assms(3) by simp_all
  let ?m = "fold monitor_iter ps m"
  have r: "mo_trouble_since ?m = Some t0" "cc_tunables (mo_ctx ?m) = cc_tunables (mo_ctx m)"
    "chain_status_of (mo_ctx ?m) = Down \<longrightarrow> list_all is_paused (mo_pairs ?m)"
    using failing_run [OF fs assms(1)] assms(2) by simp_all
  show ?thesis
    using iter_failing [OF f r(1)] r(2,3) assms(4)
    by (cases "chain_status_of (mo_ctx ?m) = Down") simp_all
qed

text \<open>An outage begins and ends only on evidence. An iteration turns the chain down only when its
  probe brought no good news and the chain has been stalled for the outage limit, and then every pair is
  paused; it ends an outage only when the probe brought a block, the chain is then healthy and every pair
  has been told to reconcile before it takes new work; on a chain judged by RPC health, a block always
  makes it healthy.\<close>

theorem outage_needs_evidence:
  "(chain_status_of (mo_ctx m) \<noteq> Down \<and> chain_status_of (mo_ctx (monitor_iter p m)) = Down \<longrightarrow>
      list_all is_paused (mo_pairs (monitor_iter p m))
      \<and> (\<exists>c since. judge_probe p (mo_ctx m) = (False, c) \<and> mo_trouble_since (monitor_iter p m) = Some since
           \<and> millis (stall_outage_ms (cc_tunables (mo_ctx m))) \<le> stalled_for (pb_answered p) since c))
   \<and> (chain_status_of (mo_ctx m) = Down \<and> chain_status_of (mo_ctx (monitor_iter p m)) \<noteq> Down \<longrightarrow>
      (\<exists>b. pb_answer p = Ok (Some b)) \<and> chain_status_of (mo_ctx (monitor_iter p m)) = Healthy
      \<and> list_all ps_recovery_requested (mo_pairs (monitor_iter p m)))
   \<and> (liveness (cc_tunables (mo_ctx m)) = RpcResponsive \<and> pb_answer p = Ok (Some b) \<longrightarrow>
      chain_status_of (mo_ctx (monitor_iter p m)) = Healthy)"
proof -
  obtain g c where j: "judge_probe p (mo_ctx m) = (g, c)" by (cases "judge_probe p (mo_ctx m)")
  have k: "chain_status_of c = chain_status_of (mo_ctx m)" using judge_probe_keeps [OF j] by simp
  have rp: "g" if "liveness (cc_tunables (mo_ctx m)) = RpcResponsive" "pb_answer p = Ok (Some b)"
    using j that by (simp add: judge_probe_def Let_def)
  have good: "\<exists>b. pb_answer p = Ok (Some b)" if g using judge_probe_good [of p "mo_ctx m" c] j that by simp
  show ?thesis
    using paused_on_outage [of "pb_utc p" "(c, mo_pairs m)"] recovery_on_recovered [of "(c, mo_pairs m)"] rp good k
    by (cases "monitor_skips p m"; cases g)
      (auto simp: monitor_iter_def j Let_def on_recovered_def on_outage_def monitor_skips_def split: prod.splits if_splits)
qed

section \<open>A concrete chain\<close>

definition demo_chain_config :: chain_config where
  "demo_chain_config = \<lparr>cg_chain_id = 1, cg_kind = ''geth'', cg_rpc_url = Some ''http://node'', cg_rpc_url_env = None,
     cg_rpc_token_env = None, cg_fallback_rpc_urls = [], cg_treasury_private_key = Some ''key'',
     cg_treasury_key_id = None, cg_signer_min_balance = 1000, cg_topup_amount = 5000,
     cg_initial_topup_amount = None, cg_treasury_min_balance = 10000, cg_max_job_cost = None,
     cg_max_topups_per_signer_per_hour = 12, cg_tunables_raw = []\<rparr>"

definition demo_ctx :: chain_ctx where
  "demo_ctx = chain_ctx_new demo_chain_config geth (geth_defaults\<lparr>liveness := RpcResponsive\<rparr>) 8"

text \<open>Two pairs, one of them already paused by the operator; trouble since instant 0.\<close>

definition demo_mon :: mon where
  "demo_mon = \<lparr>mo_ctx = demo_ctx, mo_trouble_since = Some 0,
     mo_pairs = [(pair_new 0 False)\<lparr>ps_pause := None\<rparr>, pair_new 0 True]\<rparr>"

definition dead_probe :: "nat \<Rightarrow> probe" where
  "dead_probe t = \<lparr>pb_woken = ms t, pb_answered = ms t, pb_utc = 0, pb_breaker_open = False,
     pb_answer = Err (Transport ''connection refused'')\<rparr>"

lemmas demo_mon_defs = demo_mon_def demo_ctx_def chain_ctx_new_def chain_status_of_def dead_probe_def
  failing_def elapsed_def millis_def ms_def geth_defaults_def

theorem dead_chain_is_declared_down_witness:
  "chain_status_of (mo_ctx (fold monitor_iter ([dead_probe 1000, dead_probe 2000] @ [dead_probe 9000000]) demo_mon)) = Down
   \<and> list_all is_paused (mo_pairs (fold monitor_iter ([dead_probe 1000, dead_probe 2000] @ [dead_probe 9000000]) demo_mon))"
  by (rule dead_chain_is_declared_down [where ?t0.0 = 0]) (simp_all add: demo_mon_defs)

theorem outage_needs_evidence_witness:
  "chain_status_of (mo_ctx (monitor_iter
     ((dead_probe 5)\<lparr>pb_answer := Ok (Some \<lparr>bk_number = 9, bk_hash = 1, bk_parent_hash = 0, bk_timestamp = 0,
        bk_base_fee_per_gas = None, bk_transactions = []\<rparr>)\<rparr>)
     (demo_mon\<lparr>mo_ctx := snd (set_chain_status Down demo_ctx)\<rparr>))) = Healthy"
  using outage_needs_evidence [of "demo_mon\<lparr>mo_ctx := snd (set_chain_status Down demo_ctx)\<rparr>"
      "(dead_probe 5)\<lparr>pb_answer := Ok (Some \<lparr>bk_number = 9, bk_hash = 1, bk_parent_hash = 0, bk_timestamp = 0,
        bk_base_fee_per_gas = None, bk_transactions = []\<rparr>)\<rparr>" "\<lparr>bk_number = 9, bk_hash = 1, bk_parent_hash = 0, bk_timestamp = 0,
        bk_base_fee_per_gas = None, bk_transactions = []\<rparr>"]
  by (simp add: demo_ctx_def chain_ctx_new_def)

end
