(* ===== verification/Tx_Theorems.thy ===== *)
theory Tx_Theorems
  imports Tx_Driver Monitor
begin

text \<open>
  What the transaction driver guarantees, whatever the node, the signer, the treasury and the connection
  to the store answer: nothing is broadcast that is not recorded; a bind is applied at most once and its
  loop always returns; a nonce is given up only on an explicit answer of the node and never by recovery;
  and the escalation ladder is finite.
\<close>

section \<open>Binding under faults\<close>

lemma bind_attempt_exists:
  "bind_attempt now epoch a kind d = Ok d' \<Longrightarrow> attempt_exists h d' \<longleftrightarrow> attempt_exists h d \<or> h = at_tx_hash a"
  by (drule bind_attempts) (auto simp: attempt_exists_def new_attempt_rec_def)

lemma insert_attempt_twice: "attempt_exists (at_tx_hash a) d \<Longrightarrow> insert_attempt now a d = Err unique_violation"
  by (auto simp: insert_attempt_def attempt_exists_def)

lemma bind_attempt_twice: "attempt_exists (at_tx_hash a) d \<Longrightarrow> bind_attempt now epoch a kind d \<noteq> Ok d'"
  by (auto simp: attempt_exists_def claim_slot_fields(1) elim!: bind_attemptE dest!: insert_attempt_twice [rotated]
      simp: insert_attempt_def split: if_splits)

text \<open>The write of the loop, as the fault model sees it.\<close>

definition bind_write :: "timestamp \<Rightarrow> int \<Rightarrow> attempt \<Rightarrow> bind_kind \<Rightarrow> db \<Rightarrow> (db \<times> unit, store_error) result" where
  "bind_write now epoch a kind d = and_then (bind_attempt now epoch a kind d) (\<lambda>d. Ok (d, ()))"

lemma bind_write_Ok: "bind_write now epoch a kind d = Ok (d', u) \<longleftrightarrow> bind_attempt now epoch a kind d = Ok d'"
  by (simp add: bind_write_def and_then_eq_Ok)

lemma bind_rounds_Suc:
  "bind_rounds bf now epoch a kind (Suc n) r d =
     (case faulty (fst (bf r)) (bind_write now epoch a kind) d of
        (Ok _, d') \<Rightarrow> (Some (Ok ()), d')
      | (Err e, d') \<Rightarrow>
          if is_transient e then
            (if faulty_read (snd (bf r)) (attempt_exists (at_tx_hash a)) d' = Ok True then (Some (Ok ()), d')
             else if r = 5 then (Some (Err e), d')
             else bind_rounds bf now epoch a kind n (Suc r) d')
          else (Some (Err e), d'))"
  by (simp add: bind_write_def [abs_def])

declare bind_rounds.simps(2) [simp del]

lemma faulty_read_exists: "faulty_read f (attempt_exists h) d = Ok True \<Longrightarrow> attempt_exists h d"
  by (cases f) (simp_all add: faulty_read_def)

text \<open>Once the attempt is recorded, the rest of the loop leaves the database alone.\<close>

lemma bind_rounds_stays:
  assumes "attempt_exists (at_tx_hash a) d" and "bind_rounds bf now epoch a kind n r d = (res, d')"
  shows "d' = d"
  using assms(2)
proof (induction n arbitrary: r res d')
  case (Suc n)
  have "\<nexists>x. bind_write now epoch a kind d = Ok x"
    using bind_attempt_twice [OF assms(1)] by (auto simp: bind_write_def and_then_eq_Ok)
  then have "\<exists>e. faulty (fst (bf r)) (bind_write now epoch a kind) d = (Err e, d)"
    by (cases "bind_write now epoch a kind d") (auto simp: faulty_def split: fault.split)
  with Suc show ?case by (auto simp: bind_rounds_Suc split: if_splits)
qed simp

lemma bind_rounds_effect:
  assumes "bind_rounds bf now epoch a kind n r d = (res, d')"
  shows "d' = d \<and> (res = Some (Ok ()) \<longrightarrow> attempt_exists (at_tx_hash a) d) \<or> bind_attempt now epoch a kind d = Ok d'"
  using assms
proof (induction n arbitrary: r res d')
  case (Suc n)
  show ?case
  proof (cases rule: faulty_cases [of "fst (bf r)" "bind_write now epoch a kind" d])
    case (unchanged x)
    then obtain e where "faulty (fst (bf r)) (bind_write now epoch a kind) d = (Err e, d)" by (cases x) auto
    with Suc show ?thesis by (auto simp: bind_rounds_Suc split: if_splits dest: faulty_read_exists)
  next
    case (ran d1 u r1)
    have b: "bind_attempt now epoch a kind d = Ok d1" using ran(1) by (simp add: bind_write_Ok)
    then have ex: "attempt_exists (at_tx_hash a) d1" by (simp add: bind_attempt_exists)
    have "d' = d1"
      using Suc.prems ran(2) by (cases r1) (auto simp: bind_rounds_Suc split: if_splits dest: bind_rounds_stays [OF ex])
    with b show ?thesis by simp
  qed
qed simp

lemma bind_rounds_returns: "r + n = 6 \<Longrightarrow> 0 < n \<Longrightarrow> fst (bind_rounds bf now epoch a kind n r d) \<noteq> None"
proof (induction n arbitrary: r d)
  case (Suc n)
  obtain x d1 where f: "faulty (fst (bf r)) (bind_write now epoch a kind) d = (x, d1)"
    by (cases "faulty (fst (bf r)) (bind_write now epoch a kind) d")
  have "n = 0 \<longleftrightarrow> r = 5" using Suc.prems by linarith
  with Suc.IH [of "Suc r" d1] Suc.prems f show ?case
    by (cases x) (auto simp: bind_rounds_Suc)
qed simp

text \<open>C6. The bind loop always returns and binds at most once. Whatever is lost on the way to and from the
  store, the six rounds end with a result; the database afterwards is the one before or the one a single
  bind gives; and when the result is success, the attempt is recorded.\<close>

theorem bind_returns_and_binds_once:
  "\<exists>res d'. bind_rounds bf now epoch a kind 6 0 d = (Some res, d')
     \<and> (d' = d \<or> bind_attempt now epoch a kind d = Ok d')
     \<and> (case res of Ok _ \<Rightarrow> attempt_exists (at_tx_hash a) d' | Err e \<Rightarrow> True)"
proof -
  obtain res d' where b: "bind_rounds bf now epoch a kind 6 0 d = (res, d')"
    by (cases "bind_rounds bf now epoch a kind 6 0 d")
  with bind_rounds_returns [of 0 6 bf now epoch a kind d] obtain x where x: "res = Some x" by auto
  show ?thesis
    using b x bind_rounds_effect [OF b] by (auto simp: bind_attempt_exists split: sum.split)
qed

lemma claim_slot_takes:
  "claim_slot now a First d = Ok d1 \<Longrightarrow> \<exists>s. s \<in> set (db_slots d1) \<and> slot_key s = key_of a"
  by (auto simp: claim_slot_def Let_def slot_key_def key_of_def split: option.splits)

text \<open>When the connection is lost after the commit and again while asking whether the attempt exists, the
  next round meets the nonce slot the bind itself took: the loop reports a taken slot although the
  attempt is recorded.\<close>

lemma bind_error_may_hide_a_binding:
  assumes "bind_attempt now epoch a First d = Ok d'"
    and "bf 0 = (LostAfter SqlxIo, LostBefore SqlxIo)" and "bf 1 = (Works, Works)"
  shows "bind_rounds bf now epoch a First 6 0 d
     = (Some (Err (NonceSlotTaken (at_chain_id a) (at_signer a) (at_nonce a))), d')
    \<and> attempt_exists (at_tx_hash a) d'"
proof -
  have ex: "attempt_exists (at_tx_hash a) d'" using bind_attempt_exists [OF assms(1)] by simp
  have t: "is_transient (Db SqlxIo)" by (simp add: is_transient_def)
  obtain d1 d2 d3 where s: "claim_slot now a First d = Ok d1" "insert_attempt now a d1 = Ok d2"
    "move_owner now a First d2 = (d3, 1)" "d' = raise_hwm now a d3" "db_epoch d = epoch"
    using bind_attemptE [OF assms(1)] by metis
  have slots: "db_slots d' = db_slots d1"
    using s(2-4) by (simp add: move_owner_fields(2) [OF s(3)] insert_attemptE(1) [OF s(2)])
  have "find (\<lambda>s. slot_key s = key_of a) (db_slots d1) \<noteq> None"
    using claim_slot_takes [OF s(1)] by (auto simp: find_None_iff)
  then have "claim_slot now a First d' = Err (NonceSlotTaken (at_chain_id a) (at_signer a) (at_nonce a))"
    by (auto simp: claim_slot_def slots Let_def)
  moreover have "db_epoch d' = epoch"
    using s by (simp add: move_owner_fields(6) [OF s(3)] insert_attemptE(1) [OF s(2)] claim_slot_fields(7) [OF s(1)])
  ultimately have b: "bind_attempt now epoch a First d' = Err (NonceSlotTaken (at_chain_id a) (at_signer a) (at_nonce a))"
    by (simp add: bind_attempt_def)
  have "bind_rounds bf now epoch a First (Suc 5) 0 d = bind_rounds bf now epoch a First (Suc 4) 1 d'"
    unfolding bind_rounds_Suc [of bf now epoch a First 5]
    using assms t by (simp add: faulty_def faulty_read_def bind_write_def)
  also have "\<dots> = (Some (Err (NonceSlotTaken (at_chain_id a) (at_signer a) (at_nonce a))), d')"
    using assms b by (simp only: bind_rounds_Suc) (simp add: faulty_def bind_write_def is_transient_def)
  finally show ?thesis using ex by (simp add: numeral_eq_Suc)
qed

section \<open>Nothing unrecorded is broadcast\<close>

text \<open>Nothing is sent and no recorded attempt is lost.\<close>

definition keeps :: "runtime \<Rightarrow> runtime \<Rightarrow> bool" where
  "keeps w w' \<longleftrightarrow> en_sent w' = en_sent w \<and> (\<forall>h. attempt_exists h (en_db w) \<longrightarrow> attempt_exists h (en_db w'))"

definition recorded :: "runtime \<Rightarrow> attempt \<Rightarrow> bool" where
  "recorded w a \<longleftrightarrow> attempt_exists (at_tx_hash a) (en_db w)"

definition all_recorded :: "attempt list \<Rightarrow> runtime \<Rightarrow> bool" where
  "all_recorded as w \<longleftrightarrow> as \<noteq> [] \<and> list_all (recorded w) as"

abbreviation tracked :: "in_flight \<Rightarrow> runtime \<Rightarrow> bool" where
  "tracked f w \<equiv> all_recorded (fl_attempts f) w"

lemma keeps_refl [simp]: "keeps w w"
  by (simp add: keeps_def)

lemma keeps_trans: "keeps w w' \<Longrightarrow> keeps w' w'' \<Longrightarrow> keeps w w''"
  by (auto simp: keeps_def)

lemma keeps_same: "en_sent w' = en_sent w \<Longrightarrow> en_db w' = en_db w \<Longrightarrow> keeps w w'"
  by (simp add: keeps_def)

lemma keeps_tracked: "keeps w w' \<Longrightarrow> all_recorded as w \<Longrightarrow> all_recorded as w'"
  by (auto simp: keeps_def all_recorded_def recorded_def list_all_iff)

lemma keeps_right [simp]:
  "keeps w (on_pair f w') = keeps w w'" "keeps w (on_ledger g w') = keeps w w'" "keeps w (on_ctx h w') = keeps w w'"
  "keeps w (pause_now r s t w') = keeps w w'" "keeps w (resume_now r w') = keeps w w'"
  "keeps w (recover_now w') = keeps w w'" "keeps w (w'\<lparr>en_ctx := c\<rparr>) = keeps w w'"
  "keeps w (w'\<lparr>en_stop_sending := b\<rparr>) = keeps w w'" "keeps w (w'\<lparr>en_settler := q\<rparr>) = keeps w w'"
  "keeps w (w'\<lparr>en_confirmer := p\<rparr>) = keeps w w'"
  by (simp_all add: keeps_def)

lemma keeps_left [simp]:
  "keeps (w\<lparr>en_ctx := c\<rparr>) w' = keeps w w'" "keeps (on_ctx h w) w' = keeps w w'"
  by (simp_all add: keeps_def)

lemma tracked_cong [simp]:
  "all_recorded as (on_pair g w) = all_recorded as w" "all_recorded as (on_ledger l w) = all_recorded as w"
  "all_recorded as (on_ctx h w) = all_recorded as w" "all_recorded as (pause_now r s t w) = all_recorded as w"
  "all_recorded as (resume_now r w) = all_recorded as w" "all_recorded as (recover_now w) = all_recorded as w"
  "all_recorded as (w\<lparr>en_ctx := c\<rparr>) = all_recorded as w" "all_recorded as (w\<lparr>en_stop_sending := b\<rparr>) = all_recorded as w"
  by (simp_all add: all_recorded_def recorded_def [abs_def])

lemma bind_tx_effect:
  assumes "bind_tx an a kind w = (r, w')"
  shows "keeps w w'" and "r = Ok () \<Longrightarrow> recorded w' a"
proof -
  obtain x d where b: "bind_rounds (an_bind an) (en_utc w) (en_epoch w) a kind 6 0 (en_db w) = (Some x, d)"
    using bind_rounds_returns [of 0 6] by (metis (no_types, lifting) add_0 fst_conv not_None_eq prod.exhaust_sel zero_less_numeral)
  then have w': "w' = w\<lparr>en_db := d\<rparr>" "r = x" using assms by (simp_all add: bind_tx_def)
  show "keeps w w'" using bind_rounds_effect [OF b] by (auto simp: w' keeps_def bind_attempt_exists)
  show "recorded w' a" if "r = Ok ()" using bind_rounds_effect [OF b] that by (auto simp: w' recorded_def bind_attempt_exists)
qed

lemma tx_settle_keeps: "keeps w (tx_settle a inc wc re w)"
  by (rule keeps_same) (simp_all add: tx_settle_def Let_def split: option.split)

lemma on_receipt_keeps: "on_receipt an f rc w = (out, w') \<Longrightarrow> keeps w w'"
  by (auto simp: on_receipt_def Let_def tx_settle_keeps split: option.splits)

lemma poll_receipts_keeps: "poll_receipts an f look b hs w = (out, w') \<Longrightarrow> keeps w w'"
  by (induction an f look b hs w rule: poll_receipts.induct)
    (auto split: sum.splits option.splits prod.splits if_splits dest: on_receipt_keeps intro: keeps_trans)

lemma search_rounds_keeps: "search_rounds an f ks w = (out, w') \<Longrightarrow> keeps w w'"
  by (induction an f ks w rule: search_rounds.induct)
    (auto split: prod.splits option.splits dest: poll_receipts_keeps intro: keeps_trans)

lemma attempt_exists_hashes: "attempt_exists h d \<longleftrightarrow> h \<in> set (map ar_tx_hash (db_attempts d))"
  by (auto simp: attempt_exists_def)

lemma void_binding_exists:
  assumes "void_binding now clock ev epoch a mode disp d = Ok d'"
  shows "attempt_exists h d' = attempt_exists h d"
proof -
  have "db_attempts d' = void_attempts now a (db_attempts d)"
    using void_owner_fields(1) [OF void_bindingE(2) [OF assms]] by (simp add: release_nonce_def Let_def)
  moreover have "map ar_tx_hash (void_attempts now a t) = map ar_tx_hash t" for t
    by (simp add: void_attempts_def sql_update_def)
  ultimately show ?thesis by (simp only: attempt_exists_hashes)
qed

lemma void_tx_keeps: "void_tx an f a mode disp reason w = (nx, w') \<Longrightarrow> keeps w w'"
proof -
  assume v: "void_tx an f a mode disp reason w = (nx, w')"
  let ?c = "\<lambda>d. and_then (void_binding (en_utc w) (en_utc w) (an_void_id an) (en_epoch w) a mode disp d) (\<lambda>d. Ok (d, ()))"
  obtain x d where f: "faulty (an_void an) ?c (en_db w) = (x, d)" by (cases "faulty (an_void an) ?c (en_db w)")
  then have "en_sent w' = en_sent w \<and> en_db w' = d"
    using v by (auto simp: void_tx_def Let_def split: sum.splits store_error.splits if_splits)
  moreover have "attempt_exists h d" if "attempt_exists h (en_db w)" for h
  proof (cases rule: faulty_cases [of "an_void an" ?c "en_db w"])
    case (unchanged r)
    with f that show ?thesis by simp
  next
    case (ran d1 u r)
    then show ?thesis using f that by (auto simp: and_then_eq_Ok void_binding_exists)
  qed
  ultimately show ?thesis by (simp add: keeps_def)
qed

lemma on_nonce_too_low_keeps:
  assumes "on_nonce_too_low an f a fresh w = (nx, w')"
  shows "keeps w w'"
proof -
  obtain out w1 where s: "search_rounds an f [0, 1, 2, 3] w = (out, w1)" by (cases "search_rounds an f [0, 1, 2, 3] w")
  show ?thesis
    using assms search_rounds_keeps [OF s] unfolding on_nonce_too_low_def s
    by (auto split: option.splits if_splits prod.splits intro: keeps_trans [OF _ void_tx_keeps])
qed

lemma fund_and_retry_keeps: "fund_and_retry an f w = (nx, w') \<Longrightarrow> keeps w w'"
  by (auto simp: fund_and_retry_def Let_def split: if_splits sum.splits)

text \<open>A new attempt joins only once it is recorded.\<close>

lemma tracked_more:
  assumes "keeps w w'" and "tracked f w" and "recorded w' a"
  shows "all_recorded (fl_attempts f @ [a]) w'"
  using keeps_tracked [OF assms(1,2)] assms(3) by (simp add: all_recorded_def)


lemma bind_join:
  assumes "bind_tx an a kind w = (Ok u, w')" and "tracked f w"
  shows "all_recorded (fl_attempts f @ [a]) w'"
  using bind_tx_effect [OF assms(1)] assms(2) by (intro tracked_more) simp_all

lemma bind_tracked: "bind_tx an a kind (w\<lparr>en_ctx := c\<rparr>) = (r, w') \<Longrightarrow> all_recorded as w \<Longrightarrow> all_recorded as w'"
  using keeps_tracked [OF bind_tx_effect(1)] by fastforce

lemma replace_effect:
  assumes "replace_with_fresh_fees an f w = (nx, f', w')"
  shows "keeps w w'" and "tracked f w \<Longrightarrow> tracked f' w'"
proof -
  have "keeps w w' \<and> (tracked f w \<longrightarrow> tracked f' w')"
    using assms
    by (auto simp: replace_with_fresh_fees_def Let_def split: if_splits prod.splits sum.splits option.splits store_error.splits
        dest: bind_tx_effect(1) bind_join intro: bind_tracked)
  then show "keeps w w'" and "tracked f w \<Longrightarrow> tracked f' w'" by simp_all
qed


lemma cancel_effect:
  assumes "cancel_tx an f w = (nx, f', w')"
  shows "keeps w w'" and "tracked f w \<Longrightarrow> tracked f' w'"
proof -
  have "keeps w w' \<and> (tracked f w \<longrightarrow> tracked f' w')"
    using assms
    by (auto simp: cancel_tx_def Let_def split: if_splits prod.splits sum.splits option.splits gas_plan.splits store_error.splits
        dest: bind_tx_effect(1) bind_join intro: bind_tracked)
  then show "keeps w w'" and "tracked f w \<Longrightarrow> tracked f' w'" by simp_all
qed

lemma on_send_error_effect:
  assumes "on_send_error an f a err msg w = (nx, f', w')"
  shows "keeps w w'" and "tracked f w \<Longrightarrow> tracked f' w'"
proof -
  have "keeps w w' \<and> (tracked f w \<longrightarrow> tracked f' w')"
    using assms unfolding on_send_error_def Let_def
    by (auto split: send_error_class.splits prod.splits if_splits
        dest: on_nonce_too_low_keeps fund_and_retry_keeps void_tx_keeps replace_effect intro: keeps_tracked)
  then show "keeps w w'" and "tracked f w \<Longrightarrow> tracked f' w'" by simp_all
qed

lemma escalate_effect:
  assumes "escalate an f w = (nx, f', w')"
  shows "keeps w w'" and "tracked f w \<Longrightarrow> tracked f' w'"
proof -
  have "keeps w w' \<and> (tracked f w \<longrightarrow> tracked f' w')"
    using assms unfolding escalate_def Let_def
    by (auto split: stuck_step.splits prod.splits sum.splits if_splits
        dest: on_nonce_too_low_keeps fund_and_retry_keeps replace_effect cancel_effect intro: keeps_tracked)
  then show "keeps w w'" and "tracked f w \<Longrightarrow> tracked f' w'" by simp_all
qed

text \<open>The invariant of the loop: the flight's attempts and everything ever sent are recorded.\<close>

definition drive_inv :: "drive \<Rightarrow> runtime \<Rightarrow> bool" where
  "drive_inv s w \<longleftrightarrow> tracked (dr_flight s) w \<and> list_all (recorded w) (en_sent w)"

lemma keeps_sent: "keeps w w' \<Longrightarrow> list_all (recorded w) (en_sent w) \<Longrightarrow> list_all (recorded w') (en_sent w')"
  by (auto simp: keeps_def recorded_def list_all_iff)

lemma broadcast_inv:
  assumes "drive_inv s w" and "broadcast an (last (fl_attempts (dr_flight s))) b w = (r, w')"
  shows "tracked (dr_flight s) w' \<and> list_all (recorded w') (en_sent w')"
proof -
  have "recorded w' = recorded w" using assms(2) by (auto simp: broadcast_def recorded_def fun_eq_iff)
  moreover have "en_sent w' = en_sent w @ [last (fl_attempts (dr_flight s))]" using assms(2) by (auto simp: broadcast_def)
  ultimately show ?thesis using assms(1) by (auto simp: drive_inv_def all_recorded_def list_all_iff)
qed

lemma broadcast_step_inv:
  assumes "drive_inv s w" and "broadcast_step an show_rpc s w = (out, s', w')"
  shows "drive_inv s' w'"
proof -
  obtain r w1 where b: "broadcast an (last (fl_attempts (dr_flight s))) (dr_first_broadcast s) w = (r, w1)"
    by (cases "broadcast an (last (fl_attempts (dr_flight s))) (dr_first_broadcast s) w")
  note i = broadcast_inv [OF assms(1) b]
  have "keeps w1 w' \<and> (tracked (dr_flight s) w1 \<longrightarrow> tracked (dr_flight s') w')"
    using assms(2) unfolding broadcast_step_def b Let_def
    by (auto split: sum.splits option.splits prod.splits if_splits next_move.splits
        dest: on_receipt_keeps on_send_error_effect intro: keeps_tracked)
  with i keeps_sent show ?thesis by (auto simp: drive_inv_def)
qed

lemma poll_step_inv:
  assumes "drive_inv s w" and "poll_step an s w = (out, s', w')"
  shows "drive_inv s' w'"
proof -
  obtain r w1 where p: "poll_receipts an (dr_flight s) (an_receipts an 4) True (newest_first (dr_flight s)) w = (r, w1)"
    by (cases "poll_receipts an (dr_flight s) (an_receipts an 4) True (newest_first (dr_flight s)) w")
  have k: "keeps w w1" using poll_receipts_keeps [OF p] .
  have "keeps w1 w' \<and> (tracked (dr_flight s) w1 \<longrightarrow> tracked (dr_flight s') w')"
    using assms(2) unfolding poll_step_def Let_def p
    by (auto split: sum.splits option.splits prod.splits if_splits next_move.splits tx_outcome.splits
        dest: escalate_effect)
  with k keeps_tracked [OF k] assms(1) keeps_sent [OF keeps_trans [OF k]] show ?thesis by (auto simp: drive_inv_def)
qed

lemma begin_turn_inv [simp]: "drive_inv s (begin_turn t w) = drive_inv s w"
  by (simp add: drive_inv_def begin_turn_def all_recorded_def recorded_def [abs_def])

lemma resolve_step_inv:
  assumes "drive_inv s w" and "resolve_step an show_rpc s w = (out, s', w')"
  shows "drive_inv s' w'"
proof (cases "en_stop_sending w")
  case True
  with assms show ?thesis by (simp add: resolve_step_def)
next
  case False
  show ?thesis
  proof (cases "dr_broadcast_pending s")
    case True
    with False assms(2) have "broadcast_step an show_rpc s w = (out, s', w')" by (simp add: resolve_step_def)
    with assms(1) show ?thesis by (rule broadcast_step_inv)
  next
    case nb: False
    with False assms(2) have "poll_step an s w = (out, s', w')" by (simp add: resolve_step_def)
    with assms(1) show ?thesis by (rule poll_step_inv)
  qed
qed

lemma resolve_inv: "drive_inv s w \<Longrightarrow> resolve show_rpc ts s w = (out, s', w') \<Longrightarrow> drive_inv s' w'"
proof (induction show_rpc ts s w rule: resolve.induct)
  case (2 show_rpc t ts s w)
  obtain r s1 w1 where st: "resolve_step (tn_answers t) show_rpc s (begin_turn t w) = (r, s1, w1)"
    by (metis prod_cases3)
  have "drive_inv s1 w1" using resolve_step_inv [OF _ st] 2(2) by simp
  with 2 st show ?case by (cases r) auto
qed simp

lemma recorded_cong [simp]:
  "recorded (on_pair f w) = recorded w" "recorded (on_ledger g w) = recorded w"
  "recorded (w\<lparr>en_stop_sending := b\<rparr>) = recorded w"
  by (simp_all add: recorded_def [abs_def])

text \<open>What a start leaves: the send history is as it was, and a drive tracks only recorded attempts.\<close>

definition start_ok :: "started \<times> runtime \<Rightarrow> bool" where
  "start_ok sw \<longleftrightarrow> list_all (recorded (snd sw)) (en_sent (snd sw))
     \<and> (case fst sw of Driving s \<Rightarrow> tracked (dr_flight s) (snd sw) | Ended out \<Rightarrow> True)"

lemma execute_start_ok:
  assumes "list_all (recorded w) (en_sent w)"
  shows "start_ok (execute_start an i fees w)"
proof (cases "sign an w i (ps_next_nonce (pstate w)) fees (ti_purpose i) (ti_to i) (ti_data i) (ti_value i) (ti_gas_limit i)")
  case (Inl e)
  then show ?thesis using assms by (simp add: execute_start_def start_ok_def)
next
  case (Inr a)
  obtain r w1 where b: "bind_tx an a First w = (r, w1)" by (cases "bind_tx an a First w")
  have sent: "list_all (recorded w1) (en_sent w1)" using keeps_sent [OF bind_tx_effect(1) [OF b] assms] .
  show ?thesis
  proof (cases r)
    case (Inl e)
    then show ?thesis using Inr b sent by (cases e) (simp_all add: execute_start_def start_ok_def)
  next
    case ok: (Inr u)
    then have "recorded w1 a" using bind_tx_effect(2) [OF b] by simp
    with ok Inr b sent show ?thesis
      by (simp add: execute_start_def start_ok_def drive_start_def all_recorded_def Let_def)
  qed
qed

lemma resume_start_ok:
  "list_all (recorded w) (en_sent w) \<Longrightarrow> list_all (recorded w) atts \<Longrightarrow> start_ok (resume_start atts w)"
  by (cases atts) (simp_all add: resume_start_def start_ok_def drive_start_def all_recorded_def Let_def)

lemma drive_on_inv:
  assumes "start_ok sw" and "drive_on show_rpc ts sw = (out, w')"
  shows "list_all (recorded w') (en_sent w')"
proof (cases "fst sw")
  case (Ended x)
  with assms show ?thesis by (cases sw) (auto simp: drive_on_def start_ok_def)
next
  case (Driving s)
  obtain r s' w2 where res: "resolve show_rpc ts s (snd sw) = (r, s', w2)" by (metis prod_cases3)
  have "drive_inv s (snd sw)" using assms(1) Driving by (simp add: start_ok_def drive_inv_def)
  from resolve_inv [OF this res] assms(2) Driving res show ?thesis
    by (cases sw) (auto simp: drive_on_def drive_inv_def)
qed

text \<open>C2. Bind before broadcast. Whatever the node, the signer, the treasury and the connection to the
  store answer, and however long the nonce is driven, everything that is handed to the network while a new
  transaction is executed, or while recovery resumes recorded attempts, is an attempt that the store has
  on record: first sends, rebroadcasts, replacements and cancels alike.\<close>

theorem only_recorded_attempts_are_broadcast:
  assumes "list_all (recorded w) (en_sent w)"
  shows "list_all (recorded (snd (execute show_rpc t ts i fees w))) (en_sent (snd (execute show_rpc t ts i fees w)))
    \<and> (list_all (recorded w) atts \<longrightarrow>
        list_all (recorded (snd (resume show_rpc ts atts w))) (en_sent (snd (resume show_rpc ts atts w))))"
proof -
  have b: "list_all (recorded (begin_turn t w)) (en_sent (begin_turn t w))"
    using assms by (simp add: begin_turn_def recorded_def [abs_def])
  show ?thesis unfolding execute_def resume_def
    using drive_on_inv [OF execute_start_ok [OF b] prod.collapse [symmetric]]
      drive_on_inv [OF resume_start_ok [OF assms] prod.collapse [symmetric]] by blast
qed


text \<open>Recovery resumes the recorded replacement of the concrete history; the node accepts the bytes.\<close>

definition quiet_answers :: answers where
  "quiet_answers = \<lparr>an_sign = (\<lambda>_. Err (SignTimeout 0)), an_id = 1, an_bind = (\<lambda>_. (Works, Works)), an_void = Works,
     an_void_id = 2, an_send_sync = Err (Transport ''closed''), an_send = Ok 301, an_receipts = (\<lambda>_ _. Ok None),
     an_latest = (\<lambda>_. Ok None), an_count = Ok 4, an_balance = (\<lambda>_. Ok 0), an_estimate = Ok 0, an_topup = Ok (),
     an_credited = id, an_decode = (\<lambda>_. None), an_json = (\<lambda>_. JNull)\<rparr>"

definition demo_runtime :: runtime where
  "demo_runtime = \<lparr>en_db = demo_db3, en_epoch = 0, en_stats = [], en_ctx = demo_ctx,
     en_pair = \<lparr>pa_key = \<lparr>pk_chain_id = 1, pk_signer = 9\<rparr>, pa_role = RSigner, pa_ledger = ledger_default,
                pa_state = pair_new 0 False\<rparr>,
     en_settler = [], en_confirmer = [], en_stop_sending = False, en_now = 0, en_utc = 0, en_sent = []\<rparr>"

definition quiet_turn :: turn where
  "quiet_turn = \<lparr>tn_answers = quiet_answers, tn_now = 0, tn_utc = 0, tn_stop = False\<rparr>"

theorem only_recorded_attempts_are_broadcast_witness:
  "en_sent (snd (resume (\<lambda>_. []) [quiet_turn] [demo_second] demo_runtime)) = [demo_second]
   \<and> list_all (recorded (snd (resume (\<lambda>_. []) [quiet_turn] [demo_second] demo_runtime)))
       (en_sent (snd (resume (\<lambda>_. []) [quiet_turn] [demo_second] demo_runtime)))"
proof (rule conjI)
  show "en_sent (snd (resume (\<lambda>_. []) [quiet_turn] [demo_second] demo_runtime)) = [demo_second]"
    by (simp add: resume_def resume_start_def drive_on_def resolve_step_def broadcast_step_def broadcast_def drive_start_def
        begin_turn_def quiet_turn_def quiet_answers_def demo_runtime_def demo_ctx_def chain_ctx_new_def on_ledger_def Let_def)
  have r: "list_all (recorded demo_runtime) [demo_second]"
    by (simp add: recorded_def attempt_exists_def demo_runtime_def demo_defs new_attempt_rec_def)
  show "list_all (recorded (snd (resume (\<lambda>_. []) [quiet_turn] [demo_second] demo_runtime)))
       (en_sent (snd (resume (\<lambda>_. []) [quiet_turn] [demo_second] demo_runtime)))"
    using only_recorded_attempts_are_broadcast [of demo_runtime "\<lambda>_. []" quiet_turn "[quiet_turn]"
        "\<lparr>ti_owner = OJob 100, ti_purpose = PJob, ti_to = 0, ti_data = [], ti_value = 0, ti_gas_limit = 0\<rparr>"
        "\<lparr>max_fee_per_gas = 1, max_priority_fee_per_gas = 1\<rparr>" "[demo_second]"] r
    by (simp add: demo_runtime_def)
qed

section \<open>Giving a nonce up\<close>

text \<open>Receipts only ever end a drive as mined.\<close>

lemma on_receipt_mined: "on_receipt an f rc w = (Some out, w') \<Longrightarrow> \<exists>a inc. out = Mined a inc"
  by (auto simp: on_receipt_def Let_def split: option.splits)

lemma poll_receipts_mined: "poll_receipts an f look b hs w = (Some out, w') \<Longrightarrow> \<exists>a inc. out = Mined a inc"
  by (induction an f look b hs w rule: poll_receipts.induct)
    (auto split: sum.splits option.splits prod.splits if_splits dest: on_receipt_mined)

lemma search_rounds_mined: "search_rounds an f ks w = (Some out, w') \<Longrightarrow> \<exists>a inc. out = Mined a inc"
  by (induction an f ks w rule: search_rounds.induct)
    (auto split: prod.splits option.splits dest: poll_receipts_mined)

text \<open>The outcomes that give a nonce up.\<close>

definition gives_up :: "next_move \<Rightarrow> bool" where
  "gives_up nx \<longleftrightarrow> (\<exists>b r. nx = Finish (Voided b r))"

lemma gives_up_simps [simp]: "\<not> gives_up Poll" "\<not> gives_up SendAgain" "gives_up (Finish out) \<longleftrightarrow> (\<exists>b r. out = Voided b r)"
  by (simp_all add: gives_up_def)

lemma not_fresh_keeps_nonce: "on_nonce_too_low an f a False w = (nx, w') \<Longrightarrow> \<not> gives_up nx"
  unfolding on_nonce_too_low_def
  by (auto split: prod.splits option.splits dest!: search_rounds_mined simp del: search_rounds.simps)

lemma fund_keeps_nonce: "fund_and_retry an f w = (nx, w') \<Longrightarrow> \<not> gives_up nx"
  by (auto simp: fund_and_retry_def Let_def split: if_splits sum.splits)

text \<open>Replacing and cancelling keep the nonce, and never make an acknowledged flight fresh again.\<close>

lemma replace_keeps_nonce:
  assumes "replace_with_fresh_fees an f w = (nx, f', w')"
  shows "\<not> gives_up nx \<and> fl_never_accepted f' = fl_never_accepted f"
  using assms
  by (auto simp: replace_with_fresh_fees_def Let_def split: if_splits prod.splits sum.splits option.splits store_error.splits)

lemma cancel_keeps_nonce:
  assumes "cancel_tx an f w = (nx, f', w')"
  shows "\<not> gives_up nx \<and> fl_never_accepted f' = fl_never_accepted f"
  using assms
  by (auto simp: cancel_tx_def Let_def split: if_splits prod.splits sum.splits option.splits gas_plan.splits store_error.splits)

lemma send_error_keeps_nonce:
  assumes "on_send_error an f a err msg w = (nx, f', w')" and "\<not> fl_never_accepted f"
  shows "\<not> gives_up nx \<and> \<not> fl_never_accepted f'"
  using assms unfolding on_send_error_def Let_def
  by (auto split: send_error_class.splits prod.splits if_splits
      dest: not_fresh_keeps_nonce fund_keeps_nonce replace_keeps_nonce)

lemma escalate_keeps_nonce:
  assumes "escalate an f w = (nx, f', w')"
  shows "\<not> gives_up nx \<and> fl_never_accepted f' = fl_never_accepted f"
  using assms unfolding escalate_def Let_def
  by (auto split: stuck_step.splits prod.splits sum.splits if_splits
      dest: not_fresh_keeps_nonce fund_keeps_nonce replace_keeps_nonce cancel_keeps_nonce)

abbreviation acknowledged :: "drive \<Rightarrow> bool" where
  "acknowledged s \<equiv> \<not> fl_never_accepted (dr_flight s)"

lemma broadcast_step_keeps_nonce:
  assumes "broadcast_step an show_rpc s w = (out, s', w')" and "acknowledged s"
  shows "acknowledged s' \<and> (\<forall>b r. out \<noteq> Some (Voided b r))"
  using assms unfolding broadcast_step_def Let_def
  by (auto split: sum.splits option.splits prod.splits if_splits next_move.splits
      dest!: on_receipt_mined send_error_keeps_nonce)

lemma poll_step_keeps_nonce:
  assumes "poll_step an s w = (out, s', w')"
  shows "acknowledged s' = acknowledged s \<and> (\<forall>b r. out \<noteq> Some (Voided b r))"
  using assms unfolding poll_step_def Let_def
  by (auto split: sum.splits option.splits prod.splits if_splits next_move.splits tx_outcome.splits
      dest!: poll_receipts_mined escalate_keeps_nonce)

lemma resolve_keeps_nonce:
  "acknowledged s \<Longrightarrow> resolve show_rpc ts s w = (out, s', w') \<Longrightarrow> out \<noteq> Some (Voided b r)"
proof (induction show_rpc ts s w rule: resolve.induct)
  case (2 show_rpc t ts s w)
  obtain x s1 w1 where st: "resolve_step (tn_answers t) show_rpc s (begin_turn t w) = (x, s1, w1)"
    by (metis prod_cases3)
  have "acknowledged s1 \<and> (\<forall>b r. x \<noteq> Some (Voided b r))"
    using st 2(2) broadcast_step_keeps_nonce [of "tn_answers t" show_rpc s "begin_turn t w"]
      poll_step_keeps_nonce [of "tn_answers t" s "begin_turn t w"]
    unfolding resolve_step_def by (auto split: if_splits)
  with 2 st show ?case by (cases x) auto
qed simp

lemma resume_start_acknowledged: "resume_start atts w = (Driving s, w') \<Longrightarrow> acknowledged s"
  by (auto simp: resume_start_def drive_start_def Let_def split: list.splits)

lemma void_tx_voided: "void_tx an f a mode disp reason w = (Finish (Voided b r), w') \<Longrightarrow> b \<longleftrightarrow> disp = Requeue"
  by (auto simp: void_tx_def Let_def split: sum.splits prod.splits store_error.splits)

lemma too_low_voided:
  assumes "on_nonce_too_low an f a fresh w = (Finish (Voided b r), w')"
  shows "fresh \<and> b \<and> fst (search_rounds an f [0, 1, 2, 3] w) = None"
proof -
  obtain out w1 where s: "search_rounds an f [0, 1, 2, 3] w = (out, w1)" by (cases "search_rounds an f [0, 1, 2, 3] w")
  show ?thesis
    using assms search_rounds_mined [of an f "[0, 1, 2, 3]" w] unfolding on_nonce_too_low_def s
    by (cases out) (auto split: if_splits prod.splits dest: void_tx_voided)
qed

lemma send_error_voided:
  assumes "on_send_error an f a err msg w = (Finish (Voided b r), f', w')"
  shows "fl_never_accepted f
    \<and> (if b then ad_classify_send_error (adapter_of w) err = NonceTooLow \<and> fst (search_rounds an f [0, 1, 2, 3] w) = None
       else ad_classify_send_error (adapter_of w) err = Deterministic
            \<and> cap_trust_stateless_rejects (ad_capabilities (adapter_of w)))"
proof (cases "ad_classify_send_error (adapter_of w) err")
  case NonceTooLow
  with assms show ?thesis
    by (auto simp: on_send_error_def Let_def simp del: search_rounds.simps split: prod.splits dest!: too_low_voided)
next
  case Deterministic
  with assms show ?thesis
    by (auto simp: on_send_error_def Let_def split: prod.splits if_splits dest!: void_tx_voided)
next
  case FeeTooLow
  with assms replace_keeps_nonce [of an f w "Finish (Voided b r)"] show ?thesis by (simp add: on_send_error_def)
next
  case LacksFunds
  with assms fund_keeps_nonce [of an f w "Finish (Voided b r)"] show ?thesis
    by (auto simp: on_send_error_def split: prod.splits)
qed (use assms in \<open>simp_all add: on_send_error_def\<close>)

lemma resume_never_voids: "fst (resume show_rpc ts atts w) \<noteq> Some (Voided b r)"
proof (cases "resume_start atts w")
  case (Pair st w1)
  show ?thesis
  proof (cases st)
    case (Ended out)
    with Pair have "out = Unresolved" by (auto simp: resume_start_def Let_def split: list.splits)
    with Ended Pair show ?thesis by (simp add: resume_def drive_on_def)
  next
    case (Driving s)
    have "acknowledged s" using resume_start_acknowledged Pair Driving by blast
    moreover obtain out s' w' where "resolve show_rpc ts s w1 = (out, s', w')" by (metis prod_cases3)
    ultimately show ?thesis using resolve_keeps_nonce [of s show_rpc ts w1 out s' w' b r] Pair Driving
      by (simp add: resume_def drive_on_def)
  qed
qed

text \<open>C10. A nonce is given up only while its first broadcast is unacknowledged, and only on a verdict of the
  node: either an explicit stateless rejection on a chain kind that is trusted for it, which fails the job,
  or a consumed nonce for which none of four rounds of lookups finds a usable receipt of ours, which
  requeues it. Recovery, which resumes recorded attempts, never gives a nonce up.\<close>

theorem nonce_given_up_only_on_a_verdict:
  "(case on_send_error an f a err msg w of
      (Finish (Voided requeued reason), f', w') \<Rightarrow>
        fl_never_accepted f
        \<and> (if requeued
           then ad_classify_send_error (adapter_of w) err = NonceTooLow \<and> fst (search_rounds an f [0, 1, 2, 3] w) = None
           else ad_classify_send_error (adapter_of w) err = Deterministic
                \<and> cap_trust_stateless_rejects (ad_capabilities (adapter_of w)))
    | _ \<Rightarrow> True)
   \<and> fst (resume show_rpc ts atts w) \<noteq> Some (Voided b r)"
proof (rule conjI)
  obtain nx f' w' where e: "on_send_error an f a err msg w = (nx, f', w')" by (metis prod_cases3)
  show "case on_send_error an f a err msg w of
      (Finish (Voided requeued reason), f', w') \<Rightarrow>
        fl_never_accepted f
        \<and> (if requeued
           then ad_classify_send_error (adapter_of w) err = NonceTooLow \<and> fst (search_rounds an f [0, 1, 2, 3] w) = None
           else ad_classify_send_error (adapter_of w) err = Deterministic
                \<and> cap_trust_stateless_rejects (ad_capabilities (adapter_of w)))
    | _ \<Rightarrow> True"
  proof (cases "\<exists>b r. nx = Finish (Voided b r)")
    case True
    then obtain b r where "nx = Finish (Voided b r)" by blast
    with e send_error_voided [of an f a err msg w b r f' w'] show ?thesis by (cases b) simp_all
  next
    case False
    with e show ?thesis by (simp split: next_move.split tx_outcome.split)
  qed
  show "fst (resume show_rpc ts atts w) \<noteq> Some (Voided b r)" by (rule resume_never_voids)
qed

section \<open>The lost answer\<close>

text \<open>An indeterminate answer (a lost response, say) leaves the flight fresh, although its bytes may have
  reached the pool: if they were mined and the later lookups fail, the next broadcast, answered with a
  consumed nonce, still requeues the job.\<close>

lemma lost_answer_keeps_nonce_fresh:
  assumes "ad_classify_send_error (adapter_of w) err = Indeterminate" and "fl_never_accepted f"
    and "ad_classify_send_error (adapter_of w) err' = NonceTooLow"
    and "\<And>k h. an_receipts an' k h = Err (Transport ''timeout'')" and "an_void an' = Works"
    and "void_binding (en_utc w) (en_utc w) (an_void_id an') (en_epoch w) a NonceTakenByForeignTx Requeue (en_db w) = Ok d"
  shows "on_send_error an f a err msg w = (Poll, f, w)
    \<and> fst (on_send_error an' f a err' msg w) = Finish (Voided True ''nonce consumed by a foreign transaction'')"
proof -
  have p: "poll_receipts an' f (an_receipts an' k) False hs w = (None, w)" for k hs
    using assms(4) by (induction hs) simp_all
  show ?thesis
    using assms(1-3,5,6)
    by (simp add: on_send_error_def on_nonce_too_low_def p void_tx_def faulty_def Let_def)
qed

section \<open>The escalation ladder is finite\<close>

definition rank :: "runtime \<Rightarrow> in_flight \<Rightarrow> nat" where
  "rank w f = (length (ad_stuck_ladder (adapter_of w)) - fl_ladder_pos f)
     + (unat (max_bumps (tun_of w)) - unat (fl_bumps f))"

lemma replace_bumps:
  assumes "replace_with_fresh_fees an f w = (nx, f', w')"
  shows "fl_ladder_pos f' = fl_ladder_pos f
    \<and> (nx = SendAgain \<and> fl_bumps f' = fl_bumps f + 1 \<or> nx \<noteq> SendAgain \<and> f' = f)"
  using assms
  by (auto simp: replace_with_fresh_fees_def Let_def split: if_splits prod.splits sum.splits option.splits store_error.splits)

lemma cancel_rank:
  assumes "cancel_tx an f w = (nx, f', w')"
  shows "fl_ladder_pos f' = fl_ladder_pos f \<and> fl_bumps f' = fl_bumps f"
  using assms
  by (auto simp: cancel_tx_def Let_def split: if_splits prod.splits sum.splits option.splits gas_plan.splits store_error.splits)

lemma bump_once: "n < m \<Longrightarrow> unat m - unat (n + 1) < unat m - unat n" for n m :: u32
  using unat_lt_pow [of m] by (simp add: word_less_nat_alt unat_plus_exact)


lemma base_fee_tunables: "base_fee now force latest c = (r, asked, c') \<Longrightarrow> cc_tunables c' = cc_tunables c"
  by (auto simp: base_fee_def split: option.splits sum.splits)

lemma escalate_step:
  assumes e: "escalate an f w = (nx, f', w')" and pos: "fl_ladder_pos f < length (ad_stuck_ladder (adapter_of w))"
  shows "(\<exists>out. nx = Finish out) \<or> rank w f' < rank w f
    \<or> nx = Poll \<and> f' = f
      \<and> (ad_stuck_ladder (adapter_of w) ! fl_ladder_pos f = Diagnose \<and> (\<exists>e. an_count an = Err e)
         \<or> ad_stuck_ladder (adapter_of w) ! fl_ladder_pos f = Bump \<and> fl_bumps f < max_bumps (tun_of w))"
proof (cases "ad_stuck_ladder (adapter_of w) ! fl_ladder_pos f")
  case Rebroadcast
  with pos e show ?thesis by (auto simp: escalate_def Let_def rank_def)
next
  case Diagnose
  with pos e show ?thesis
    by (auto simp: escalate_def Let_def rank_def split: sum.splits if_splits prod.splits)
next
  case Bump
  obtain r x c where b: "base_fee (en_now w) True (an_latest an 1) (en_ctx w) = (r, x, c)" by (metis prod_cases3)
  have t: "cc_tunables c = tun_of w" using base_fee_tunables [OF b] .
  show ?thesis
  proof (cases "replace_with_fresh_fees an f (w\<lparr>en_ctx := c\<rparr>) = (nx, f', w') \<and> fl_bumps f < max_bumps (tun_of w)")
    case True
    with replace_bumps [of an f "w\<lparr>en_ctx := c\<rparr>" nx f' w'] bump_once [of "fl_bumps f" "max_bumps (tun_of w)"] Bump
    show ?thesis by (cases nx) (auto simp: rank_def)
  next
    case False
    with Bump pos e b t have "f' = f\<lparr>fl_ladder_pos := fl_ladder_pos f + 1\<rparr>"
      by (auto simp: escalate_def Let_def split: if_splits)
    with pos show ?thesis by (auto simp: rank_def)
  qed
next
  case NoopTx
  with pos e have "cancel_tx an (f\<lparr>fl_ladder_pos := fl_ladder_pos f + 1\<rparr>) w = (nx, f', w')"
    by (simp add: escalate_def Let_def)
  from cancel_rank [OF this] pos show ?thesis by (auto simp: rank_def)
qed

text \<open>Escalation ends. One step down the ladder ends the drive, or comes strictly closer to the end of the
  ladder and of the allowed fee bumps, or does nothing but wait; and it waits only when the chain nonce
  could not be read, or when the fee is the problem and no replacement could be made. At the end of the
  ladder the pair is paused for an operator.\<close>

theorem escalation_is_finite:
  "case escalate an f w of
     (Finish out, f', w') \<Rightarrow>
       fl_ladder_pos f < length (ad_stuck_ladder (adapter_of w)) \<or> out = Unresolved \<and> reason_of (pstate w') = Some StuckUnresolved
   | (nx, f', w') \<Rightarrow>
       rank w f' < rank w f
       \<or> nx = Poll \<and> f' = f \<and> fl_ladder_pos f < length (ad_stuck_ladder (adapter_of w))
         \<and> (ad_stuck_ladder (adapter_of w) ! fl_ladder_pos f = Diagnose \<and> (\<exists>e. an_count an = Err e)
            \<or> ad_stuck_ladder (adapter_of w) ! fl_ladder_pos f = Bump \<and> fl_bumps f < max_bumps (tun_of w))"
proof (cases "fl_ladder_pos f < length (ad_stuck_ladder (adapter_of w))")
  case False
  then show ?thesis
    by (simp add: escalate_def Let_def pause_now_def on_pair_def pair_pause_def reason_of_def)
next
  case True
  obtain nx f' w' where e: "escalate an f w = (nx, f', w')" by (metis prod_cases3)
  show ?thesis unfolding e using escalate_step [OF e True] True by (cases nx) auto
qed

text \<open>The fee cap holds up the ladder: when the fee is the problem, bumps are left and the cap allows no
  replacement, the step is taken again and again, and the cancel below it (with its own, higher cap) is
  not reached.\<close>

lemma fee_cap_holds_up_the_ladder:
  assumes "fl_ladder_pos f < length (ad_stuck_ladder (adapter_of w))"
    and "ad_stuck_ladder (adapter_of w) ! fl_ladder_pos f = Bump"
    and "fl_bumps f < max_bumps (tun_of w)" and "cap_replacement (ad_capabilities (adapter_of w))"
    and "an_latest an 1 = Ok (Some b)" and "base_fee_u128 b = Some base" and "an_latest an 2 = Ok (Some b)"
    and "at_max_fee_per_gas (last (fl_attempts f)) < sat_add base (at_max_priority_fee_per_gas (last (fl_attempts f)))"
    and "ad_replacement (adapter_of w) (quote_of (last (fl_attempts f))) base (max_fee_cap_wei (tun_of w)) (tun_of w) = None"
  shows "\<exists>w'. escalate an f w = (Poll, f, w')"
proof -
  have ad: "cc_adapter (observe_block n b c) = cc_adapter c" for n c
    by (simp add: observe_defs Let_def split: option.split)
  have "\<not> max (max_bumps (tun_of w)) 1 \<le> fl_bumps f" using assms(3) by (auto simp: max_def)
  then show ?thesis
    using assms by (simp add: escalate_def replace_with_fresh_fees_def base_fee_def ad Let_def)
qed

end
