(* ===== verification/Funds.thy ===== *)
theory Funds
  imports Runtime
begin

text \<open>
  What a pair may spend, \<^verbatim>\<open>crates/gum-engine/src/funds/treasury.rs\<close> (\<open>spendable_for\<close>, \<open>spendable\<close> and
  \<open>check_treasury_level\<close>). Asking matures the credits that are due, so the ledger is part of the result.
\<close>

section \<open>Spendable balance\<close>

definition spendable_for :: "instant \<Rightarrow> chain_adapter \<Rightarrow> u256 \<Rightarrow> ledger \<Rightarrow> u256 \<times> ledger" where
  "spendable_for now ad value l =
     (let l = mature now l;
          v = view l
      in (sat_sub (ad_spendable ad (lv_confirmed v) value) (lv_reserved v), l))"

definition spendable :: "instant \<Rightarrow> chain_adapter \<Rightarrow> pair_role \<Rightarrow> ledger \<Rightarrow> u256 \<times> ledger" where
  "spendable now ad role l =
     (let typical_value = (if role = RTreasury then 1 else 0) in spendable_for now ad typical_value l)"

text \<open>On the pair of a runtime.\<close>

definition spend_now :: "u256 \<Rightarrow> runtime \<Rightarrow> u256 \<times> runtime" where
  "spend_now value w =
     (case spendable_for (en_now w) (adapter_of w) value (pa_ledger (en_pair w)) of
        (x, l) \<Rightarrow> (x, on_ledger (\<lambda>_. l) w))"

definition treasury_can :: "runtime \<Rightarrow> u256 \<times> runtime" where
  "treasury_can w =
     (case spendable (en_now w) (adapter_of w) (pa_role (en_pair w)) (pa_ledger (en_pair w)) of
        (x, l) \<Rightarrow> (x, on_ledger (\<lambda>_. l) w))"

text \<open>The level check raises an alert below the configured floor.\<close>

definition check_treasury_level :: "runtime \<Rightarrow> bool \<times> runtime" where
  "check_treasury_level w =
     (if \<not> lv_initialised (view (pa_ledger (en_pair w))) then (False, w)
      else (case treasury_can w of (x, w) \<Rightarrow> (x < cg_treasury_min_balance (cc_cfg (en_ctx w)), w)))"

section \<open>Facts\<close>

text \<open>Asking again at the same time gives the same answer and changes nothing more.\<close>

lemma mature_again [simp]: "mature now (mature now l) = mature now l"
  by (simp add: mature_def Let_def sum_credits_def)

lemma spendable_for_again: "spendable_for now ad value l = (x, l') \<Longrightarrow> spendable_for now ad value l' = (x, l')"
  by (auto simp: spendable_for_def Let_def)

lemma spend_now_again:
  assumes "spend_now value w = (x, w')"
  shows "spend_now value w' = (x, w')"
proof -
  obtain l where l: "spendable_for (en_now w) (adapter_of w) value (pa_ledger (en_pair w)) = (x, l)" "w' = on_ledger (\<lambda>_. l) w"
    using assms by (auto simp: spend_now_def split: prod.splits)
  show ?thesis using spendable_for_again [OF l(1)] l(2) by (simp add: spend_now_def on_ledger_def)
qed

lemma spend_now_frame:
  "spend_now value w = (x, w') \<Longrightarrow> en_db w' = en_db w \<and> en_now w' = en_now w \<and> en_ctx w' = en_ctx w \<and> pstate w' = pstate w
     \<and> key_of_pair w' = key_of_pair w"
  by (auto simp: spend_now_def on_ledger_def split: prod.splits)

lemma treasury_can_frame:
  "treasury_can w = (x, w') \<Longrightarrow> en_db w' = en_db w \<and> en_ctx w' = en_ctx w \<and> pstate w' = pstate w
     \<and> key_of_pair w' = key_of_pair w \<and> en_utc w' = en_utc w"
  by (auto simp: treasury_can_def on_ledger_def split: prod.splits)

lemma check_treasury_level_frame [simp]:
  "en_db (snd (check_treasury_level w)) = en_db w" "en_ctx (snd (check_treasury_level w)) = en_ctx w"
  "pstate (snd (check_treasury_level w)) = pstate w" "key_of_pair (snd (check_treasury_level w)) = key_of_pair w"
  "en_utc (snd (check_treasury_level w)) = en_utc w"
  by (auto simp: check_treasury_level_def dest: treasury_can_frame split: prod.splits)

end
