(* ===== verification/Recovery.thy ===== *)
theory Recovery
  imports Confirm Funds Store_Books
begin

text \<open>
  Pair recovery, \<^verbatim>\<open>crates/gum-engine/src/pipeline/recovery.rs\<close>: the live attempts of the pair are walked
  lowest nonce first, each nonce verified, undone or driven to its end; then the next nonce is set above
  everything bound and everything the chain has seen, the ledger is initialised from the chain, and the
  pauses that recovery answers for are lifted. \<open>recover_pair\<close> says whether it came to its end or gave up
  (to be run again, or because the pair waits for an operator).
\<close>

section \<open>The routine\<close>

record recovery_env =
  rv_flushed :: "settle_op list \<Rightarrow> db \<Rightarrow> db"
  rv_loads :: "fault list"
  rv_receipt :: "b256 \<Rightarrow> receipt_answer"
  rv_json :: "receipt \<Rightarrow> json"
  rv_demote :: "b256 \<Rightarrow> fault"
  rv_turns :: "u64 \<Rightarrow> turn list"
  rv_ensure :: fault
  rv_count :: "(u64, rpc_error) result"
  rv_balance :: "(u256, rpc_error) result"
  rv_show_rpc :: "rpc_error \<Rightarrow> string"

text \<open>The store is asked until it answers; \<open>None\<close> when the engine shuts down first.\<close>

fun load_until :: "fault list \<Rightarrow> u64 \<Rightarrow> address \<Rightarrow> db \<Rightarrow> attempt list option" where
  "load_until [] ch sg d = None"
| "load_until (f # fs) ch sg d =
     (case faulty_read f (load_live_attempts_for ch sg) d of
        Ok (Ok live) \<Rightarrow> Some live
      | _ \<Rightarrow> load_until fs ch sg d)"

definition group_by_nonce :: "attempt list \<Rightarrow> (u64, attempt list) btree" where
  "group_by_nonce live = bt_group at_nonce [] (\<lambda>a as. as @ [a]) live []"

text \<open>An attempt recorded as included: \<open>Some True\<close> when it is still there, \<open>Some False\<close> when it was undone,
  \<open>None\<close> when recovery has to be run again.\<close>

definition verify_included :: "recovery_env \<Rightarrow> attempt \<Rightarrow> runtime \<Rightarrow> bool option \<times> runtime" where
  "verify_included env a w =
     (case rv_receipt env (at_tx_hash a) of
        Err e \<Rightarrow> (None, recover_now w)
      | Ok rc \<Rightarrow>
          (case Option.bind rc (inclusion_from (rv_json env) (adapter_of w) a) of
             Some inc \<Rightarrow>
               let w = on_ctx (\<lambda>c. snd (observe_head (en_now w) (inc_block_number inc) (Some (inc_block_hash inc)) c)) w
               in if confirm_check_of (en_ctx w) = Immediate
                  then (Some True, on_books (acc_confirmed (key_of_pair w) a inc)
                          (w\<lparr>en_settler := en_settler w @ [SConfirmation a]\<rparr>))
                  else (Some True, w\<lparr>en_confirmer := en_confirmer w @ [\<lparr>pc_attempt = a, pc_inclusion = inc,
                          pc_worst_case = 0, pc_due = en_now w, pc_misses = 0\<rparr>]\<rparr>)
           | None \<Rightarrow>
               (case faulty (rv_demote env (at_tx_hash a)) (\<lambda>d. Ok (demote_inclusion (en_utc w) a d)) (en_db w) of
                  (Err e, d) \<Rightarrow> (None, recover_now (w\<lparr>en_db := d\<rparr>))
                | (Ok _, d) \<Rightarrow> (Some False, on_books (acc_demoted (key_of_pair w) a) (w\<lparr>en_db := d\<rparr>)))))"

text \<open>Driving a nonce that is not mined: whether the walk goes on.\<close>

definition resume_nonce :: "recovery_env \<Rightarrow> u64 \<Rightarrow> attempt list \<Rightarrow> runtime \<Rightarrow> bool \<times> runtime" where
  "resume_nonce env nonce atts w =
     (let w = pause_now (case reason_of (pstate w) of Some r \<Rightarrow> r | None \<Rightarrow> NonceDrift) Rebroadcasting
                (''resolving nonce '' @ dec_str (unat nonce)) w;
          atts = map (\<lambda>a. a\<lparr>at_status := ABroadcast\<rparr>) (filter (\<lambda>a. at_raw_tx a \<noteq> []) atts)
      in case atts of
           [] \<Rightarrow> (True, w)
         | a # _ \<Rightarrow>
             (case resume (rv_show_rpc env) (rv_turns env nonce) atts
                     (on_pair (set_current (Some (owner_id (at_owner a)))) w) of
                (None, w) \<Rightarrow> (False, w)
              | (Some out, w) \<Rightarrow>
                  let w = on_pair (set_current None) w
                  in (case out of
                        Mined b inc \<Rightarrow> (True, on_books (acc_mined (confirm_check_of (en_ctx w)) (key_of_pair w) b inc) w)
                      | Voided _ _ \<Rightarrow> (True, w)
                      | NotBound _ \<Rightarrow> (True, w)
                      | Aborted \<Rightarrow> (False, w)
                      | Unresolved \<Rightarrow> (False, w)
                      | NeedsRecovery \<Rightarrow>
                          (False, pause_now Reorg NeedsOperator
                             (''chain nonce is below '' @ dec_str (unat nonce)
                                @ '' although every earlier transaction was settled'') w))))"

fun recover_nonces :: "recovery_env \<Rightarrow> (u64 \<times> attempt list) list \<Rightarrow> runtime \<Rightarrow> bool \<times> runtime" where
  "recover_nonces env [] w = (True, w)"
| "recover_nonces env ((nonce, atts) # rest) w =
     (if en_stop_sending w then (False, w)
      else (case (case find (\<lambda>a. at_status a = AIncluded) atts of
                    Some a \<Rightarrow> verify_included env a w | None \<Rightarrow> (Some False, w)) of
              (None, w) \<Rightarrow> (False, w)
            | (Some True, w) \<Rightarrow> recover_nonces env rest w
            | (Some False, w) \<Rightarrow>
                (case resume_nonce env nonce atts w of
                   (True, w) \<Rightarrow> recover_nonces env rest w
                 | (False, w) \<Rightarrow> (False, w))))"

text \<open>The last part: the nonce, the ledger, the pauses.\<close>

definition finish_recovery :: "recovery_env \<Rightarrow> bool \<Rightarrow> runtime \<Rightarrow> bool \<times> runtime" where
  "finish_recovery env had_live w =
     (case faulty (rv_ensure env)
             (\<lambda>d. Ok (ensure_pair (en_utc w) (pk_chain_id (key_of_pair w)) (pk_signer (key_of_pair w)) (pa_role (en_pair w)) d))
             (en_db w) of
        (Err e, d) \<Rightarrow> (False, recover_now (w\<lparr>en_db := d\<rparr>))
      | (Ok record, d) \<Rightarrow>
          let w = w\<lparr>en_db := d\<rparr>;
              hwm = prr_nonce_hwm record;
              booting = (reason_of (pstate w) = Some Booting)
          in (case (if hwm = None \<or> had_live \<or> \<not> booting then rv_count env else Ok 0) of
                Err e \<Rightarrow> (False, recover_now w)
              | Ok chain_nonce \<Rightarrow>
                  let w = on_pair (set_next_nonce (max chain_nonce (case hwm of Some h \<Rightarrow> h + 1 | None \<Rightarrow> 0))) w
                  in (case rv_balance env of
                        Err e \<Rightarrow> (False, recover_now w)
                      | Ok balance \<Rightarrow>
                          let w = on_ledger (initialise balance (chain_head (en_ctx w))) w;
                              w = (if pa_role (en_pair w) = RTreasury then snd (check_treasury_level w) else w);
                              w = resume_now Reorg (resume_now NonceDrift (resume_now Booting w))
                          in (True, if chain_status_of (en_ctx w) \<noteq> Down then resume_now ChainOutage w else w))))"

definition recover_pair :: "recovery_env \<Rightarrow> runtime \<Rightarrow> bool \<times> runtime" where
  "recover_pair env w =
     (let w = (if is_paused (pstate w) then w
               else pause_now NonceDrift ReconcilingNonce ''reconciling nonce and in-flight transactions with the chain'' w);
          w = w\<lparr>en_db := rv_flushed env (en_settler w) (en_db w), en_settler := []\<rparr>
      in case load_until (rv_loads env) (pk_chain_id (key_of_pair w)) (pk_signer (key_of_pair w)) (en_db w) of
           None \<Rightarrow> (False, w)
         | Some live \<Rightarrow>
             let by_nonce = group_by_nonce live
             in (case recover_nonces env by_nonce w of
                   (False, w) \<Rightarrow> (False, w)
                 | (True, w) \<Rightarrow> finish_recovery env (by_nonce \<noteq> []) w))"

section \<open>Order of the walk\<close>

text \<open>The nonces are visited in ascending order, each once, with the attempts of that nonce oldest first.\<close>

lemma group_by_nonce_ok: "bt_ok (group_by_nonce live)"
  by (simp add: group_by_nonce_def)

lemma fold_snoc: "fold (\<lambda>a as. as @ [a]) xs acc = acc @ xs"
  by (induction xs arbitrary: acc) simp_all

lemma group_by_nonce_get: "bt_get_or [] (group_by_nonce live) n = filter (\<lambda>a. at_nonce a = n) live"
  by (simp add: group_by_nonce_def bt_get_or_group fold_snoc) (simp add: bt_get_or_def)

lemma group_by_nonce_entry:
  assumes "(n, as) \<in> set (group_by_nonce live)"
  shows "as = filter (\<lambda>a. at_nonce a = n) live"
proof -
  have "map_of (group_by_nonce live) n = Some as"
    using assms bt_ok_distinct [OF group_by_nonce_ok] by simp
  then show ?thesis using group_by_nonce_get [of live n] by (simp add: bt_get_or_def)
qed

section \<open>The nonce after recovery\<close>

lemma ensure_pair_mark:
  assumes "ensure_pair now ch sg role d = (d', record)"
  shows "\<exists>p. p \<in> set (db_pairs d') \<and> pair_key_rec p = (i64_of_u64 ch, sg)
    \<and> prr_nonce_hwm record = map_option u64_of_i64 (pr_nonce_hwm p)"
proof (cases "find (\<lambda>p. pair_key_rec p = (i64_of_u64 ch, sg)) (db_pairs d)")
  case None
  with assms show ?thesis by (auto simp: ensure_pair_def Let_def new_pair_def pair_key_rec_def)
next
  case (Some p)
  then have p: "p \<in> set (db_pairs d)" "pair_key_rec p = (i64_of_u64 ch, sg)" using find_ex by fastforce+
  from assms Some have "p\<lparr>pr_role := role\<rparr> \<in> set (db_pairs d')"
    "prr_nonce_hwm record = map_option u64_of_i64 (pr_nonce_hwm p)"
    using p by (auto simp: ensure_pair_def Let_def set_sql_update intro!: image_eqI [where x = p])
  with p show ?thesis by (intro exI [of _ "p\<lparr>pr_role := role\<rparr>"]) (simp add: pair_key_rec_def)
qed


lemma on_more_simps [simp]:
  "key_of_pair (on_pair f w) = key_of_pair w" "key_of_pair (on_ledger g w) = key_of_pair w"
  "pstate (on_pair f w) = f (pstate w)" "pstate (on_ledger g w) = pstate w"
  by (simp_all add: on_pair_def on_ledger_def)

lemma resume_now_pair:
  "key_of_pair (resume_now r w) = key_of_pair w" "ps_next_nonce (pstate (resume_now r w)) = ps_next_nonce (pstate w)"
  "ps_nonce_ready (pstate (resume_now r w)) = ps_nonce_ready (pstate w)"
  by (simp_all add: resume_now_def resume_if_def Let_def)

text \<open>A pause that is lifted is gone, or an operator's pause that lay under it shows again; lifting another
  reason does not bring it back.\<close>

lemma resume_now_reason: "r \<noteq> Manual \<Longrightarrow> reason_of (pstate (resume_now r w)) \<noteq> Some r"
  by (auto simp: resume_now_def resume_if_def reason_of_def Let_def)

lemma resume_now_keeps:
  "reason_of (pstate w) \<noteq> Some r \<Longrightarrow> r \<noteq> Manual \<Longrightarrow> reason_of (pstate (resume_now r' w)) \<noteq> Some r"
  by (auto simp: resume_now_def resume_if_def reason_of_def Let_def)

lemma lift_pauses:
  assumes "r \<in> {Booting, NonceDrift, Reorg}"
  shows "reason_of (pstate (resume_now Reorg (resume_now NonceDrift (resume_now Booting w)))) \<noteq> Some r"
  using assms by (auto simp: resume_now_reason resume_now_keeps)

lemma above_mark:
  assumes "0 \<le> h" "h < 2 ^ 63 - 1" "max c (u64_of_i64 h + 1) = n" "n < 2 ^ 63"
  shows "h < i64_of_u64 n"
proof -
  have u: "uint (u64_of_i64 h + 1) = h + 1"
    using assms(1,2) by (simp add: u64_of_i64_def uint_word_ariths uint_word_of_int take_bit_eq_mod)
  have "u64_of_i64 h + 1 \<le> n" using assms(3) by auto
  then have "h + 1 \<le> uint n" using u by (simp add: word_le_def)
  moreover have "i64_of_u64 n = uint n" using assms(4) by (simp add: i64_of_small word_less_nat_alt)
  ultimately show ?thesis by simp
qed

lemma finish_recovery_mark:
  assumes "finish_recovery env live w = (True, w')"
  obtains rc c where "ensure_pair (en_utc w) (pk_chain_id (key_of_pair w')) (pk_signer (key_of_pair w'))
      (pa_role (en_pair w)) (en_db w) = (en_db w', rc)"
    "ps_next_nonce (pstate w') = max c (case prr_nonce_hwm rc of Some h \<Rightarrow> h + 1 | None \<Rightarrow> 0)"
    "ps_nonce_ready (pstate w')" "\<forall>r \<in> {Booting, NonceDrift, Reorg}. reason_of (pstate w') \<noteq> Some r"
proof -
  let ?e = "ensure_pair (en_utc w) (pk_chain_id (key_of_pair w)) (pk_signer (key_of_pair w)) (pa_role (en_pair w)) (en_db w)"
  obtain rc d where fa: "faulty (rv_ensure env) (\<lambda>d. Ok (ensure_pair (en_utc w) (pk_chain_id (key_of_pair w))
      (pk_signer (key_of_pair w)) (pa_role (en_pair w)) d)) (en_db w) = (Ok rc, d)"
    using assms by (auto simp: finish_recovery_def Let_def split: prod.splits sum.splits)
  then have e: "?e = (d, rc)" by (auto simp: faulty_def split: fault.splits prod.splits sum.splits)
  obtain c b w0 w1 where w0: "w0 = on_ledger (initialise b (chain_head (en_ctx w)))
      (on_pair (set_next_nonce (max c (case prr_nonce_hwm rc of Some h \<Rightarrow> h + 1 | None \<Rightarrow> 0))) (w\<lparr>en_db := d\<rparr>))"
    and w1: "w1 = (if pa_role (en_pair w0) = RTreasury then snd (check_treasury_level w0) else w0)"
    and w': "w' = (let w2 = resume_now Reorg (resume_now NonceDrift (resume_now Booting w1))
        in if chain_status_of (en_ctx w2) \<noteq> Down then resume_now ChainOutage w2 else w2)"
    using assms unfolding finish_recovery_def fa by (auto simp: Let_def split: sum.splits)
  let ?w2 = "resume_now Reorg (resume_now NonceDrift (resume_now Booting w1))"
  have "\<forall>r \<in> {Booting, NonceDrift, Reorg}. reason_of (pstate w') \<noteq> Some r"
    using lift_pauses [of _ w1] by (auto simp: w' Let_def resume_now_keeps)
  then show thesis using e by (intro that [of rc c]) (simp_all add: w' w1 w0 Let_def resume_now_pair set_next_nonce_def)
qed

text \<open>C14. A recovered pair starts at a nonce that is free. Whenever recovery runs to its end, the pair's
  next nonce is set, no transaction slot of the pair exists at it in the store, so the next job can bind
  it, and the pair no longer waits for booting, nonce reconciliation or a re-organisation. The store is
  any database the program can reach; nonces stay below the signed 64-bit bound of the column.\<close>

theorem recovered_nonce_is_free:
  assumes "recover_pair env w = (True, w')" "store_reach (en_db w')" "ps_next_nonce (pstate w') < 2 ^ 63"
    and "\<forall>p \<in> set (db_pairs (en_db w')). \<forall>h. pr_nonce_hwm p = Some h \<longrightarrow> 0 \<le> h \<and> h < 2 ^ 63 - 1"
  shows "(\<forall>s \<in> set (db_slots (en_db w')). slot_key s \<noteq>
             (i64_of_u64 (pk_chain_id (key_of_pair w')), pk_signer (key_of_pair w'), i64_of_u64 (ps_next_nonce (pstate w'))))
         \<and> ps_nonce_ready (pstate w')
         \<and> (\<forall>r \<in> {Booting, NonceDrift, Reorg}. reason_of (pstate w') \<noteq> Some r)"
proof -
  obtain live w1 where f: "finish_recovery env live w1 = (True, w')"
    using assms(1) by (auto simp: recover_pair_def Let_def split: option.splits prod.splits bool.splits if_splits)
  obtain rc c where e: "ensure_pair (en_utc w1) (pk_chain_id (key_of_pair w')) (pk_signer (key_of_pair w'))
      (pa_role (en_pair w1)) (en_db w1) = (en_db w', rc)"
    and n: "ps_next_nonce (pstate w') = max c (case prr_nonce_hwm rc of Some h \<Rightarrow> h + 1 | None \<Rightarrow> 0)"
    and ready: "ps_nonce_ready (pstate w')" "\<forall>r \<in> {Booting, NonceDrift, Reorg}. reason_of (pstate w') \<noteq> Some r"
    using finish_recovery_mark [OF f] by blast
  from ensure_pair_mark [OF e] obtain p where p: "p \<in> set (db_pairs (en_db w'))"
    "pair_key_rec p = (i64_of_u64 (pk_chain_id (key_of_pair w')), pk_signer (key_of_pair w'))"
    "prr_nonce_hwm rc = map_option u64_of_i64 (pr_nonce_hwm p)" by blast
  have "h < i64_of_u64 (ps_next_nonce (pstate w'))" if "pr_nonce_hwm p = Some h" for h
    using above_mark [of h c "ps_next_nonce (pstate w')"] assms(3,4) n p that by simp
  then show ?thesis using slot_free_above_mark [OF assms(2) p(1,2)] ready by blast
qed

text \<open>A fresh pair whose signer the chain has seen seven transactions of.\<close>

definition calm_recovery :: recovery_env where
  "calm_recovery = \<lparr>rv_flushed = (\<lambda>_ d. d), rv_loads = [LostBefore SqlxIo, Works], rv_receipt = (\<lambda>_. Ok None),
     rv_json = (\<lambda>_. JNull), rv_demote = (\<lambda>_. Works), rv_turns = (\<lambda>_. []), rv_ensure = Works, rv_count = Ok 7,
     rv_balance = Ok 5, rv_show_rpc = (\<lambda>_. [])\<rparr>"

definition calm_end :: "bool \<times> runtime" where
  "calm_end = recover_pair calm_recovery (demo_runtime\<lparr>en_db := empty_db\<rparr>)"

lemma calm_load: "load_until [LostBefore SqlxIo, Works] ch sg empty_db = Some []"
  by (simp add: faulty_read_def load_live_attempts_for_def empty_db_def)

lemma calm_fields [simp]:
  "rv_flushed calm_recovery ops d = d" "rv_loads calm_recovery = [LostBefore SqlxIo, Works]" "rv_ensure calm_recovery = Works"
  "rv_count calm_recovery = Ok 7" "rv_balance calm_recovery = Ok 5"
  by (simp_all add: calm_recovery_def)

lemma demo_fields [simp]:
  "key_of_pair demo_runtime = \<lparr>pk_chain_id = 1, pk_signer = 9\<rparr>" "pa_role (en_pair demo_runtime) = RSigner"
  "is_paused (pstate demo_runtime)" "en_settler demo_runtime = []" "en_utc demo_runtime = 0" "reason_of (pstate demo_runtime) = Some Booting"
  by (simp_all add: demo_runtime_def pair_new_def is_paused_def reason_of_def)

lemma calm_ensure: "ensure_pair 0 1 9 RSigner empty_db = (empty_db\<lparr>db_pairs := [new_pair 0 1 9 RSigner]\<rparr>,
    \<lparr>prr_chain_id = 1, prr_signer = 9, prr_nonce_hwm = None, prr_manual_pause = False\<rparr>)"
  by (simp add: ensure_pair_def empty_db_def)

lemma calm_end_finish: "calm_end = finish_recovery calm_recovery False (demo_runtime\<lparr>en_db := empty_db, en_settler := []\<rparr>)"
  by (simp add: calm_end_def recover_pair_def calm_load group_by_nonce_def bt_group_def Let_def del: load_until.simps)

lemma calm_end_run:
  "fst calm_end" "ps_next_nonce (pstate (snd calm_end)) = 7" "en_db (snd calm_end) = empty_db\<lparr>db_pairs := [new_pair 0 1 9 RSigner]\<rparr>"
  by (simp_all add: calm_end_finish finish_recovery_def faulty_def calm_ensure resume_now_pair set_next_nonce_def Let_def)

theorem recovered_nonce_is_free_witness:
  "ps_next_nonce (pstate (snd calm_end)) = 7 \<and> ps_nonce_ready (pstate (snd calm_end))
   \<and> reason_of (pstate (snd calm_end)) \<noteq> Some Booting"
proof -
  have "store_reach (en_db (snd calm_end))"
    using store_reach.step [OF store_reach.init pair [OF calm_ensure]] by (simp add: calm_end_run)
  moreover have "recover_pair calm_recovery (demo_runtime\<lparr>en_db := empty_db\<rparr>) = (True, snd calm_end)"
    using calm_end_run(1) by (metis calm_end_def prod.collapse)
  ultimately show ?thesis
    using recovered_nonce_is_free [of calm_recovery "demo_runtime\<lparr>en_db := empty_db\<rparr>" "snd calm_end"]
    by (simp add: calm_end_run new_pair_def)
qed

end
