(* ===== verification/Tx_Frame.thy ===== *)
theory Tx_Frame
  imports Tx_Theorems
begin

text \<open>
  What a drive can do to the database. The transaction driver writes through two statements only, the bind
  and the void, each under any fault. The locale states this once: a relation between databases that is
  reflexive, transitive and respected by the two statements holds between the database before a transaction
  is executed or resumed and the database after it, however long it is driven and whatever the world answers.
\<close>

locale tx_frame =
  fixes R :: "db \<Rightarrow> db \<Rightarrow> bool"
  assumes frame_refl: "R d d"
    and frame_trans: "R d d1 \<Longrightarrow> R d1 d2 \<Longrightarrow> R d d2"
    and frame_bind: "bind_attempt now epoch a kind d = Ok d' \<Longrightarrow> R d d'"
    and frame_void: "void_binding now clock ev epoch a mode disp d = Ok d' \<Longrightarrow> R d d'"
begin

lemma faulty_frame:
  assumes "faulty f call d = (r, d')" and "\<And>d1 x. call d = Ok (d1, x) \<Longrightarrow> R d d1"
  shows "R d d'"
  by (cases rule: faulty_cases [of f call d]) (use assms frame_refl in auto)

lemma bind_tx_frame: "bind_tx an a kind w = (r, w') \<Longrightarrow> R (en_db w) (en_db w')"
proof -
  assume b: "bind_tx an a kind w = (r, w')"
  obtain x d where "bind_rounds (an_bind an) (en_utc w) (en_epoch w) a kind 6 0 (en_db w) = (x, d)"
    by (cases "bind_rounds (an_bind an) (en_utc w) (en_epoch w) a kind 6 0 (en_db w)")
  then show ?thesis using b bind_rounds_effect [of "an_bind an" "en_utc w" "en_epoch w" a kind 6 0 "en_db w" x d]
    by (auto simp: bind_tx_def frame_refl intro: frame_bind split: option.splits)
qed

lemma tx_settle_frame [simp]: "en_db (tx_settle a inc wc re w) = en_db w"
  by (simp add: tx_settle_def Let_def split: option.split)

lemma on_receipt_frame: "on_receipt an f rc w = (out, w') \<Longrightarrow> R (en_db w) (en_db w')"
  by (auto simp: on_receipt_def Let_def frame_refl split: option.splits)

lemma poll_receipts_frame: "poll_receipts an f look b hs w = (out, w') \<Longrightarrow> R (en_db w) (en_db w')"
  by (induction an f look b hs w rule: poll_receipts.induct)
    (auto simp: frame_refl split: sum.splits option.splits prod.splits if_splits dest: on_receipt_frame intro: frame_trans)

lemma search_rounds_frame: "search_rounds an f ks w = (out, w') \<Longrightarrow> R (en_db w) (en_db w')"
  by (induction an f ks w rule: search_rounds.induct)
    (auto simp: frame_refl split: prod.splits option.splits dest: poll_receipts_frame intro: frame_trans)

lemma void_tx_frame: "void_tx an f a mode disp reason w = (nx, w') \<Longrightarrow> R (en_db w) (en_db w')"
proof -
  assume v: "void_tx an f a mode disp reason w = (nx, w')"
  let ?c = "\<lambda>d. and_then (void_binding (en_utc w) (en_utc w) (an_void_id an) (en_epoch w) a mode disp d) (\<lambda>d. Ok (d, ()))"
  obtain x d where f: "faulty (an_void an) ?c (en_db w) = (x, d)" by (cases "faulty (an_void an) ?c (en_db w)")
  then have "en_db w' = d"
    using v by (auto simp: void_tx_def Let_def split: sum.splits store_error.splits if_splits)
  then show ?thesis using faulty_frame [OF f] by (auto simp: and_then_eq_Ok intro: frame_void)
qed

lemma on_nonce_too_low_frame:
  assumes "on_nonce_too_low an f a fresh w = (nx, w')"
  shows "R (en_db w) (en_db w')"
proof -
  obtain out w1 where s: "search_rounds an f [0, 1, 2, 3] w = (out, w1)" by (cases "search_rounds an f [0, 1, 2, 3] w")
  show ?thesis
    using assms search_rounds_frame [OF s] unfolding on_nonce_too_low_def s
    by (auto simp: frame_refl split: option.splits if_splits prod.splits intro: frame_trans [OF _ void_tx_frame])
qed

lemma fund_and_retry_frame: "fund_and_retry an f w = (nx, w') \<Longrightarrow> R (en_db w) (en_db w')"
  by (auto simp: fund_and_retry_def Let_def frame_refl split: if_splits sum.splits)

lemma replace_frame: "replace_with_fresh_fees an f w = (nx, f', w') \<Longrightarrow> R (en_db w) (en_db w')"
  by (auto simp: replace_with_fresh_fees_def Let_def frame_refl split: if_splits prod.splits sum.splits option.splits store_error.splits
      dest!: bind_tx_frame)

lemma cancel_frame: "cancel_tx an f w = (nx, f', w') \<Longrightarrow> R (en_db w) (en_db w')"
  by (auto simp: cancel_tx_def Let_def frame_refl split: if_splits prod.splits sum.splits option.splits gas_plan.splits store_error.splits
      dest!: bind_tx_frame)

lemma on_send_error_frame: "on_send_error an f a err msg w = (nx, f', w') \<Longrightarrow> R (en_db w) (en_db w')"
  unfolding on_send_error_def Let_def
  by (auto simp: frame_refl split: send_error_class.splits prod.splits if_splits
      dest: on_nonce_too_low_frame fund_and_retry_frame void_tx_frame replace_frame)

lemma escalate_frame: "escalate an f w = (nx, f', w') \<Longrightarrow> R (en_db w) (en_db w')"
  unfolding escalate_def Let_def
  by (auto simp: frame_refl split: stuck_step.splits prod.splits sum.splits if_splits
      dest: on_nonce_too_low_frame fund_and_retry_frame replace_frame cancel_frame)

lemma broadcast_step_frame: "broadcast_step an show_rpc s w = (out, s', w') \<Longrightarrow> R (en_db w) (en_db w')"
proof -
  assume a: "broadcast_step an show_rpc s w = (out, s', w')"
  obtain r w1 where b: "broadcast an (last (fl_attempts (dr_flight s))) (dr_first_broadcast s) w = (r, w1)"
    by (cases "broadcast an (last (fl_attempts (dr_flight s))) (dr_first_broadcast s) w")
  then have d: "en_db w1 = en_db w" by (auto simp: broadcast_def)
  have "R (en_db w1) (en_db w')"
    using a unfolding broadcast_step_def b Let_def
    by (auto simp: frame_refl split: sum.splits option.splits prod.splits if_splits next_move.splits
        dest: on_receipt_frame on_send_error_frame)
  with d show ?thesis by simp
qed

lemma poll_step_frame: "poll_step an s w = (out, s', w') \<Longrightarrow> R (en_db w) (en_db w')"
proof -
  assume a: "poll_step an s w = (out, s', w')"
  obtain r w1 where p: "poll_receipts an (dr_flight s) (an_receipts an 4) True (newest_first (dr_flight s)) w = (r, w1)"
    by (cases "poll_receipts an (dr_flight s) (an_receipts an 4) True (newest_first (dr_flight s)) w")
  have "R (en_db w1) (en_db w')"
    using a unfolding poll_step_def Let_def p
    by (auto simp: frame_refl split: sum.splits option.splits prod.splits if_splits next_move.splits tx_outcome.splits
        dest: escalate_frame)
  with poll_receipts_frame [OF p] show ?thesis by (rule frame_trans)
qed

lemma resolve_step_frame: "resolve_step an show_rpc s w = (out, s', w') \<Longrightarrow> R (en_db w) (en_db w')"
  by (auto simp: resolve_step_def frame_refl split: if_splits dest: broadcast_step_frame poll_step_frame)

lemma resolve_frame: "resolve show_rpc ts s w = (out, s', w') \<Longrightarrow> R (en_db w) (en_db w')"
proof (induction show_rpc ts s w rule: resolve.induct)
  case (2 show_rpc t ts s w)
  obtain r s1 w1 where st: "resolve_step (tn_answers t) show_rpc s (begin_turn t w) = (r, s1, w1)"
    by (metis prod_cases3)
  have "R (en_db w) (en_db w1)" using resolve_step_frame [OF st] by (simp add: begin_turn_def)
  with 2 st show ?case by (cases r) (auto intro: frame_trans)
qed (simp add: frame_refl)

lemma drive_on_frame: "drive_on show_rpc ts sw = (out, w') \<Longrightarrow> R (en_db (snd sw)) (en_db w')"
  by (auto simp: drive_on_def frame_refl split: prod.splits started.splits dest: resolve_frame)

lemma execute_start_frame: "R (en_db w) (en_db (snd (execute_start an i fees w)))"
proof (cases "sign an w i (ps_next_nonce (pstate w)) fees (ti_purpose i) (ti_to i) (ti_data i) (ti_value i) (ti_gas_limit i)")
  case (Inl e)
  then show ?thesis by (simp add: execute_start_def frame_refl)
next
  case (Inr a)
  obtain r w1 where b: "bind_tx an a First w = (r, w1)" by (cases "bind_tx an a First w")
  then have "en_db (snd (execute_start an i fees w)) = en_db w1"
    using Inr by (simp add: execute_start_def Let_def split: sum.split store_error.split)
  then show ?thesis using bind_tx_frame [OF b] by simp
qed

lemma execute_frame: "execute show_rpc t ts i fees w = (out, w') \<Longrightarrow> R (en_db w) (en_db w')"
  unfolding execute_def
  using execute_start_frame [of "begin_turn t w" "tn_answers t" i fees]
  by (auto simp: begin_turn_def dest!: drive_on_frame intro: frame_trans)

lemma resume_frame: "resume show_rpc ts atts w = (out, w') \<Longrightarrow> R (en_db w) (en_db w')"
proof -
  assume "resume show_rpc ts atts w = (out, w')"
  from drive_on_frame [OF this [unfolded resume_def]]
  show ?thesis by (simp add: resume_start_def Let_def split: list.splits)
qed

end

section \<open>A drive ends bound\<close>

text \<open>Once a nonce is bound, no outcome says that it is not: only a start reports \<open>NotBound\<close>.\<close>

definition unbound_move :: "next_move \<Rightarrow> bool" where
  "unbound_move nx \<longleftrightarrow> (\<exists>nb. nx = Finish (NotBound nb))"

lemma unbound_simps [simp]: "\<not> unbound_move Poll" "\<not> unbound_move SendAgain" "unbound_move (Finish out) \<longleftrightarrow> (\<exists>nb. out = NotBound nb)"
  by (simp_all add: unbound_move_def)

lemma void_tx_bound: "void_tx an f a mode disp reason w = (nx, w') \<Longrightarrow> \<not> unbound_move nx"
  by (auto simp: void_tx_def Let_def split: prod.splits sum.splits store_error.splits if_splits)

lemma too_low_bound: "on_nonce_too_low an f a fresh w = (nx, w') \<Longrightarrow> \<not> unbound_move nx"
  unfolding on_nonce_too_low_def
  by (auto split: prod.splits option.splits if_splits dest!: search_rounds_mined dest: void_tx_bound simp del: search_rounds.simps)

lemma fund_bound: "fund_and_retry an f w = (nx, w') \<Longrightarrow> \<not> unbound_move nx"
  by (auto simp: fund_and_retry_def Let_def split: if_splits sum.splits)

lemma replace_bound: "replace_with_fresh_fees an f w = (nx, f', w') \<Longrightarrow> \<not> unbound_move nx"
  by (auto simp: replace_with_fresh_fees_def Let_def split: if_splits prod.splits sum.splits option.splits store_error.splits)

lemma cancel_bound: "cancel_tx an f w = (nx, f', w') \<Longrightarrow> \<not> unbound_move nx"
  by (auto simp: cancel_tx_def Let_def split: if_splits prod.splits sum.splits option.splits gas_plan.splits store_error.splits)

lemma send_error_bound: "on_send_error an f a err msg w = (nx, f', w') \<Longrightarrow> \<not> unbound_move nx"
  unfolding on_send_error_def Let_def
  by (auto split: send_error_class.splits prod.splits if_splits dest: too_low_bound fund_bound replace_bound void_tx_bound)

lemma escalate_bound: "escalate an f w = (nx, f', w') \<Longrightarrow> \<not> unbound_move nx"
  unfolding escalate_def Let_def
  by (auto split: stuck_step.splits prod.splits sum.splits if_splits dest: too_low_bound fund_bound replace_bound cancel_bound)

lemma resolve_step_bound: "resolve_step an show_rpc s w = (out, s', w') \<Longrightarrow> out \<noteq> Some (NotBound nb)"
  unfolding resolve_step_def broadcast_step_def poll_step_def Let_def
  by (auto split: sum.splits option.splits prod.splits if_splits next_move.splits tx_outcome.splits
      dest!: on_receipt_mined poll_receipts_mined send_error_bound escalate_bound)

lemma resolve_bound: "resolve show_rpc ts s w = (out, s', w') \<Longrightarrow> out \<noteq> Some (NotBound nb)"
proof (induction show_rpc ts s w rule: resolve.induct)
  case (2 show_rpc t ts s w)
  obtain x s1 w1 where st: "resolve_step (tn_answers t) show_rpc s (begin_turn t w) = (x, s1, w1)"
    by (metis prod_cases3)
  with 2 resolve_step_bound [OF st] show ?case by (cases x) auto
qed simp

lemma execute_not_bound:
  assumes "execute show_rpc t ts i fees w = (Some (NotBound nb), w')"
  shows "execute_start (tn_answers t) i fees (begin_turn t w) = (Ended (NotBound nb), w')"
  using assms unfolding execute_def drive_on_def
  by (auto split: prod.splits started.splits dest: resolve_bound)

end
