(* ===== verification/Treasury.thy ===== *)
theory Treasury
  imports Recovery Tx_Frame
begin

text \<open>
  Funding, \<^verbatim>\<open>crates/gum-engine/src/funds/treasury.rs\<close>: a signer's request for a top-up and the treasury's task, which serves one request at a time. The treasury is a pair of its own:
  in \<open>fund\<close> the runtime is the treasury's, and the pair that is funded is reached through its ledger.
  For \<open>request_topup\<close> the service is an argument: what the runtime of the signer looks like when the
  treasury has answered.

  Shown are that a request that succeeds leaves the signer able to pay, and that the treasury never has
  more top-ups of a signer on record within an hour than the configured limit.
\<close>

section \<open>Asking for a top-up\<close>

record topup_request =
  tq_signer :: address
  tq_needed :: u256
  tq_value :: u256

text \<open>What comes of sending the request: no treasury is registered, its task has ended, it answered, it
  dropped the request, or it did not answer in time.\<close>

datatype topup_wait = NoTreasury | TreasuryStopped | Replied "(unit, string) result" | ReplyDropped | NoReply

type_synonym topup_service = "topup_request \<Rightarrow> runtime \<Rightarrow> topup_wait \<times> runtime"

definition credit_maturity :: "runtime \<Rightarrow> duration" where
  "credit_maturity w = millis (ad_credit_maturity_blocks (adapter_of w) * block_time_ms (tun_of w))"

definition request_topup :: "topup_service \<Rightarrow> u256 \<Rightarrow> u256 \<Rightarrow> runtime \<Rightarrow> (unit, string) result \<times> runtime" where
  "request_topup serve needed value w =
     (let target = sat_add needed (cg_signer_min_balance (cc_cfg (en_ctx w)));
          timeout = topup_wait_timeout_ms (tun_of w)
      in case serve \<lparr>tq_signer = pk_signer (key_of_pair w), tq_needed = target, tq_value = value\<rparr> w of
           (NoTreasury, w) \<Rightarrow> (Err ''no treasury is running for this chain'', w)
         | (TreasuryStopped, w) \<Rightarrow> (Err ''treasury worker has stopped'', w)
         | (ReplyDropped, w) \<Rightarrow> (Err ''treasury dropped the request'', w)
         | (NoReply, w) \<Rightarrow> (Err (''treasury did not deliver within '' @ dec_str (unat timeout) @ '' ms''), w)
         | (Replied (Err reason), w) \<Rightarrow> (Err reason, w)
         | (Replied (Ok _), w) \<Rightarrow>
             let maturity = credit_maturity w;
                 w = (if maturity = 0 then w else w\<lparr>en_now := en_now w + (maturity + ms 50)\<rparr>)
             in (case spend_now value w of
                   (have_now, w) \<Rightarrow>
                     if needed \<le> have_now then (Ok (), w)
                     else (Err ''top-up arrived but the signer still cannot cover the transaction'', w)))"

section \<open>Serving a request\<close>

record fund_env =
  fe_ever :: fault
  fe_recent :: fault
  fe_latest :: block_answer
  fe_estimate :: "(u64, rpc_error) result"
  fe_create :: fault
  fe_new_id :: uuid
  fe_balance :: "(u256, rpc_error) result"
  fe_fail :: fault
  fe_turn :: turn
  fe_turns :: "turn list"
  fe_show_store :: "store_error \<Rightarrow> string"
  fe_show_rpc :: "rpc_error \<Rightarrow> string"
  fe_show_signer :: "signer_error \<Rightarrow> string"

text \<open>Up to the transaction: an answer without one, or the top-up on record with the transaction to send.\<close>

datatype fund_plan = Answer "(unit, string) result" | SendTopup uuid tx_intent fee_quote u256

text \<open>Whether a top-up may be sent, and its amount.\<close>

definition topup_amount_for :: "fund_env \<Rightarrow> topup_request \<Rightarrow> u256 \<Rightarrow> runtime \<Rightarrow> (u256, string) result" where
  "topup_amount_for env rq funds w =
     (let cfg = cc_cfg (en_ctx w);
          chain = cc_chain_id (en_ctx w) in
      case faulty_read (fe_ever env) (ever_topped_up chain (tq_signer rq)) (en_db w) of
        Err e \<Rightarrow> Err (''store: '' @ fe_show_store env e)
      | Ok ever \<Rightarrow>
          let base = (if \<not> ever then initial_topup_amount cfg else cg_topup_amount cfg);
              amount = max base (sat_sub (tq_needed rq) funds)
          in (case faulty_read (fe_recent env) (recent_topups (en_utc w) chain (tq_signer rq)) (en_db w) of
                Err e \<Rightarrow> Err (''store: '' @ fe_show_store env e)
              | Ok sent_recently \<Rightarrow>
                  if cg_max_topups_per_signer_per_hour cfg \<le> sent_recently
                  then Err (''signer already received '' @ dec_str (unat sent_recently) @ '' top-ups in the last hour'')
                  else Ok amount))"

definition topup_gas :: "fund_env \<Rightarrow> runtime \<Rightarrow> (u64, string) result" where
  "topup_gas env w =
     (case ad_transfer_gas (adapter_of w) of
        FixedGas g \<Rightarrow> Ok g
      | EstimateGas \<Rightarrow>
          (case fe_estimate env of
             Err e \<Rightarrow> Err (''gas estimate: '' @ fe_show_rpc env e)
           | Ok g \<Rightarrow> Ok (sat_mul g (ucast (estimate_multiplier_bps (tun_of w))) div 10000)))"

text \<open>Can the treasury pay? It asks the chain before it refuses.\<close>

definition treasury_covers :: "fund_env \<Rightarrow> u256 \<Rightarrow> runtime \<Rightarrow> bool \<times> runtime" where
  "treasury_covers env cost w =
     (case treasury_can w of (x, w) \<Rightarrow>
        let w = (if x < cost then
                   (let ticket = begin_reconcile (pa_ledger (en_pair w)) in
                    case fe_balance env of
                      Ok balance \<Rightarrow> on_ledger (\<lambda>l. snd (reconcile ticket balance (chain_head (en_ctx w)) l)) w
                    | Err e \<Rightarrow> w)
                 else w)
        in (case treasury_can w of (x, w) \<Rightarrow> (cost \<le> x, w)))"

definition prepare_topup :: "fund_env \<Rightarrow> topup_request \<Rightarrow> u256 \<Rightarrow> runtime \<Rightarrow> fund_plan \<times> runtime" where
  "prepare_topup env rq funds w =
     (case topup_amount_for env rq funds w of
        Err reason \<Rightarrow> (Answer (Err reason), w)
      | Ok amount \<Rightarrow>
          (case ctx_fee_quote (en_now w) False (fe_latest env) (en_ctx w) of
             (Err e, _, c) \<Rightarrow> (Answer (Err (''fee quote: '' @ fe_show_rpc env e)), w\<lparr>en_ctx := c\<rparr>)
           | (Ok fees, _, c) \<Rightarrow>
               let w = w\<lparr>en_ctx := c\<rparr> in
               (case topup_gas env w of
                  Err reason \<Rightarrow> (Answer (Err reason), w)
                | Ok gas \<Rightarrow>
                    (case faulty (fe_create env) (create_topup (en_utc w) (fe_new_id env) (cc_chain_id (en_ctx w))
                            (pk_signer (key_of_pair w)) (tq_signer rq) amount) (en_db w) of
                       (Err e, d) \<Rightarrow> (Answer (Err (''store: '' @ fe_show_store env e)), w\<lparr>en_db := d\<rparr>)
                     | (Ok topup_id, d) \<Rightarrow>
                         let w = w\<lparr>en_db := d\<rparr>;
                             i = \<lparr>ti_owner = OTopup topup_id, ti_purpose = PTopup, ti_to = tq_signer rq, ti_data = [],
                                  ti_value = amount, ti_gas_limit = gas\<rparr>
                         in (case treasury_covers env (cost_of w i fees) w of
                               (False, w) \<Rightarrow>
                                 (Answer (Err ''treasury balance is too low to fund this signer''),
                                  w\<lparr>en_db := snd (faulty (fe_fail env)
                                     (\<lambda>d. Ok (fail_topup (en_utc w) topup_id ''treasury balance too low'' d, ())) (en_db w))\<rparr>)
                             | (True, w) \<Rightarrow> (SendTopup topup_id i fees amount, w))))))"

definition not_bound_text :: "fund_env \<Rightarrow> not_bound \<Rightarrow> string" where
  "not_bound_text env nb =
     (case nb of
        NbSigner e \<Rightarrow> ''treasury signer: '' @ fe_show_signer env e
      | NbStore e \<Rightarrow> ''store: '' @ fe_show_store env e
      | NbRpc e \<Rightarrow> ''rpc: '' @ fe_show_rpc env e
      | OwnerGone \<Rightarrow> ''top-up was already handled'')"

text \<open>The answer that the outcome of the transaction gives; \<open>t\<close> is the ledger of the pair that is funded.\<close>

definition finish_topup :: "fund_env \<Rightarrow> uuid \<Rightarrow> u256 \<Rightarrow> tx_outcome \<Rightarrow> ledger \<Rightarrow> runtime
    \<Rightarrow> (unit, string) result \<times> ledger \<times> runtime" where
  "finish_topup env topup_id amount out t w =
     (case out of
        Mined a inc \<Rightarrow>
          if inc_outcome inc = Success
          then (Ok (), credit (en_now w) amount (inc_block_number inc) (credit_maturity w) t, w)
          else (Err ''top-up transaction reverted'', t, w)
      | NotBound nb \<Rightarrow>
          (Err (not_bound_text env nb), t,
           w\<lparr>en_db := snd (faulty (fe_fail env)
               (\<lambda>d. Ok (fail_topup (en_utc w) topup_id ''could not be sent'' d, ())) (en_db w))\<rparr>)
      | Voided _ reason \<Rightarrow> (Err (''top-up rejected: '' @ reason), t, w)
      | NeedsRecovery \<Rightarrow> (Err ''treasury needs nonce recovery'', t, recover_now w)
      | Unresolved \<Rightarrow> (Err ''treasury transaction is stuck; operator attention needed'', t, w)
      | Aborted \<Rightarrow> (Err ''engine is shutting down'', t, w))"

text \<open>The whole service. \<open>target\<close> is the pair looked up for the signer; the answer is \<open>None\<close> while the
  transaction is still being driven when the turns end.\<close>

definition fund :: "fund_env \<Rightarrow> topup_request \<Rightarrow> pair option \<Rightarrow> runtime
    \<Rightarrow> (unit, string) result option \<times> pair option \<times> runtime" where
  "fund env rq target w =
     (if is_paused (pstate w)
      then (Some (Err (''treasury is paused ('' @ (case reason_of (pstate w) of Some r \<Rightarrow> pause_reason_str r
              | None \<Rightarrow> ''unknown'') @ '')'')), target, w)
      else (case target of
              None \<Rightarrow> (Some (Err ''unknown signer''), None, w)
            | Some t \<Rightarrow>
                (case spendable_for (en_now w) (adapter_of w) (tq_value rq) (pa_ledger t) of
                   (x, l) \<Rightarrow>
                     let t = t\<lparr>pa_ledger := l\<rparr>;
                         funds = sat_add x (maturing l)
                     in if tq_needed rq \<le> funds then (Some (Ok ()), Some t, w)
                        else (case prepare_topup env rq funds w of
                          (Answer r, w) \<Rightarrow> (Some r, Some t, w)
                        | (SendTopup topup_id i fees amount, w) \<Rightarrow>
                            (case execute (fe_show_rpc env) (fe_turn env) (fe_turns env) i fees
                                    (on_pair (set_current (Some topup_id)) w) of
                               (None, w) \<Rightarrow> (None, Some t, w)
                             | (Some out, w) \<Rightarrow>
                                 (case finish_topup env topup_id amount out (pa_ledger t) (on_pair (set_current None) w) of
                                    (r, l, w) \<Rightarrow> (Some r, Some (t\<lparr>pa_ledger := l\<rparr>), w)))))))"

text \<open>One round of the treasury's task: recovery first, then a request, answered before the level check.\<close>

definition treasury_round :: "recovery_env \<Rightarrow> fund_env \<Rightarrow> (topup_request \<times> pair option) option \<Rightarrow> runtime
    \<Rightarrow> (unit, string) result option \<times> pair option \<times> runtime" where
  "treasury_round rv env ev w =
     (if ps_recovery_requested (pstate w)
      then (None, None, snd (recover_pair rv (on_pair (\<lambda>s. snd (take_recovery_request s)) w)))
      else (case ev of
              None \<Rightarrow> (None, None, w)
            | Some (rq, target) \<Rightarrow>
                (case fund env rq target w of
                   (None, t, w) \<Rightarrow> (None, t, w)
                 | (Some r, t, w) \<Rightarrow> (Some r, t, snd (check_treasury_level w)))))"

section \<open>What a top-up guarantees\<close>

lemma request_topup_pays:
  assumes "request_topup serve needed value w = (Ok u, w')"
  shows "\<exists>x. spend_now value w' = (x, w') \<and> needed \<le> x"
proof -
  obtain w1 x where "spend_now value w1 = (x, w')" "needed \<le> x"
    using assms by (auto simp: request_topup_def Let_def split: prod.splits topup_wait.splits sum.splits if_splits)
  then show ?thesis using spend_now_again by blast
qed

section \<open>The hourly limit\<close>

text \<open>The top-ups of a signer that count towards the limit.\<close>

definition live_topups :: "timestamp \<Rightarrow> u64 \<Rightarrow> address \<Rightarrow> db \<Rightarrow> nat" where
  "live_topups now chain_id signer d =
     sql_count (\<lambda>t. tu_chain_id t = i64_of_u64 chain_id \<and> tu_signer t = signer
        \<and> tu_status t \<noteq> TFailed \<and> now - one_hour < tu_created_at t) (db_topups d)"

lemma recent_topups_count: "recent_topups now ch sg d = of_nat (live_topups now ch sg d)"
  by (simp add: recent_topups_def live_topups_def)

lemma sql_count_update_le:
  "(\<And>r. p r \<Longrightarrow> P (f r) \<Longrightarrow> P r) \<Longrightarrow> sql_count P (sql_update p f t) \<le> sql_count P t"
  by (induction t) (auto simp: sql_count_def sql_update_def)

lemma sql_count_mono: "(\<And>r. P r \<Longrightarrow> Q r) \<Longrightarrow> sql_count P t \<le> sql_count Q t"
  by (induction t) (auto simp: sql_count_def)

lemma live_topups_later: "now \<le> now' \<Longrightarrow> live_topups now' ch sg d \<le> live_topups now ch sg d"
  unfolding live_topups_def by (rule sql_count_mono) auto

definition adds_no_topup :: "db \<Rightarrow> db \<Rightarrow> bool" where
  "adds_no_topup d d' \<longleftrightarrow> (\<forall>now ch sg. live_topups now ch sg d' \<le> live_topups now ch sg d)"

lemma adds_no_topup_refl [simp]: "adds_no_topup d d"
  by (simp add: adds_no_topup_def)

lemma adds_no_topup_same: "db_topups d' = db_topups d \<Longrightarrow> adds_no_topup d d'"
  by (simp add: adds_no_topup_def live_topups_def)

lemma adds_no_topup_update:
  assumes "db_topups d' = sql_update p f (db_topups d)"
    and "\<And>t. p t \<Longrightarrow> tu_status t \<noteq> TFailed \<and> tu_chain_id (f t) = tu_chain_id t \<and> tu_signer (f t) = tu_signer t
      \<and> tu_created_at (f t) = tu_created_at t"
  shows "adds_no_topup d d'"
  unfolding adds_no_topup_def live_topups_def assms(1) by (intro allI sql_count_update_le) (use assms(2) in auto)

lemma adds_no_topup_trans: "adds_no_topup d d1 \<Longrightarrow> adds_no_topup d1 d2 \<Longrightarrow> adds_no_topup d d2"
  unfolding adds_no_topup_def using le_trans by blast

lemma bind_adds_no_topup:
  assumes "bind_attempt now epoch a kind d = Ok d'"
  shows "adds_no_topup d d'"
  using assms
proof (rule bind_attemptE)
  fix d1 d2 d3
  assume c: "claim_slot now a kind d = Ok d1" and i: "insert_attempt now a d1 = Ok d2"
    and m: "move_owner now a kind d2 = (d3, 1)" and d': "d' = raise_hwm now a d3"
  have 2: "db_topups d2 = db_topups d" using insert_attemptE(1) [OF i] claim_slot_fields [OF c] by simp
  show ?thesis
  proof (cases "at_owner a")
    case (OJob j)
    then have "db_topups d' = db_topups d" using m 2 by (auto simp: d' raise_hwm_def move_owner_def Let_def split: bind_kind.splits)
    then show ?thesis by (rule adds_no_topup_same)
  next
    case (OTopup j)
    show ?thesis
    proof (cases "kind = First")
      case True
      then have "db_topups d' = sql_update (\<lambda>t. tu_id t = j \<and> tu_status t = TRequested) (\<lambda>t. t\<lparr>tu_status := TSent, tu_updated_at := now\<rparr>) (db_topups d)"
        using m 2 OTopup by (auto simp: d' raise_hwm_def move_owner_def Let_def)
      then show ?thesis by (rule adds_no_topup_update) simp
    next
      case False
      then have "db_topups d' = sql_update (\<lambda>t. tu_id t = j \<and> tu_status t = TSent) (\<lambda>t. t\<lparr>tu_updated_at := now\<rparr>) (db_topups d)"
        using m 2 OTopup by (auto simp: d' raise_hwm_def move_owner_def Let_def)
      then show ?thesis by (rule adds_no_topup_update) simp
    qed
  qed
qed

lemma announce_topups: "announce now ev p f e re b d = Ok (d', x) \<Longrightarrow> db_topups d' = db_topups d"
  by (erule announceE) simp_all

lemma void_adds_no_topup:
  assumes "void_binding now clock ev epoch a mode disp d = Ok d'"
  shows "adds_no_topup d d'"
proof (cases "at_owner a")
  case (OJob j)
  then have "db_topups d' = db_topups d"
    using assms by (auto simp: void_binding_def Let_def release_nonce_def and_then_eq_Ok dest: announce_topups
        split: void_disposition.splits if_splits)
  then show ?thesis by (rule adds_no_topup_same)
next
  case (OTopup j)
  then have "db_topups d' = sql_update (\<lambda>t. tu_id t = j \<and> tu_status t = TSent)
      (\<lambda>t. t\<lparr>tu_status := TFailed, tu_error := Some ''transaction was rejected before it could be sent'', tu_updated_at := now\<rparr>) (db_topups d)"
    using assms by (auto simp: void_binding_def Let_def release_nonce_def split: if_splits)
  then show ?thesis by (rule adds_no_topup_update) simp
qed

interpretation topup_frame: tx_frame adds_no_topup
  by unfold_locales (auto intro: adds_no_topup_trans bind_adds_no_topup void_adds_no_topup)

lemma fail_topup_adds_none: "adds_no_topup d (fail_topup now i err d)"
  by (rule adds_no_topup_update [of _ "\<lambda>t. tu_id t = i \<and> tu_status t = TRequested"
        "\<lambda>t. t\<lparr>tu_status := TFailed, tu_error := Some err, tu_updated_at := now\<rparr>"]) (simp_all add: fail_topup_def)

lemma fail_faulty_adds_none: "adds_no_topup d (snd (faulty f (\<lambda>d. Ok (fail_topup now i err d, ())) d))"
  by (cases rule: faulty_cases [of f "\<lambda>d. Ok (fail_topup now i err d, ())" d]) (auto simp: fail_topup_adds_none)

lemma treasury_covers_frame:
  "treasury_covers env cost w = (b, w') \<Longrightarrow> en_db w' = en_db w \<and> en_utc w' = en_utc w \<and> en_ctx w' = en_ctx w"
  by (auto simp: treasury_covers_def Let_def on_ledger_def dest!: treasury_can_frame split: prod.splits if_splits sum.splits)

text \<open>At most one top-up is recorded, and only below the limit.\<close>

lemma create_adds_one:
  assumes "create_topup now i ch me sg amount d = Ok (d1, x)"
  shows "live_topups now' ch' sg' d1 \<le> live_topups now' ch' sg' d + (if sg' = sg \<and> ch' = ch then 1 else 0)"
  using assms by (auto simp: create_topup_def live_topups_def sql_count_def split: if_splits)

lemma fee_quote_frame:
  "ctx_fee_quote now b latest c = (r, asked, c') \<Longrightarrow> cc_chain_id c' = cc_chain_id c \<and> cc_cfg c' = cc_cfg c"
  by (auto simp: ctx_fee_quote_def base_fee_def observe_defs Let_def split: prod.splits sum.splits option.splits if_splits)

lemma topup_amount_below_limit:
  "topup_amount_for env rq funds w = Ok amount
   \<Longrightarrow> recent_topups (en_utc w) (cc_chain_id (en_ctx w)) (tq_signer rq) (en_db w) < cg_max_topups_per_signer_per_hour (cc_cfg (en_ctx w))"
  by (auto simp: topup_amount_for_def faulty_read_def Let_def split: fault.splits if_splits)

lemma prepare_topup_adds:
  assumes "prepare_topup env rq funds w = (plan, w')"
  obtains "adds_no_topup (en_db w) (en_db w')"
  | d1 i me amount x where "create_topup (en_utc w) i (cc_chain_id (en_ctx w)) me (tq_signer rq) amount (en_db w) = Ok (d1, x)"
    "adds_no_topup d1 (en_db w')"
    "recent_topups (en_utc w) (cc_chain_id (en_ctx w)) (tq_signer rq) (en_db w) < cg_max_topups_per_signer_per_hour (cc_cfg (en_ctx w))"
proof (cases "topup_amount_for env rq funds w")
  case (Inl e)
  then show ?thesis using assms that(1) by (simp add: prepare_topup_def)
next
  case (Inr amount)
  obtain q asked c where q: "ctx_fee_quote (en_now w) False (fe_latest env) (en_ctx w) = (q, asked, c)" by (metis prod_cases3)
  let ?w = "w\<lparr>en_ctx := c\<rparr>"
  let ?call = "create_topup (en_utc w) (fe_new_id env) (cc_chain_id (en_ctx w)) (pk_signer (key_of_pair w)) (tq_signer rq) amount"
  note c = fee_quote_frame [OF q]
  show ?thesis
  proof (cases "(\<exists>e. q = Err e) \<or> (\<exists>e. topup_gas env ?w = Err e)")
    case True
    then show ?thesis using assms q Inr that(1) by (auto simp: prepare_topup_def Let_def split: sum.splits)
  next
    case False
    then obtain fees gas where fg: "q = Ok fees" "topup_gas env ?w = Ok gas" by (metis sum.exhaust)
    obtain r d1 where f: "faulty (fe_create env) ?call (en_db w) = (r, d1)" by (cases "faulty (fe_create env) ?call (en_db w)")
    have e: "adds_no_topup d1 (en_db w')"
      using assms unfolding prepare_topup_def Let_def
      by (simp add: Inr q fg c f fail_faulty_adds_none split: sum.splits prod.splits bool.splits)
        (auto dest!: treasury_covers_frame simp: fail_faulty_adds_none)
    show ?thesis
    proof (cases rule: faulty_cases [of "fe_create env" ?call "en_db w"])
      case (unchanged y)
      with f e that(1) show ?thesis by simp
    next
      case (ran d2 x y)
      with f e show ?thesis using that(2) topup_amount_below_limit [OF Inr] by simp
    qed
  qed
qed

lemma fund_adds:
  assumes "fund env rq target w = (r, t', w')"
  obtains "adds_no_topup (en_db w) (en_db w')"
  | plan funds w1 where "prepare_topup env rq funds w = (plan, w1)" "adds_no_topup (en_db w1) (en_db w')"
proof (cases "is_paused (pstate w) \<or> target = None")
  case True
  then show ?thesis using assms that(1) by (auto simp: fund_def split: if_splits)
next
  case False
  then obtain t where t: "target = Some t" "\<not> is_paused (pstate w)" by auto
  obtain x l where x: "spendable_for (en_now w) (adapter_of w) (tq_value rq) (pa_ledger t) = (x, l)"
    by (cases "spendable_for (en_now w) (adapter_of w) (tq_value rq) (pa_ledger t)")
  let ?funds = "sat_add x (maturing l)"
  obtain plan w1 where p: "prepare_topup env rq ?funds w = (plan, w1)" by (cases "prepare_topup env rq ?funds w")
  have "adds_no_topup (en_db w) (en_db w') \<or> adds_no_topup (en_db w1) (en_db w')"
  proof (cases plan)
    case (Answer y)
    then show ?thesis using assms by (auto simp: fund_def t x p Let_def split: if_splits)
  next
    case (SendTopup i tx fees amount)
    obtain out w2 where ex: "execute (fe_show_rpc env) (fe_turn env) (fe_turns env) tx fees (on_pair (set_current (Some i)) w1) = (out, w2)"
      by (cases "execute (fe_show_rpc env) (fe_turn env) (fe_turns env) tx fees (on_pair (set_current (Some i)) w1)")
    have 1: "adds_no_topup (en_db w1) (en_db w2)" using topup_frame.execute_frame [OF ex] by simp
    have 2: "adds_no_topup (en_db w2) (en_db w3)"
      if "finish_topup env i amount o1 l' (on_pair g w2) = (y, l'', w3)" for o1 l' g y l'' w3
      using that by (auto simp: finish_topup_def fail_faulty_adds_none split: tx_outcome.splits if_splits)
    show ?thesis
      using assms 1 adds_no_topup_trans [OF 1 2]
      by (auto simp: fund_def t x p SendTopup ex Let_def split: if_splits option.splits prod.splits)
  qed
  then show ?thesis using that p by blast
qed

text \<open>C20. The treasury keeps to the hourly limit. Whatever becomes of a request (refused, failed in the
  store at any point, sent, replaced, voided, mined, reverted or still being driven), if the signers of the
  chain had at most the configured number of counted top-ups within the last hour before it, they have at
  most that number after it, now and at every later time until the next request.\<close>

theorem topups_keep_to_the_hourly_limit:
  assumes "live_topups (en_utc w) (cc_chain_id (en_ctx w)) signer (en_db w)
      \<le> unat (cg_max_topups_per_signer_per_hour (cc_cfg (en_ctx w)))"
    and "fund env rq target w = (r, t', w')" and "en_utc w \<le> now"
  shows "live_topups now (cc_chain_id (en_ctx w)) signer (en_db w')
      \<le> unat (cg_max_topups_per_signer_per_hour (cc_cfg (en_ctx w)))"
proof -
  let ?n = "\<lambda>d. live_topups (en_utc w) (cc_chain_id (en_ctx w)) signer d" and ?cap = "cg_max_topups_per_signer_per_hour (cc_cfg (en_ctx w))"
  have step: "?n d' \<le> ?n d" if "adds_no_topup d d'" for d d' using that by (simp add: adds_no_topup_def)
  have prep: "?n (en_db w1) \<le> unat ?cap" if "prepare_topup env rq funds w = (plan, w1)" for plan funds w1
    using that
  proof (cases rule: prepare_topup_adds)
    case 1
    then show ?thesis using step assms(1) le_trans by blast
  next
    case (2 d1 i me amount x)
    have "?n d1 \<le> unat ?cap"
    proof (cases "signer = tq_signer rq")
      case True
      have "unat (of_nat (?n (en_db w)) :: u32) = ?n (en_db w)"
        using order_le_less_trans [OF assms(1) unsigned_less] by (simp add: unat_of_nat)
      then have "?n (en_db w) < unat ?cap" using 2(3) True by (simp add: recent_topups_count word_less_nat_alt)
      then show ?thesis using create_adds_one [OF 2(1), of "en_utc w" "cc_chain_id (en_ctx w)" signer] by (simp split: if_splits)
    next
      case False
      then show ?thesis using create_adds_one [OF 2(1), of "en_utc w" "cc_chain_id (en_ctx w)" signer] assms(1) by simp
    qed
    then show ?thesis using step [OF 2(2)] by simp
  qed
  have "?n (en_db w') \<le> unat ?cap"
    using assms(2)
  proof (cases rule: fund_adds)
    case 1
    then show ?thesis using step assms(1) le_trans by blast
  next
    case (2 plan funds w1)
    then show ?thesis using step prep le_trans by blast
  qed
  then show ?thesis using live_topups_later [OF assms(3)] le_trans by blast
qed

text \<open>A first request whose record is written although the answer of the store is lost.\<close>

definition demo_treasury :: runtime where
  "demo_treasury = demo_runtime\<lparr>en_db := empty_db,
     en_pair := \<lparr>pa_key = \<lparr>pk_chain_id = 1, pk_signer = 7\<rparr>, pa_role = RTreasury, pa_ledger = ledger_default,
                 pa_state = (pair_new 0 False)\<lparr>ps_pause := None\<rparr>\<rparr>\<rparr>"

definition lossy_fund :: fund_env where
  "lossy_fund = \<lparr>fe_ever = Works, fe_recent = Works,
     fe_latest = Ok (Some \<lparr>bk_number = 9, bk_hash = 1, bk_parent_hash = 0, bk_timestamp = 0, bk_base_fee_per_gas = None, bk_transactions = []\<rparr>),
     fe_estimate = Ok 21000, fe_create = LostAfter SqlxIo, fe_new_id = 500, fe_balance = Ok 0, fe_fail = Works,
     fe_turn = quiet_turn, fe_turns = [], fe_show_store = (\<lambda>_. []), fe_show_rpc = (\<lambda>_. []), fe_show_signer = (\<lambda>_. [])\<rparr>"

definition demo_signer :: pair where
  "demo_signer = \<lparr>pa_key = \<lparr>pk_chain_id = 1, pk_signer = 9\<rparr>, pa_role = RSigner, pa_ledger = ledger_default,
     pa_state = pair_new 0 False\<rparr>"

abbreviation demo_fund_end :: runtime where
  "demo_fund_end \<equiv> snd (snd (fund lossy_fund \<lparr>tq_signer = 9, tq_needed = 2000, tq_value = 0\<rparr> (Some demo_signer) demo_treasury))"

lemma demo_fund_records: "live_topups 0 1 9 (en_db demo_fund_end) = 1"
  by (simp add: fund_def demo_treasury_def demo_signer_def lossy_fund_def demo_runtime_def pair_new_def is_paused_def
      spendable_for_def mature_def ledger_default_def sum_credits_def view_def reserved_def maturing_def prepare_topup_def
      topup_amount_for_def faulty_read_def ever_topped_up_def recent_topups_def sql_count_def empty_db_def
      demo_ctx_def chain_ctx_new_def demo_chain_config_def geth_def spendable_default_def sat_sub_def observe_defs base_fee_u128_def Let_def
      ctx_fee_quote_def base_fee_def fresh_base_fee_def topup_gas_def faulty_def create_topup_def live_topups_def one_hour_def)

theorem topups_keep_to_the_hourly_limit_witness:
  "live_topups 0 1 9 (en_db demo_fund_end) = 1 \<and> live_topups 3600000000 1 9 (en_db demo_fund_end) \<le> unat (12 :: u32)"
proof -
  obtain r t' where "fund lossy_fund \<lparr>tq_signer = 9, tq_needed = 2000, tq_value = 0\<rparr> (Some demo_signer) demo_treasury = (r, t', demo_fund_end)"
    by (metis prod.collapse)
  from topups_keep_to_the_hourly_limit [OF _ this, of 9 3600000000] show ?thesis
    using demo_fund_records
    by (simp add: demo_treasury_def demo_runtime_def demo_ctx_def chain_ctx_new_def demo_chain_config_def live_topups_def sql_count_def empty_db_def)
qed

text \<open>The outcome alone decides: a mined cancel of a top-up is credited to the signer like the top-up itself.\<close>

lemma mined_cancel_is_credited:
  assumes "at_purpose a = PCancel" "inc_outcome inc = Success"
  shows "finish_topup env i amount (Mined a inc) t w = (Ok (), credit (en_now w) amount (inc_block_number inc) (credit_maturity w) t, w)"
  using assms by (simp add: finish_topup_def)

end
