(* ===== verification/Worker.thy ===== *)
theory Worker
  imports Treasury
begin

text \<open>
  The pair worker, \<^verbatim>\<open>crates/gum-engine/src/pipeline/worker.rs\<close>: it takes a job off the queue of its chain,
  works out gas and fees, makes sure the pair can pay, drives the transaction and decides from the outcome
  what becomes of the job. \<open>process\<close> is split where the transaction is handed to the driver. One round of
  the loop of \<open>run\<close> is \<open>worker_turn\<close>; what other tasks do to the pair while the worker waits for a job is
  an argument of it.
\<close>

datatype disposition = DMined | DFailed | DFailedAfterBind | DRequeue bool duration | DDropped | DLeftInFlight

record worker_env =
  we_estimate :: "(u64, rpc_error) result"
  we_latest :: block_answer
  we_serve :: topup_service
  we_requeue :: fault
  we_fail :: fault
  we_fail_id :: uuid
  we_max_requeues :: u32
  we_turn :: turn
  we_turns :: "turn list"
  we_show_rpc :: "rpc_error \<Rightarrow> string"
  we_show_signer :: "signer_error \<Rightarrow> string"
  we_unhex :: "string \<Rightarrow> bytes option"

section \<open>Failing and funding an unbound job\<close>

definition fail_unbound :: "worker_env \<Rightarrow> queued_job \<Rightarrow> job_failure \<Rightarrow> string \<Rightarrow> bytes option \<Rightarrow> runtime
    \<Rightarrow> disposition \<times> runtime" where
  "fail_unbound env job failure message revert_data w =
     (case faulty (we_fail env) (fail_job (en_utc w) (we_fail_id env) (qj_id job) [Queued] failure message revert_data) (en_db w) of
        (Ok True, d) \<Rightarrow> (DFailed, w\<lparr>en_db := d\<rparr>)
      | (Ok False, d) \<Rightarrow> (DDropped, w\<lparr>en_db := d\<rparr>)
      | (Err e, d) \<Rightarrow> (DRequeue False (ms 1000), w\<lparr>en_db := d\<rparr>))"

definition ensure_funds :: "worker_env \<Rightarrow> queued_job \<Rightarrow> u256 \<Rightarrow> runtime \<Rightarrow> (unit, disposition) result \<times> runtime" where
  "ensure_funds env job cost w =
     (let value = rq_value (qj_request job);
          floor = cg_signer_min_balance (cc_cfg (en_ctx w)) in
      case spend_now value w of
        (available, w) \<Rightarrow>
          if cost \<le> available \<and> floor \<le> available then (Ok (), w)
          else
            let w = pause_now InsufficientFunds AwaitingTreasuryTopup
                      (''available '' @ dec_str (unat available) @ '' wei; needs '' @ dec_str (unat cost)
                         @ '' wei and a floor of '' @ dec_str (unat floor) @ '' wei'') w
            in (case request_topup (we_serve env) cost value w of
                  (Ok _, w) \<Rightarrow> (Ok (), resume_now InsufficientFunds w)
                | (Err reason, w) \<Rightarrow>
                    let w = pause_now InsufficientFunds AwaitingTreasuryRefill reason w
                    in (case faulty (we_requeue env) (requeue_front (en_utc w) (qj_id job)) (en_db w) of
                          (Err e, d) \<Rightarrow> (Err (DRequeue False 0), w\<lparr>en_db := d\<rparr>)
                        | (Ok n, d) \<Rightarrow>
                            if we_max_requeues env < n
                            then (case fail_unbound env job Internal
                                    (''returned to the queue '' @ dec_str (unat n) @ '' times for lack of funds: '' @ reason)
                                    None (w\<lparr>en_db := d\<rparr>) of (disp, w) \<Rightarrow> (Err disp, w))
                            else (Err (DRequeue False 0), w\<lparr>en_db := d\<rparr>))))"

section \<open>Preparing a transaction\<close>

text \<open>\<open>trim_matches('"').trim_start_matches("0x")\<close>.\<close>

definition trim_quotes :: "string \<Rightarrow> string" where
  "trim_quotes s = rev (dropWhile (\<lambda>c. c = CHR 0x22) (rev (dropWhile (\<lambda>c. c = CHR 0x22) s)))"

fun trim_0x :: "string \<Rightarrow> string" where
  "trim_0x (a # b # s) = (if a = CHR ''0'' \<and> b = CHR ''x'' then trim_0x s else a # b # s)"
| "trim_0x s = s"

definition job_gas :: "worker_env \<Rightarrow> queued_job \<Rightarrow> runtime \<Rightarrow> (u64, disposition) result \<times> runtime" where
  "job_gas env job w =
     (let rq = qj_request job in
      case rq_gas_limit rq of
        Some g \<Rightarrow> (Ok g, w)
      | None \<Rightarrow>
          (case we_estimate env of
             Ok g \<Rightarrow> (Ok (min (sat_mul g (ucast (estimate_multiplier_bps (tun_of w))) div 10000) (max_tx_gas (tun_of w))), w)
           | Err e \<Rightarrow>
               if ad_estimate_lacks_funds (adapter_of w) e
               then (case ensure_funds env job (rq_value rq) w of
                       (Ok _, w) \<Rightarrow> (Err (DRequeue False 0), w)
                     | (Err disp, w) \<Rightarrow> (Err disp, w))
               else (case e of
                       Response code message data \<Rightarrow>
                         (case fail_unbound env job SimulationReverted (''gas estimation failed: '' @ message)
                                 (Option.bind data (\<lambda>s. we_unhex env (trim_0x (trim_quotes s)))) w of
                            (disp, w) \<Rightarrow> (Err disp, w))
                     | _ \<Rightarrow> (Err (DRequeue False (ms 1000)), w))))"

text \<open>Everything before the transaction: the disposition of a job that is not sent, or what to send with
  its worst-case cost.\<close>

definition prepare_job :: "worker_env \<Rightarrow> queued_job \<Rightarrow> runtime \<Rightarrow> (tx_intent \<times> fee_quote \<times> u256, disposition) result \<times> runtime" where
  "prepare_job env job w =
     (let rq = qj_request job in
      if (case rq_deadline rq of Some dl \<Rightarrow> dl \<le> en_utc w | None \<Rightarrow> False)
      then (case fail_unbound env job Expired ''deadline passed before the job could be sent'' None w of
              (disp, w) \<Rightarrow> (Err disp, w))
      else (case job_gas env job w of
              (Err disp, w) \<Rightarrow> (Err disp, w)
            | (Ok gas, w) \<Rightarrow>
                (case ctx_fee_quote (en_now w) False (we_latest env) (en_ctx w) of
                   (Err e, _, c) \<Rightarrow> (Err (DRequeue False (ms 1000)), w\<lparr>en_ctx := c\<rparr>)
                 | (Ok fees, _, c) \<Rightarrow>
                     let w = w\<lparr>en_ctx := c\<rparr>;
                         i = \<lparr>ti_owner = OJob (qj_id job), ti_purpose = PJob, ti_to = rq_to rq, ti_data = rq_data rq,
                              ti_value = rq_value rq, ti_gas_limit = gas\<rparr>;
                         cost = cost_of w i fees;
                         limit = max_job_cost (cc_cfg (en_ctx w))
                     in if limit < cost
                        then (case fail_unbound env job InvalidTx
                                (''worst-case cost '' @ dec_str (unat cost) @ '' wei exceeds max_job_cost '' @ dec_str (unat limit))
                                None w of (disp, w) \<Rightarrow> (Err disp, w))
                        else (case ensure_funds env job cost w of
                                (Err disp, w) \<Rightarrow> (Err disp, w)
                              | (Ok _, w) \<Rightarrow> (Ok (i, fees, cost), w)))))"

section \<open>Sending it\<close>

definition on_stats :: "(stats \<Rightarrow> stats) \<Rightarrow> runtime \<Rightarrow> runtime" where
  "on_stats f w = w\<lparr>en_stats := f (en_stats w)\<rparr>"

definition on_queue :: "(job_queue \<Rightarrow> job_queue) \<Rightarrow> runtime \<Rightarrow> runtime" where
  "on_queue f w = on_ctx (\<lambda>c. c\<lparr>cc_queue := f (cc_queue c)\<rparr>) w"

definition count_move :: "address option \<times> stat_bucket \<Rightarrow> address option \<times> stat_bucket \<Rightarrow> runtime \<Rightarrow> runtime" where
  "count_move src dst w = on_stats (transition (cc_chain_id (en_ctx w)) src dst) w"

abbreviation my_signer :: "runtime \<Rightarrow> address option" where
  "my_signer w \<equiv> Some (pk_signer (key_of_pair w))"

text \<open>What the outcome of the drive makes of the job.\<close>

definition judge_outcome :: "worker_env \<Rightarrow> tx_outcome \<Rightarrow> runtime \<Rightarrow> disposition \<times> runtime" where
  "judge_outcome env out w =
     (case out of
        Mined a inc \<Rightarrow> (DMined, on_books (acc_mined (confirm_check_of (en_ctx w)) (key_of_pair w) a inc) w)
      | NotBound nb \<Rightarrow>
          let w = count_move (my_signer w, SInFlight) (my_signer w, SProcessing) w
          in (case nb of
                OwnerGone \<Rightarrow> (DDropped, w)
              | NbSigner e \<Rightarrow> (DRequeue False 0,
                  pause_now SignerUnavailable AwaitingOperatorResume (''signing failed: '' @ we_show_signer env e) w)
              | NbStore e \<Rightarrow> (DRequeue False (ms 1000), w)
              | NbRpc e \<Rightarrow> (DRequeue False (ms 1000), w))
      | Voided requeued reason \<Rightarrow> (if requeued then DRequeue True 0 else DFailedAfterBind, w)
      | NeedsRecovery \<Rightarrow> (DLeftInFlight,
          recover_now (pause_now Reorg ReconcilingNonce ''an earlier transaction of this signer is missing on-chain'' w))
      | Unresolved \<Rightarrow> (DLeftInFlight, w)
      | Aborted \<Rightarrow> (DLeftInFlight, w))"

text \<open>\<open>None\<close> while the transaction is still being driven when the turns end.\<close>

definition process :: "worker_env \<Rightarrow> queued_job \<Rightarrow> runtime \<Rightarrow> disposition option \<times> runtime" where
  "process env job w =
     (case prepare_job env job w of
        (Err disp, w) \<Rightarrow> (Some disp, w)
      | (Ok (i, fees, cost), w) \<Rightarrow>
          let w = count_move (my_signer w, SProcessing) (my_signer w, SInFlight) w
          in (case execute (we_show_rpc env) (we_turn env) (we_turns env) i fees w of
                (None, w) \<Rightarrow> (None, w)
              | (Some out, w) \<Rightarrow> (case judge_outcome env out w of (disp, w) \<Rightarrow> (Some disp, w))))"

section \<open>The loop\<close>

definition dispose :: "queued_job \<Rightarrow> disposition \<Rightarrow> runtime \<Rightarrow> runtime" where
  "dispose job disp w =
     (case disp of
        DMined \<Rightarrow> w
      | DFailed \<Rightarrow> on_queue (forget (qj_id job)) (count_move (my_signer w, SProcessing) (my_signer w, SFailed) w)
      | DFailedAfterBind \<Rightarrow> on_queue (forget (qj_id job)) (count_move (my_signer w, SInFlight) (my_signer w, SFailed) w)
      | DRequeue after_bind backoff \<Rightarrow>
          on_queue (push_front job)
            (count_move (my_signer w, if after_bind then SInFlight else SProcessing) (None, SQueued) w)
      | DDropped \<Rightarrow> on_queue (forget (qj_id job)) (count_move (my_signer w, SProcessing) (None, SQueued) w)
      | DLeftInFlight \<Rightarrow> w)"

datatype turn_end = Stopped | Recovered | Blocked | Idle | PutBack queued_job | StillDriving queued_job | Worked queued_job disposition

definition worker_blocked :: "bool \<Rightarrow> runtime \<Rightarrow> bool" where
  "worker_blocked global_pause w \<longleftrightarrow>
     is_paused (pstate w) \<or> ps_draining (pstate w) \<or> \<not> is_accepting_work (en_ctx w) \<or> global_pause"

definition worker_turn :: "worker_env \<Rightarrow> recovery_env \<Rightarrow> bool \<Rightarrow> bool \<Rightarrow> bool \<Rightarrow> (pair_state \<Rightarrow> pair_state) \<Rightarrow> runtime
    \<Rightarrow> turn_end \<times> runtime" where
  "worker_turn env rv shutdown global_pause shutdown_later meanwhile w =
     (if shutdown then (Stopped, w)
      else if ps_recovery_requested (pstate w)
        then (Recovered, snd (recover_pair rv (on_pair (\<lambda>s. snd (take_recovery_request s)) w)))
      else if worker_blocked global_pause w then (Blocked, w)
      else (case try_pop (cc_queue (en_ctx w)) of
              (None, q) \<Rightarrow> (Idle, w)
            | (Some job, q) \<Rightarrow>
                let w = on_pair meanwhile (on_queue (\<lambda>_. q) w)
                in if is_paused (pstate w) \<or> ps_recovery_requested (pstate w) \<or> shutdown_later
                   then (PutBack job, on_queue (push_front job) w)
                   else
                     let w = on_pair (set_current (Some (qj_id job))) (count_move (None, SQueued) (my_signer w, SProcessing) w)
                     in (case process env job w of
                           (None, w) \<Rightarrow> (StillDriving job, w)
                         | (Some disp, w) \<Rightarrow> (Worked job disp, dispose job disp (on_pair (set_current None) w)))))"

section \<open>No transaction without funds\<close>

lemma on_ledger_same: "pa_ledger (en_pair (on_ledger f w)) = f (pa_ledger (en_pair w))"
  by (simp add: on_ledger_def)

lemma resume_now_spend:
  assumes "spend_now value w = (x, w)"
  shows "spend_now value (resume_now r w) = (x, resume_now r w)"
proof -
  obtain l where l: "spendable_for (en_now w) (adapter_of w) value (pa_ledger (en_pair w)) = (x, l)" "on_ledger (\<lambda>_. l) w = w"
    using assms by (auto simp: spend_now_def split: prod.splits)
  then have "l = pa_ledger (en_pair w)" by (metis on_ledger_same)
  with l show ?thesis by (simp add: spend_now_def resume_now_def on_pair_def on_ledger_def)
qed

lemma ensure_funds_pays:
  assumes "ensure_funds env job cost w = (Ok u, w')"
  shows "\<exists>x. spend_now (rq_value (qj_request job)) w' = (x, w') \<and> cost \<le> x"
proof -
  let ?v = "rq_value (qj_request job)"
  obtain x w1 where s: "spend_now ?v w = (x, w1)" by (cases "spend_now ?v w")
  show ?thesis
  proof (cases "cost \<le> x \<and> cg_signer_min_balance (cc_cfg (en_ctx w)) \<le> x")
    case True
    then show ?thesis using assms s spend_now_again [OF s] by (simp add: ensure_funds_def)
  next
    case False
    then obtain w2 w3 where "request_topup (we_serve env) cost ?v w2 = (Ok (), w3)" "w' = resume_now InsufficientFunds w3"
      using assms s by (auto simp: ensure_funds_def Let_def split: prod.splits sum.splits if_splits)
    then show ?thesis using request_topup_pays resume_now_spend by blast
  qed
qed


section \<open>No job is let go of while the store has it queued\<close>

definition queued_in :: "job_id \<Rightarrow> db \<Rightarrow> bool" where
  "queued_in i d \<longleftrightarrow> (\<exists>r \<in> set (db_jobs d). jr_id r = i \<and> jr_status r = Queued)"

lemma fail_job_not_queued:
  assumes "fail_job now ev i [Queued] failure message revert d = Ok (d', b)"
  shows "\<not> queued_in i d'"
  using assms unfolding fail_job_def
proof (cases rule: announceE)
  case none
  then show ?thesis by (auto simp: queued_in_def find_None_ball)
next
  case (one r wh)
  have st: "jr_status (failed_row now failure message revert x) = Failed" for x by (simp add: failed_row_def)
  show ?thesis unfolding queued_in_def one(4) set_sql_update by (auto simp: st)
qed

lemma fail_unbound_not_queued:
  assumes "fail_unbound env job failure message revert w = (disp, w')" and "disp \<in> {DFailed, DDropped}"
  shows "\<not> queued_in (qj_id job) (en_db w')"
proof -
  let ?c = "fail_job (en_utc w) (we_fail_id env) (qj_id job) [Queued] failure message revert"
  obtain b where "?c (en_db w) = Ok (en_db w', b)"
    using assms by (auto simp: fail_unbound_def faulty_def split: prod.splits sum.splits bool.splits fault.splits)
  then show ?thesis by (rule fail_job_not_queued)
qed

lemma ensure_funds_not_queued:
  assumes "ensure_funds env job cost w = (Err disp, w')" and "disp \<in> {DFailed, DDropped}"
  shows "\<not> queued_in (qj_id job) (en_db w')"
proof -
  obtain message w1 where "fail_unbound env job Internal message None w1 = (disp, w')"
    using assms by (auto simp: ensure_funds_def Let_def split: prod.splits sum.splits if_splits)
  then show ?thesis using assms(2) by (rule fail_unbound_not_queued)
qed

lemma job_gas_not_queued:
  assumes "job_gas env job w = (Err disp, w')" and "disp \<in> {DFailed, DDropped}"
  shows "\<not> queued_in (qj_id job) (en_db w')"
  using assms by (auto simp: job_gas_def Let_def split: option.splits sum.splits prod.splits if_splits rpc_error.splits
      dest: ensure_funds_not_queued fail_unbound_not_queued)

lemma prepare_job_not_queued:
  assumes "prepare_job env job w = (Err disp, w')" and "disp \<in> {DFailed, DDropped}"
  shows "\<not> queued_in (qj_id job) (en_db w')"
  using assms by (auto simp: prepare_job_def Let_def split: sum.splits prod.splits if_splits
      dest: ensure_funds_not_queued fail_unbound_not_queued job_gas_not_queued)

text \<open>A conflict that the bind loop reports is the answer of the store to the database as it stands.\<close>

lemma bind_rounds_conflict:
  "bind_rounds bf now epoch a kind n r d = (Some (Err (StateConflict x y z)), d')
   \<Longrightarrow> bind_attempt now epoch a kind d' = Err (StateConflict x y z)"
proof (induction n arbitrary: r d)
  case (Suc n)
  obtain q d1 where f: "faulty (fst (bf r)) (bind_write now epoch a kind) d = (q, d1)"
    by (cases "faulty (fst (bf r)) (bind_write now epoch a kind) d")
  have conflict: "bind_attempt now epoch a kind d1 = Err e" if "q = Err e" "\<nexists>k. e = Db k" for e
    using f that by (auto simp: faulty_def bind_write_def and_then_def split: fault.splits sum.splits)
  show ?case using Suc f conflict
    by (auto simp: bind_rounds_Suc is_transient_def split: sum.splits if_splits)
qed simp

lemma first_bind_conflict:
  assumes "bind_attempt now epoch a First d = Err (StateConflict x y z)" and "at_owner a = OJob i" and "distinct (map jr_id (db_jobs d))"
  shows "\<not> queued_in i d"
proof -
  obtain d1 d2 where c: "claim_slot now a First d = Ok d1" and i: "insert_attempt now a d1 = Ok d2"
    and m: "snd (move_owner now a First d2) \<noteq> 1"
    using assms(1) by (auto simp: bind_attempt_def and_then_def claim_slot_def insert_attempt_def unique_violation_def
        foreign_key_violation_def Let_def split: if_splits sum.splits prod.splits option.splits)
  have "db_jobs d2 = db_jobs d" using insert_attemptE(1) [OF i] claim_slot_fields [OF c] by simp
  then show ?thesis using m assms(2,3) sql_count_key_ne_1 [of jr_id "db_jobs d" i "\<lambda>r. jr_status r = Queued"]
    by (auto simp: move_owner_def queued_in_def)
qed

lemma execute_owner_gone:
  assumes "execute show_rpc t ts i fees w = (Some (NotBound OwnerGone), w')" and "ti_owner i = OJob j"
    and "distinct (map jr_id (db_jobs (en_db w')))"
  shows "\<not> queued_in j (en_db w')"
proof -
  let ?w = "begin_turn t w" and ?an = "tn_answers t"
  have st: "execute_start ?an i fees ?w = (Ended (NotBound OwnerGone), w')" using execute_not_bound [OF assms(1)] .
  then obtain a where s: "sign ?an ?w i (ps_next_nonce (pstate ?w)) fees (ti_purpose i) (ti_to i) (ti_data i) (ti_value i) (ti_gas_limit i) = Ok a"
    by (auto simp: execute_start_def Let_def split: sum.splits)
  have owner: "at_owner a = OJob j" using s assms(2) by (auto simp: sign_def and_then_eq_Ok)
  obtain x y z where "bind_tx ?an a First ?w = (Err (StateConflict x y z), w')"
    using st s by (auto simp: execute_start_def Let_def split: prod.splits sum.splits store_error.splits)
  then have "bind_rounds (an_bind ?an) (en_utc ?w) (en_epoch ?w) a First 6 0 (en_db ?w) = (Some (Err (StateConflict x y z)), en_db w')"
    by (auto simp: bind_tx_def split: prod.splits option.splits)
  from first_bind_conflict [OF bind_rounds_conflict [OF this] owner assms(3)] show ?thesis .
qed

lemma judge_outcome_db: "judge_outcome env out w = (disp, w') \<Longrightarrow> en_db w' = en_db w"
  by (auto simp: judge_outcome_def count_move_def on_stats_def Let_def split: tx_outcome.splits not_bound.splits if_splits)

lemma judge_outcome_dropped:
  "judge_outcome env out w = (disp, w') \<Longrightarrow> disp \<in> {DFailed, DDropped} \<Longrightarrow> out = NotBound OwnerGone"
  by (auto simp: judge_outcome_def Let_def split: tx_outcome.splits not_bound.splits if_splits)

lemma process_not_queued:
  assumes "process env job w = (Some disp, w')" and "disp \<in> {DFailed, DDropped}" and "distinct (map jr_id (db_jobs (en_db w')))"
  shows "\<not> queued_in (qj_id job) (en_db w')"
proof -
  obtain r w1 where p: "prepare_job env job w = (r, w1)" by (cases "prepare_job env job w")
  show ?thesis
  proof (cases r)
    case (Inl d)
    then show ?thesis using assms p prepare_job_not_queued by (simp add: process_def)
  next
    case (Inr t)
    then obtain i fees cost where t: "prepare_job env job w = (Ok (i, fees, cost), w1)" using p by (cases t) auto
    let ?w = "count_move (my_signer w1, SProcessing) (my_signer w1, SInFlight) w1"
    obtain out w2 where e: "execute (we_show_rpc env) (we_turn env) (we_turns env) i fees ?w = (Some out, w2)"
      and j: "judge_outcome env out w2 = (disp, w')"
      using assms(1) by (auto simp: process_def t Let_def split: prod.splits option.splits)
    have "out = NotBound OwnerGone" using judge_outcome_dropped [OF j assms(2)] .
    moreover have "ti_owner i = OJob (qj_id job)"
      using t by (auto simp: prepare_job_def Let_def split: prod.splits sum.splits if_splits)
    ultimately show ?thesis using execute_owner_gone [of _ _ _ i fees ?w w2] e judge_outcome_db [OF j] assms(3) by simp
  qed
qed

lemma dispose_db [simp]: "en_db (dispose job disp w) = en_db w"
  by (simp add: dispose_def on_queue_def count_move_def on_stats_def split: disposition.split)


text \<open>A job whose deadline has passed and that the store does not know (it was cancelled and purged).\<close>

definition late_job :: queued_job where
  "late_job = (sample_job 100)\<lparr>qj_request := sample_request\<lparr>rq_deadline := Some 0\<rparr>\<rparr>"

definition demo_worker :: runtime where
  "demo_worker = demo_treasury\<lparr>en_ctx := demo_ctx\<lparr>cc_started := True,
     cc_queue := \<lparr>q_jobs = [late_job], q_known = {100}, q_overflow = 0, q_window = 8\<rparr>\<rparr>,
     en_pair := demo_signer\<lparr>pa_state := (pair_new 0 False)\<lparr>ps_pause := None, ps_recovery_requested := False\<rparr>\<rparr>\<rparr>"

definition calm_worker :: worker_env where
  "calm_worker = \<lparr>we_estimate = Ok 21000, we_latest = Ok None, we_serve = (\<lambda>_ w. (NoTreasury, w)), we_requeue = Works,
     we_fail = Works, we_fail_id = 600, we_max_requeues = 3, we_turn = quiet_turn, we_turns = [],
     we_show_rpc = (\<lambda>_. []), we_show_signer = (\<lambda>_. []), we_unhex = (\<lambda>_. None)\<rparr>"

lemma demo_worker_turn:
  "\<exists>w'. worker_turn calm_worker calm_recovery False False False id demo_worker = (Worked late_job DDropped, w') \<and> en_db w' = empty_db"
  by (simp add: worker_turn_def worker_blocked_def demo_worker_def demo_treasury_def demo_runtime_def demo_signer_def demo_ctx_def
      chain_ctx_new_def pair_new_def is_paused_def is_accepting_work_def chain_status_of_def try_pop_def on_queue_def on_ctx_def on_pair_def
      set_current_def count_move_def on_stats_def process_def prepare_job_def late_job_def sample_job_def sample_request_def
      fail_unbound_def calm_worker_def faulty_def fail_job_def announce_def empty_db_def Let_def)


end
