(* ===== verification/Limiter.thy ===== *)
theory Limiter
  imports Complex_Main Rpc_Client
begin

text \<open>
  The priority-aware rate limiter, \<^verbatim>\<open>crates/gum-engine/src/rpc/limiter.rs\<close>: one token bucket over all chains with
  three lanes. The \<open>f64\<close> quantities of the dispatcher are rationals here, so the theorems are about the
  arithmetic the code means, without rounding. A waiter is represented by whether its caller is still waiting;
  what arrives on the channels between two rounds and the times of the rounds are arguments.

  Shown is that the limiter never grants more than the burst and the configured rate allow, whatever arrives
  and however often the provider throttles, and that the two lower lanes are served first while they have
  credit.
\<close>

section \<open>State\<close>

record dispatcher =
  dp_rate :: rat
  dp_reserved :: "lane \<Rightarrow> rat"
  dp_queue :: "lane \<Rightarrow> bool list"
  dp_seen_penalties :: u64
  dp_factor :: rat
  dp_tokens :: rat
  dp_credit :: "lane \<Rightarrow> rat"
  dp_last :: instant
  dp_granted :: "lane \<Rightarrow> u64"

definition burst :: "dispatcher \<Rightarrow> rat" where
  "burst d = max (dp_rate d / 5) 1"

definition limiter_spawn :: "instant \<Rightarrow> u32 \<Rightarrow> u32 \<Rightarrow> u32 \<Rightarrow> dispatcher" where
  "limiter_spawn now rate_per_sec reserved_read reserved_background =
     (let rate = of_nat (unat (max rate_per_sec 1)) in
      \<lparr>dp_rate = rate,
       dp_reserved = (\<lambda>l. case l of LSend \<Rightarrow> 0 | LRead \<Rightarrow> of_nat (unat reserved_read) | LBackground \<Rightarrow> of_nat (unat reserved_background)),
       dp_queue = (\<lambda>_. []), dp_seen_penalties = 0, dp_factor = 1, dp_tokens = max (rate / 5) 1, dp_credit = (\<lambda>_. 0),
       dp_last = now, dp_granted = (\<lambda>_. 0)\<rparr>)"

section \<open>A round\<close>

definition secs_between :: "instant \<Rightarrow> instant \<Rightarrow> rat" where
  "secs_between a b = of_nat (elapsed b a) / 1000000000"

definition receive :: "(lane \<Rightarrow> bool list) \<Rightarrow> dispatcher \<Rightarrow> dispatcher" where
  "receive arrivals d = d\<lparr>dp_queue := (\<lambda>l. dp_queue d l @ arrivals l)\<rparr>"

definition refill :: "instant \<Rightarrow> u64 \<Rightarrow> dispatcher \<Rightarrow> dispatcher" where
  "refill now penalties d =
     (let el = secs_between (dp_last d) now;
          d = d\<lparr>dp_last := now\<rparr>;
          d = (if penalties \<noteq> dp_seen_penalties d
               then d\<lparr>dp_seen_penalties := penalties, dp_factor := max (dp_factor d * (1 / 2)) (1 / 4), dp_tokens := min (dp_tokens d) 1\<rparr>
               else d\<lparr>dp_factor := min (dp_factor d + (1 / 20) * el) 1\<rparr>);
          rate = dp_rate d * dp_factor d
      in d\<lparr>dp_tokens := min (dp_tokens d + el * rate) (burst d),
           dp_credit := (\<lambda>l. if l = LSend then dp_credit d l
                              else min (dp_credit d l + el * dp_reserved d l * dp_factor d) (max (dp_reserved d l) 1))\<rparr>)"

definition choose_lane :: "dispatcher \<Rightarrow> lane option" where
  "choose_lane d =
     (if dp_queue d LRead \<noteq> [] \<and> 1 \<le> dp_credit d LRead then Some LRead
      else if dp_queue d LBackground \<noteq> [] \<and> 1 \<le> dp_credit d LBackground then Some LBackground
      else find (\<lambda>l. dp_queue d l \<noteq> []) [LSend, LRead, LBackground])"

text \<open>The waiter at the head of the lane is granted; the token of one that gave up is not spent.\<close>

definition grant_head :: "lane \<Rightarrow> dispatcher \<Rightarrow> dispatcher" where
  "grant_head l d =
     (let d' = d\<lparr>dp_queue := (dp_queue d)(l := tl (dp_queue d l))\<rparr>
      in if hd (dp_queue d l)
         then d'\<lparr>dp_tokens := dp_tokens d - 1,
                 dp_credit := (if l = LSend then dp_credit d else (dp_credit d)(l := max (dp_credit d l - 1) 0)),
                 dp_granted := (dp_granted d)(l := dp_granted d l + 1)\<rparr>
         else d')"

definition waiting_count :: "dispatcher \<Rightarrow> nat" where
  "waiting_count d = length (dp_queue d LSend) + length (dp_queue d LRead) + length (dp_queue d LBackground)"

lemma choose_lane_waiting: "choose_lane d = Some l \<Longrightarrow> dp_queue d l \<noteq> []"
  by (auto simp: choose_lane_def split: if_splits)

lemma waiting_grant_head: "dp_queue d l \<noteq> [] \<Longrightarrow> waiting_count (grant_head l d) < waiting_count d"
  by (cases l) (auto simp: grant_head_def waiting_count_def Let_def neq_Nil_conv)

text \<open>The grant loop; its result counts the grants.\<close>

function grant_loop :: "dispatcher \<Rightarrow> nat \<times> dispatcher" where
  "grant_loop d =
     (if dp_tokens d < 1 then (0, d)
      else (case choose_lane d of
              None \<Rightarrow> (0, d)
            | Some l \<Rightarrow>
                (case grant_loop (grant_head l d) of
                   (n, d') \<Rightarrow> ((if hd (dp_queue d l) then 1 else 0) + n, d'))))"
  by pat_completeness auto

termination
  by (relation "measure waiting_count") (auto simp: waiting_grant_head choose_lane_waiting)

declare grant_loop.simps [simp del]

definition limiter_round :: "instant \<times> u64 \<times> (lane \<Rightarrow> bool list) \<Rightarrow> dispatcher \<Rightarrow> nat \<times> dispatcher" where
  "limiter_round ev d = (case ev of (now, penalties, arrivals) \<Rightarrow> grant_loop (refill now penalties (receive arrivals d)))"

text \<open>How long the dispatcher sleeps after a round with waiters left.\<close>

definition round_wait :: "dispatcher \<Rightarrow> rat" where
  "round_wait d = min (max (max (1 - dp_tokens d) 0 / (dp_rate d * dp_factor d)) (1 / 2000)) (1 / 4)"

fun limiter_run :: "(instant \<times> u64 \<times> (lane \<Rightarrow> bool list)) list \<Rightarrow> dispatcher \<Rightarrow> nat \<times> dispatcher" where
  "limiter_run [] d = (0, d)"
| "limiter_run (ev # evs) d =
     (case limiter_round ev d of (n, d) \<Rightarrow> (case limiter_run evs d of (m, d) \<Rightarrow> (n + m, d)))"

section \<open>The rate\<close>

definition limiter_ok :: "dispatcher \<Rightarrow> bool" where
  "limiter_ok d \<longleftrightarrow> 1 \<le> dp_rate d \<and> 1 / 4 \<le> dp_factor d \<and> dp_factor d \<le> 1 \<and> 0 \<le> dp_tokens d \<and> dp_tokens d \<le> burst d"

lemma limiter_ok_spawn: "limiter_ok (limiter_spawn now r a b)"
proof -
  have "1 \<le> unat (max r 1)" by (simp add: max_def word_le_nat_alt)
  then have "(1 :: rat) \<le> of_nat (unat (max r 1))" by (metis of_nat_1 of_nat_le_iff)
  then show ?thesis by (simp add: limiter_ok_def limiter_spawn_def burst_def Let_def)
qed

lemma secs_nonneg: "0 \<le> secs_between a b"
  by (simp add: secs_between_def)

lemma receive_fields [simp]:
  "limiter_ok (receive a d) = limiter_ok d" "dp_tokens (receive a d) = dp_tokens d" "dp_rate (receive a d) = dp_rate d"
  "dp_last (receive a d) = dp_last d" "dp_factor (receive a d) = dp_factor d"
  by (simp_all add: receive_def limiter_ok_def burst_def)

lemma refill_rate [simp]: "dp_rate (refill now p d) = dp_rate d" "dp_last (refill now p d) = now"
  by (simp_all add: refill_def Let_def)

lemma refill_factor: "limiter_ok d \<Longrightarrow> 1 / 4 \<le> dp_factor (refill now p d) \<and> dp_factor (refill now p d) \<le> 1"
  using secs_nonneg [of "dp_last d" now] by (auto simp: refill_def limiter_ok_def Let_def le_max_iff_disj min_def)

lemma refill_tokens:
  "dp_tokens (refill now p d) =
     min ((if p \<noteq> dp_seen_penalties d then min (dp_tokens d) 1 else dp_tokens d)
          + secs_between (dp_last d) now * (dp_rate d * dp_factor (refill now p d))) (burst d)"
  by (simp add: refill_def burst_def Let_def)

lemma refill_ok:
  assumes "limiter_ok d"
  shows "limiter_ok (refill now p d)" and "dp_tokens (refill now p d) \<le> dp_tokens d + secs_between (dp_last d) now * dp_rate d"
proof -
  let ?el = "secs_between (dp_last d) now" and ?f = "dp_factor (refill now p d)"
  have f: "1 / 4 \<le> ?f" "?f \<le> 1" using refill_factor [OF assms] by blast+
  have r: "1 \<le> dp_rate d" and t: "0 \<le> dp_tokens d" using assms by (simp_all add: limiter_ok_def)
  have el: "0 \<le> ?el" by (rule secs_nonneg)
  have rf: "0 \<le> dp_rate d * ?f" "dp_rate d * ?f \<le> dp_rate d" using r f by (simp_all add: mult_left_le)
  have add: "0 \<le> ?el * (dp_rate d * ?f)" "?el * (dp_rate d * ?f) \<le> ?el * dp_rate d"
    using el rf by (simp_all add: mult_left_mono)
  have b: "1 \<le> burst d" by (simp add: burst_def)
  have tok: "0 \<le> dp_tokens (refill now p d)" "dp_tokens (refill now p d) \<le> burst d"
    using add(1) t b by (simp_all add: refill_tokens)
  have "burst (refill now p d) = burst d" by (simp add: burst_def)
  then show "limiter_ok (refill now p d)" using f r tok by (simp add: limiter_ok_def)
  show "dp_tokens (refill now p d) \<le> dp_tokens d + ?el * dp_rate d"
  proof -
    let ?t = "if p \<noteq> dp_seen_penalties d then min (dp_tokens d) 1 else dp_tokens d"
    have "dp_tokens (refill now p d) \<le> ?t + ?el * (dp_rate d * ?f)" unfolding refill_tokens by (rule min.cobounded1)
    also have "\<dots> \<le> dp_tokens d + ?el * dp_rate d" using add(2) by (intro add_mono) simp_all
    finally show ?thesis .
  qed
qed

lemma grant_head_fields [simp]:
  "dp_rate (grant_head l d) = dp_rate d" "dp_factor (grant_head l d) = dp_factor d" "dp_last (grant_head l d) = dp_last d"
  "dp_tokens (grant_head l d) = dp_tokens d - (if hd (dp_queue d l) then 1 else 0)" "burst (grant_head l d) = burst d"
  by (simp_all add: grant_head_def burst_def Let_def)

lemma grant_loop_spends:
  "grant_loop d = (n, d') \<Longrightarrow> limiter_ok d
   \<Longrightarrow> limiter_ok d' \<and> dp_rate d' = dp_rate d \<and> dp_last d' = dp_last d \<and> of_nat n + dp_tokens d' = dp_tokens d"
proof (induction d arbitrary: n d' rule: grant_loop.induct)
  case (1 d)
  show ?case
  proof (cases "dp_tokens d < 1 \<or> choose_lane d = None")
    case True
    then have "grant_loop d = (0, d)" by (subst grant_loop.simps) auto
    then show ?thesis using 1(2,3) by simp
  next
    case False
    then obtain l where l: "\<not> dp_tokens d < 1" "choose_lane d = Some l" by auto
    obtain m d1 where g: "grant_loop (grant_head l d) = (m, d1)" by (cases "grant_loop (grant_head l d)")
    have n: "n = (if hd (dp_queue d l) then 1 else 0) + m" "d' = d1"
      using 1(2) l g by (subst (asm) grant_loop.simps, simp)+
    have "limiter_ok (grant_head l d)" using 1(3) l(1) by (simp add: limiter_ok_def)
    from 1(1) [OF l g this] n show ?thesis by auto
  qed
qed

lemma secs_between_add: "a \<le> b \<Longrightarrow> b \<le> c \<Longrightarrow> secs_between a b + secs_between b c = secs_between a c"
  by (simp add: secs_between_def elapsed_def of_nat_diff field_simps)

lemma limiter_run_spends:
  "limiter_run evs d = (n, d') \<Longrightarrow> limiter_ok d \<Longrightarrow> sorted (dp_last d # map fst evs)
   \<Longrightarrow> limiter_ok d' \<and> dp_last d \<le> dp_last d' \<and> of_nat n + dp_tokens d' \<le> dp_tokens d + secs_between (dp_last d) (dp_last d') * dp_rate d"
proof (induction evs d arbitrary: n d' rule: limiter_run.induct)
  case (1 d)
  then show ?case by (auto simp: secs_between_def elapsed_def)
next
  case (2 ev evs d)
  obtain now p a where ev: "ev = (now, p, a)" by (cases ev)
  obtain n1 d1 where r: "grant_loop (refill now p (receive a d)) = (n1, d1)" by (cases "grant_loop (refill now p (receive a d))")
  obtain n2 where q: "limiter_run evs d1 = (n2, d')" "n = n1 + n2"
    using 2(2) by (auto simp: ev limiter_round_def r split: prod.splits)
  note f = refill_ok [of "receive a d" now p]
  have 1: "limiter_ok d1 \<and> dp_rate d1 = dp_rate d \<and> dp_last d1 = now \<and> of_nat n1 + dp_tokens d1 \<le> dp_tokens d + secs_between (dp_last d) now * dp_rate d"
    using grant_loop_spends [OF r] f 2(3) by auto
  have le: "dp_last d \<le> now" "sorted (dp_last d1 # map fst evs)" using 2(4) 1 by (auto simp: ev)
  have 3: "limiter_ok d' \<and> dp_last d1 \<le> dp_last d' \<and> of_nat n2 + dp_tokens d' \<le> dp_tokens d1 + secs_between (dp_last d1) (dp_last d') * dp_rate d1"
    by (rule 2(1) [OF _ q(1), of n1]) (use 1 le r in \<open>auto simp: ev limiter_round_def\<close>)
  have "secs_between (dp_last d) now * dp_rate d + secs_between now (dp_last d') * dp_rate d = secs_between (dp_last d) (dp_last d') * dp_rate d"
    using secs_between_add [of "dp_last d" now "dp_last d'"] le(1) 1 3 by (simp flip: distrib_right)
  then show ?case using 1 3 le(1) q(2) by auto
qed

lemma grant_loop_last: "dp_last (snd (grant_loop d)) = dp_last d"
proof (induction d rule: grant_loop.induct)
  case (1 d)
  show ?case by (subst grant_loop.simps) (use 1 in \<open>auto split: option.splits prod.splits\<close>)
qed

lemma limiter_run_last: "limiter_run evs d = (n, d') \<Longrightarrow> dp_last d' = last (dp_last d # map fst evs)"
proof (induction evs d arbitrary: n d' rule: limiter_run.induct)
  case (2 ev evs d)
  obtain now p a where ev: "ev = (now, p, a)" by (cases ev)
  obtain n1 d1 where r: "limiter_round ev d = (n1, d1)" by (cases "limiter_round ev d")
  then have "dp_last d1 = now" using grant_loop_last [of "refill now p (receive a d)"] by (simp add: ev limiter_round_def)
  with 2(1) [OF r [symmetric]] 2(2) r show ?case by (auto simp: ev split: prod.splits)
qed simp


text \<open>Three sends at once on a limiter of five requests per second: one is granted, the others wait.\<close>

definition three_sends :: "lane \<Rightarrow> bool list" where
  "three_sends l = (if l = LSend then [True, True, True] else [])"

lemma three_sends_run: "fst (limiter_run [(1000000, 0, three_sends)] (limiter_spawn 0 5 1 1)) = 1"
proof -
  let ?d0 = "refill 1000000 0 (receive three_sends (limiter_spawn 0 5 1 1))"
  have q: "dp_queue ?d0 = three_sends" by (simp add: refill_def receive_def limiter_spawn_def Let_def fun_eq_iff)
  have t: "dp_tokens ?d0 = 1"
    by (simp add: refill_def receive_def limiter_spawn_def Let_def burst_def secs_between_def elapsed_def max_def word_le_nat_alt)
  have c: "choose_lane ?d0 = Some LSend" by (simp add: choose_lane_def q three_sends_def)
  let ?d1 = "grant_head LSend ?d0"
  have "grant_loop ?d1 = (0, ?d1)" by (subst grant_loop.simps) (simp add: q t three_sends_def)
  then have "fst (grant_loop ?d0) = 1" by (subst grant_loop.simps) (simp add: t c, simp add: q three_sends_def)
  then show ?thesis by (simp add: limiter_round_def split: prod.splits)
qed


text \<open>The lower lanes are not starved: while one of them has a waiter and a credit, a send is not granted.\<close>

lemma lower_lanes_go_first:
  "choose_lane d = Some LSend \<Longrightarrow> l \<noteq> LSend \<Longrightarrow> dp_queue d l = [] \<or> dp_credit d l < 1"
  by (cases l) (auto simp: choose_lane_def not_le split: if_splits)

end
