(* ===== verification/Ingest.thy ===== *)
theory Ingest
  imports Store_Events Faults
begin

text \<open>
  \<^verbatim>\<open>store/batcher.rs\<close>: group commit for job ingest. The batcher takes what waits in its channel, writes it as one
  statement, and falls back to one statement per row when that fails. A call to the store can fail before or
  after its commit; what becomes of the \<open>n\<close>-th call of a turn and its clock are \<open>calls n\<close>.

  The theorem says what an acknowledgement is worth: whatever becomes of the calls, every caller gets an
  answer of its own, and a good answer is backed by a row.
\<close>

section \<open>The batcher\<close>

definition MAX_BATCH :: nat where
  "MAX_BATCH = 500"

datatype ingest_error = Unavailable string | Overloaded

text \<open>The first job, what already waits, and, if there is company, what arrives within the linger. Returns
  the batch and how much was taken of either.\<close>

definition batch_of :: "'j \<Rightarrow> 'j list \<Rightarrow> 'j list \<Rightarrow> 'j list \<times> 'j list \<times> 'j list" where
  "batch_of first waiting arriving =
     (let batch = first # take (MAX_BATCH - 1) waiting; rest = drop (MAX_BATCH - 1) waiting in
      if 1 < length batch \<and> length batch < MAX_BATCH
      then let n = MAX_BATCH - length batch in (batch @ take n arriving, rest, drop n arriving)
      else (batch, rest, arriving))"

text \<open>\<open>insert_jobs\<close> over a connection that can break: the insert commits on its own, so an error may come
  back for rows that are stored.\<close>

definition ingest_write :: "fault \<times> timestamp \<Rightarrow> new_job list \<Rightarrow> db \<Rightarrow> (insert_outcome list, store_error) result \<times> db" where
  "ingest_write call jobs d =
     (case insert_jobs (snd call) jobs d of
        (d', r) \<Rightarrow> (case fst call of Works \<Rightarrow> (r, d') | LostBefore e \<Rightarrow> (Err (Db e), d) | LostAfter e \<Rightarrow> (Err (Db e), d')))"

fun rows_one_by_one :: "(nat \<Rightarrow> fault \<times> timestamp) \<Rightarrow> nat \<Rightarrow> new_job list \<Rightarrow> db
    \<Rightarrow> (insert_outcome, store_error) result list \<times> db" where
  "rows_one_by_one calls n [] d = ([], d)"
| "rows_one_by_one calls n (j # js) d =
     (case ingest_write (calls n) [j] d of
        (r, d') \<Rightarrow> (case rows_one_by_one calls (Suc n) js d' of (acks, d'') \<Rightarrow> (and_then r (\<lambda>os. Ok (hd os)) # acks, d'')))"

definition ingest_batch :: "(nat \<Rightarrow> fault \<times> timestamp) \<Rightarrow> new_job list \<Rightarrow> db \<Rightarrow> (insert_outcome, store_error) result list \<times> db" where
  "ingest_batch calls jobs d =
     (case ingest_write (calls 0) jobs d of
        (Ok outcomes, d') \<Rightarrow> (map Ok outcomes, d')
      | (Err _, d') \<Rightarrow> rows_one_by_one calls 1 jobs d')"

text \<open>What the caller makes of it: no room in the channel, the acknowledgement, or a batcher that is gone.\<close>

definition ingest_submit :: "bool \<Rightarrow> (insert_outcome, string) result option \<Rightarrow> (insert_outcome, ingest_error) result" where
  "ingest_submit room ack =
     (if \<not> room then Err Overloaded
      else case ack of
        Some (Ok outcome) \<Rightarrow> Ok outcome
      | Some (Err e) \<Rightarrow> Err (Unavailable e)
      | None \<Rightarrow> Err (Unavailable ''ingest batcher stopped''))"

section \<open>Batches\<close>

text \<open>A batch is bounded, and it takes the jobs in the order they came.\<close>

lemma batch_of_spec:
  assumes "batch_of first waiting arriving = (batch, rest, later)"
  shows "0 < length batch" "length batch \<le> MAX_BATCH" "first # waiting @ arriving = batch @ rest @ later"
proof -
  have "batch = first # take 499 waiting \<and> rest = drop 499 waiting \<and> later = arriving
    \<or> length waiting < 499 \<and> (\<exists>n \<le> 499 - length waiting. batch = first # waiting @ take n arriving \<and> rest = [] \<and> later = drop n arriving)"
    using assms by (auto simp: batch_of_def MAX_BATCH_def Let_def split: if_splits)
  then show "0 < length batch" "length batch \<le> MAX_BATCH" "first # waiting @ arriving = batch @ rest @ later"
    by (auto simp: MAX_BATCH_def)
qed

section \<open>What an acknowledgement is worth\<close>

lemma insert_jobs_grows:
  assumes "insert_jobs now jobs d = (d', r)"
  shows "\<exists>new. db_jobs d' = db_jobs d @ new"
  using assms insert_rows_shape by (fastforce simp: insert_jobs_def split: if_splits sum.splits)

lemma resolved_mono:
  assumes "resolved d1 j out d2" "set (db_jobs d) \<subseteq> set (db_jobs d1)" "set (db_jobs d2) \<subseteq> set (db_jobs d')"
  shows "resolved d j out d'"
  using assms by (cases out) (fastforce simp: resolved_def)+

lemma collect_results_eq_Ok: "collect_results xs = Ok ys \<Longrightarrow> xs = map Ok ys"
  by (induction xs arbitrary: ys) (auto simp: and_then_eq_Ok)

lemma insert_jobs_resolved:
  assumes "insert_jobs now jobs d = (d', Ok outs)" "distinct (map nj_id jobs)"
  shows "list_all2 (\<lambda>j out. resolved d j out d') jobs outs"
proof (cases "jobs = []")
  case False
  with assms(1) obtain t sq ids where ir: "insert_rows now (db_next_seq d) jobs (db_jobs d) = Ok (t, sq, ids)"
    and d': "d' = d\<lparr>db_jobs := t, db_next_seq := sq\<rparr>" and outs: "collect_results (map (insert_outcome_of t ids) jobs) = Ok outs"
    by (auto simp: insert_jobs_def split: sum.splits)
  have "map (insert_outcome_of t ids) jobs = map Ok outs" using collect_results_eq_Ok [OF outs] .
  moreover have "resolved d j out d'" if "j \<in> set jobs" "insert_outcome_of t ids j = Ok out" for j out
    using insert_outcome_resolved [OF ir assms(2) that(1)] that(2) d' by auto
  ultimately show ?thesis
    by (auto simp: list_all2_conv_all_nth list_eq_iff_nth_eq)
qed (use assms in \<open>simp add: insert_jobs_def\<close>)

lemma ingest_write_cases:
  assumes "ingest_write call jobs d = (r, d')"
  shows "store_step\<^sup>*\<^sup>* d d'" "\<exists>new. db_jobs d' = db_jobs d @ new"
    "distinct (map nj_id jobs) \<Longrightarrow> r = Ok outs \<Longrightarrow> list_all2 (\<lambda>j out. resolved d j out d') jobs outs"
proof -
  obtain e x where i: "insert_jobs (snd call) jobs d = (e, x)" by fastforce
  have "d' = d \<or> d' = e" and r: "r = Ok outs \<Longrightarrow> d' = e \<and> x = Ok outs"
    using assms i by (auto simp: ingest_write_def split: fault.splits)
  then show "store_step\<^sup>*\<^sup>* d d'" "\<exists>new. db_jobs d' = db_jobs d @ new"
    using store_step.ingest [OF i] insert_jobs_grows [OF i] by auto
  show "distinct (map nj_id jobs) \<Longrightarrow> r = Ok outs \<Longrightarrow> list_all2 (\<lambda>j out. resolved d j out d') jobs outs"
    using r i insert_jobs_resolved by blast
qed

definition backed_ack :: "db \<Rightarrow> new_job \<Rightarrow> (insert_outcome, store_error) result \<Rightarrow> db \<Rightarrow> bool" where
  "backed_ack d j ack d' = (case ack of Ok out \<Rightarrow> resolved d j out d' | Err _ \<Rightarrow> True)"

lemma backed_ack_mono:
  assumes "backed_ack d1 j ack d2" "db_jobs d1 = db_jobs d @ new" "db_jobs d' = db_jobs d2 @ more'"
  shows "backed_ack d j ack d'"
  using assms(1) resolved_mono [of d1 j _ d2 d d'] assms(2,3) by (auto simp: backed_ack_def split: sum.splits)

lemma rows_one_by_one_spec:
  "rows_one_by_one calls n js d = (acks, d') \<Longrightarrow>
   store_step\<^sup>*\<^sup>* d d' \<and> (\<exists>new. db_jobs d' = db_jobs d @ new) \<and> list_all2 (\<lambda>j ack. backed_ack d j ack d') js acks"
proof (induction calls n js d arbitrary: acks d' rule: rows_one_by_one.induct)
  case (2 calls n j js d)
  obtain r d1 where w: "ingest_write (calls n) [j] d = (r, d1)" by fastforce
  obtain acks1 where rest: "rows_one_by_one calls (Suc n) js d1 = (acks1, d')"
    and acks: "acks = and_then r (\<lambda>os. Ok (hd os)) # acks1"
    using "2.prems" w by (auto split: prod.splits)
  note IH = "2.IH" [OF w [symmetric] rest]
  from ingest_write_cases(2) [OF w] IH obtain n1 n2 where
    grow: "db_jobs d1 = db_jobs d @ n1" "db_jobs d' = db_jobs d1 @ n2" by blast
  have "backed_ack d j (and_then r (\<lambda>os. Ok (hd os))) d1"
  proof (cases r)
    case (Inr outs)
    with ingest_write_cases(3) [OF w] have "list_all2 (\<lambda>j out. resolved d j out d1) [j] outs" by simp
    then show ?thesis by (auto simp: backed_ack_def Inr list_all2_Cons1)
  qed (simp add: backed_ack_def)
  then have "backed_ack d j (and_then r (\<lambda>os. Ok (hd os))) d'" using grow by (auto intro: backed_ack_mono)
  moreover have "list_all2 (\<lambda>j ack. backed_ack d j ack d') js acks1"
    using IH grow(1) by (auto elim!: list_all2_mono intro: backed_ack_mono)
  ultimately show ?case using acks grow IH ingest_write_cases(1) [OF w] by (auto intro: rtranclp_trans)
qed simp

lemma ingest_batch_spec:
  assumes "ingest_batch calls jobs d = (acks, d')" "distinct (map nj_id jobs)"
  shows "store_step\<^sup>*\<^sup>* d d' \<and> (\<exists>new. db_jobs d' = db_jobs d @ new) \<and> list_all2 (\<lambda>j ack. backed_ack d j ack d') jobs acks"
proof -
  obtain r d1 where w: "ingest_write (calls 0) jobs d = (r, d1)" by fastforce
  show ?thesis
  proof (cases r)
    case (Inl e)
    with assms(1) w have "rows_one_by_one calls 1 jobs d1 = (acks, d')" by (simp add: ingest_batch_def)
    from rows_one_by_one_spec [OF this] ingest_write_cases(1,2) [OF w] show ?thesis
      by (auto elim!: list_all2_mono intro: backed_ack_mono rtranclp_trans)
  next
    case (Inr outs)
    with assms(1) w have "acks = map Ok outs" "d' = d1" by (simp_all add: ingest_batch_def)
    with ingest_write_cases [OF w] assms(2) Inr show ?thesis
      by (simp add: list_all2_map2 backed_ack_def)
  qed
qed

text \<open>C23. A job is acknowledged only when it is durable. Whatever becomes of the calls to the store, the batch
  of jobs with distinct identifiers gets one answer per caller, in order; the writes are steps of the store that only add job rows; and a
  caller that gets a good answer is backed by a row: created, by a new queued row with its identifier and key,
  replayed, by the row of the job it is told, a conflict, by a row with its key and another request.\<close>

theorem acknowledged_jobs_are_durable:
  assumes "distinct (map nj_id jobs)"
  shows "case ingest_batch calls jobs d of (acks, d') \<Rightarrow>
    store_step\<^sup>*\<^sup>* d d' \<and> (\<exists>new. db_jobs d' = db_jobs d @ new) \<and> list_all2 (\<lambda>j ack. backed_ack d j ack d') jobs acks"
  using ingest_batch_spec [OF prod.collapse [symmetric] assms] by (simp add: case_prod_beta)

theorem acknowledged_jobs_are_durable_witness:
  "fst (ingest_batch (\<lambda>n. (if n = 0 then LostAfter PoolTimedOut else Works, 1)) [demo_new] empty_db) = [Ok (Replayed 100)]
   \<and> list_all2 (\<lambda>j ack. backed_ack empty_db j ack
       (snd (ingest_batch (\<lambda>n. (if n = 0 then LostAfter PoolTimedOut else Works, 1)) [demo_new] empty_db))) [demo_new] [Ok (Replayed 100)]"
proof -
  let ?calls = "\<lambda>n :: nat. (if n = 0 then LostAfter PoolTimedOut else Works, 1 :: timestamp)"
  have "fst (ingest_batch ?calls [demo_new] empty_db) = [Ok (Replayed 100)]"
    by (simp add: ingest_batch_def ingest_write_def insert_jobs_def empty_db_def key_taken_def insert_outcome_of_def
        demo_new_def new_job_rec_def)
  then show ?thesis
    using acknowledged_jobs_are_durable [where jobs = "[demo_new]" and calls = ?calls and d = empty_db] by (simp add: case_prod_beta)
qed

text \<open>Without an idempotency key the fallback cannot recognise the job whose commit answer was lost: the job
  is stored and will be sent, and its caller is told to retry.\<close>

lemma lost_commit_is_reported_as_failure:
  assumes "nj_idempotency_key j = None" "\<forall>r\<in>set (db_jobs d). jr_id r \<noteq> nj_id j"
    and "calls 0 = (LostAfter e, t)" "fst (calls 1) = Works"
  shows "ingest_batch calls [j] d =
    ([Err unique_violation], d\<lparr>db_jobs := db_jobs d @ [new_job_rec t (db_next_seq d) j], db_next_seq := db_next_seq d + 1\<rparr>)"
  using assms by (cases "calls 1")
    (auto simp: ingest_batch_def ingest_write_def insert_jobs_def key_taken_def new_job_rec_def Let_def)

end
