(* ===== verification/Webhook.thy ===== *)
theory Webhook
  imports Store_Outbox Faults Config Chain_Ctx "HOL-Library.AList"
begin

text \<open>
  Webhook delivery, \<^verbatim>\<open>crates/gum-engine/src/webhook.rs\<close>: the check of the URL a caller supplies, the per-host
  concurrency cap and breaker, the delivery of one claimed row and a round of the claim loop. Parsing of
  URLs (\<open>url\<close>) and of addresses, HMAC, the random jitter and what the receiver answers are arguments.
\<close>

section \<open>Signature\<close>

text \<open>\<open>t=<unix seconds>,v1=<hex hmac>\<close> over \<open><t>.<body>\<close>, with the keyed hash in hexadecimal as an argument.\<close>

definition int_str :: "int \<Rightarrow> string" where
  "int_str n = (if n < 0 then ''-'' @ dec_str (nat (- n)) else dec_str (nat n))"

definition signature_header :: "(string \<Rightarrow> string \<Rightarrow> string) \<Rightarrow> string \<Rightarrow> int \<Rightarrow> string \<Rightarrow> string" where
  "signature_header hmac_hex secret t body =
     ''t='' @ int_str t @ '',v1='' @ hmac_hex secret (int_str t @ ''.'' @ body)"

section \<open>Checking a URL\<close>

datatype ip_addr = V4 u8 u8 u8 u8 | V6 "16 word list"

definition v4_loopback :: "u8 \<Rightarrow> bool" where
  "v4_loopback a \<longleftrightarrow> a = 127"

definition v4_private :: "u8 \<Rightarrow> u8 \<Rightarrow> bool" where
  "v4_private a b \<longleftrightarrow> a = 10 \<or> (a = 172 \<and> 16 \<le> b \<and> b \<le> 31) \<or> (a = 192 \<and> b = 168)"

definition v4_link_local :: "u8 \<Rightarrow> u8 \<Rightarrow> bool" where
  "v4_link_local a b \<longleftrightarrow> a = 169 \<and> b = 254"

fun ip_loopback :: "ip_addr \<Rightarrow> bool" where
  "ip_loopback (V4 a b c d) \<longleftrightarrow> v4_loopback a"
| "ip_loopback (V6 s) \<longleftrightarrow> s = [0, 0, 0, 0, 0, 0, 0, 1]"

fun ip_unspecified :: "ip_addr \<Rightarrow> bool" where
  "ip_unspecified (V4 a b c d) \<longleftrightarrow> a = 0 \<and> b = 0 \<and> c = 0 \<and> d = 0"
| "ip_unspecified (V6 s) \<longleftrightarrow> s = [0, 0, 0, 0, 0, 0, 0, 0]"

fun ip_private :: "ip_addr \<Rightarrow> bool" where
  "ip_private (V4 a b c d) \<longleftrightarrow> v4_private a b \<or> v4_loopback a \<or> v4_link_local a b \<or> ip_unspecified (V4 a b c d)"
| "ip_private (V6 s) \<longleftrightarrow> ip_loopback (V6 s) \<or> ip_unspecified (V6 s)
     \<or> and (hd s) 0xfe00 = 0xfc00 \<or> and (hd s) 0xffc0 = 0xfe80"

record parsed_url =
  pu_scheme :: string
  pu_username :: string
  pu_password :: "string option"
  pu_host :: "string option"
  pu_port_or_default :: "nat option"

record url_world =
  uw_parse :: "string \<Rightarrow> (parsed_url, string) result"
  uw_parse_ip :: "string \<Rightarrow> ip_addr option"
  uw_own_names :: "string list"

definition trim_start_char :: "char \<Rightarrow> string \<Rightarrow> string" where
  "trim_start_char c s = dropWhile (\<lambda>x. x = c) s"

definition trim_end_char :: "char \<Rightarrow> string \<Rightarrow> string" where
  "trim_end_char c s = rev (dropWhile (\<lambda>x. x = c) (rev s))"

definition eq_ignore_case :: "string \<Rightarrow> string \<Rightarrow> bool" where
  "eq_ignore_case a b \<longleftrightarrow> to_lowercase a = to_lowercase b"

definition url_host :: "string \<Rightarrow> string" where
  "url_host h = to_lowercase (trim_end_char CHR '']'' (trim_start_char CHR ''['' h))"

definition host_private :: "string \<Rightarrow> bool" where
  "host_private host \<longleftrightarrow> host = ''localhost'' \<or> suffix ''.internal'' host \<or> suffix ''.local'' host"

definition url_is_self :: "url_world \<Rightarrow> string \<Rightarrow> nat \<Rightarrow> nat \<Rightarrow> bool" where
  "url_is_self uw host port own_port \<longleftrightarrow>
     port = own_port
     \<and> ((case uw_parse_ip uw host of Some ip \<Rightarrow> ip_loopback ip \<or> ip_unspecified ip | None \<Rightarrow> False) \<or> host = ''localhost''
        \<or> list_ex (\<lambda>n. eq_ignore_case n host) (uw_own_names uw))"

definition validate_url :: "url_world \<Rightarrow> webhook_config \<Rightarrow> nat \<Rightarrow> string \<Rightarrow> (unit, string) result" where
  "validate_url uw cfg own_port raw =
     (case uw_parse uw raw of
        Err e \<Rightarrow> Err (''webhook.url is not a valid URL: '' @ e)
      | Ok u \<Rightarrow>
          if pu_scheme u \<notin> {''http'', ''https''} then Err ''webhook.url must use http or https''
          else if pu_username u \<noteq> [] \<or> pu_password u \<noteq> None then Err ''webhook.url must not contain credentials''
          else (case pu_host u of
                  None \<Rightarrow> Err ''webhook.url has no host''
                | Some h \<Rightarrow>
                    let host = url_host h;
                        port = (case pu_port_or_default u of Some p \<Rightarrow> p | None \<Rightarrow> 80)
                    in if wc_host_allowlist cfg \<noteq> [] \<and> \<not> list_ex (\<lambda>x. eq_ignore_case x host) (wc_host_allowlist cfg)
                       then Err (''webhook host `'' @ host @ ''` is not in webhook.host_allowlist'')
                       else if url_is_self uw host port own_port then Err ''webhook.url points at gum-engine itself''
                       else if \<not> wc_allow_private_hosts cfg
                               \<and> (case uw_parse_ip uw host of Some ip \<Rightarrow> ip_private ip | None \<Rightarrow> host_private host)
                       then Err ''webhook.url points at a private address and webhook.allow_private_hosts is false''
                       else Ok ()))"

section \<open>Hosts\<close>

record host_state =
  hs_in_flight :: nat
  hs_consecutive_failures :: u32
  hs_open_until :: "instant option"

definition host_default :: host_state where
  "host_default = \<lparr>hs_in_flight = 0, hs_consecutive_failures = 0, hs_open_until = None\<rparr>"

record hosts =
  ho_map :: "(string \<times> host_state) list"
  ho_max_per_host :: nat

definition host_of :: "hosts \<Rightarrow> string \<Rightarrow> host_state" where
  "host_of hs h = (case map_of (ho_map hs) h of Some s \<Rightarrow> s | None \<Rightarrow> host_default)"

definition put_host :: "string \<Rightarrow> host_state \<Rightarrow> hosts \<Rightarrow> hosts" where
  "put_host h s hs = hs\<lparr>ho_map := AList.update h s (ho_map hs)\<rparr>"

definition try_acquire :: "instant \<Rightarrow> string \<Rightarrow> hosts \<Rightarrow> (unit, duration) result \<times> hosts" where
  "try_acquire now h hs =
     (let s = host_of hs h in
      case (case hs_open_until s of Some u \<Rightarrow> if now < u then Some (u - now) else None | None \<Rightarrow> None) of
        Some wait \<Rightarrow> (Err wait, put_host h s hs)
      | None \<Rightarrow>
          let s = s\<lparr>hs_open_until := None\<rparr>
          in if ho_max_per_host hs \<le> hs_in_flight s then (Err (ms 500), put_host h s hs)
             else (Ok (), put_host h (s\<lparr>hs_in_flight := hs_in_flight s + 1\<rparr>) hs))"

definition breaker_secs :: "u32 \<Rightarrow> u64" where
  "breaker_secs failures = min (push_bit (unat (min (failures - 5) 5)) 5) 120"

definition release_host :: "instant \<Rightarrow> string \<Rightarrow> bool \<Rightarrow> hosts \<Rightarrow> hosts" where
  "release_host now h success hs =
     (case map_of (ho_map hs) h of
        None \<Rightarrow> hs
      | Some s \<Rightarrow>
          let s = s\<lparr>hs_in_flight := hs_in_flight s - 1\<rparr>;
              s = (if success then s\<lparr>hs_consecutive_failures := 0\<rparr>
                   else let n = hs_consecutive_failures s + 1
                        in if 5 \<le> n then s\<lparr>hs_consecutive_failures := n, hs_open_until := Some (now + millis (breaker_secs n * 1000))\<rparr>
                           else s\<lparr>hs_consecutive_failures := n\<rparr>);
              hs = put_host h s hs
          in if 10000 < length (ho_map hs)
             then hs\<lparr>ho_map := filter (\<lambda>(_, s). 0 < hs_in_flight s \<or> hs_open_until s \<noteq> None) (ho_map hs)\<rparr>
             else hs)"

section \<open>Delivering\<close>

text \<open>What the receiver answers: a status, or no response.\<close>

datatype receiver_answer = RStatus nat string | RFailed string

record deliver_env =
  de_host :: "string \<Rightarrow> string"
  de_now :: instant
  de_later :: instant
  de_utc :: timestamp
  de_answer :: receiver_answer
  de_draw :: u64
  de_write :: fault

definition answer_ok :: "receiver_answer \<Rightarrow> bool" where
  "answer_ok a \<longleftrightarrow> (case a of RStatus n _ \<Rightarrow> 200 \<le> n \<and> n < 300 | RFailed _ \<Rightarrow> False)"

definition answer_status :: "receiver_answer \<Rightarrow> int option" where
  "answer_status a = (case a of RStatus n _ \<Rightarrow> Some (int n) | RFailed _ \<Rightarrow> None)"

definition answer_error :: "receiver_answer \<Rightarrow> string" where
  "answer_error a = (case a of RStatus n reason \<Rightarrow> ''receiver answered '' @ dec_str n @ '' '' @ reason | RFailed e \<Rightarrow> e)"

text \<open>The delay before the next attempt in microseconds, or \<open>None\<close> after the last one. The counter of the
  row is a 32-bit integer.\<close>

definition retry_exp :: "webhook_config \<Rightarrow> u32 \<Rightarrow> u64" where
  "retry_exp cfg attempt = min (sat_mul (wc_backoff_base_ms cfg) (push_bit (unat (min attempt 20)) 1)) (wc_backoff_max_ms cfg)"

definition retry_in :: "webhook_config \<Rightarrow> u64 \<Rightarrow> u32 \<Rightarrow> int option" where
  "retry_in cfg draw attempt =
     (if attempt < wc_max_attempts cfg
      then let ex = retry_exp cfg attempt
           in Some (int (unat (ex div 2 + draw mod (ex div 2 + 1))) * 1000)
      else None)"

definition deliver :: "deliver_env \<Rightarrow> webhook_config \<Rightarrow> delivery \<Rightarrow> hosts \<times> db \<Rightarrow> hosts \<times> db" where
  "deliver env cfg dv st =
     (case st of (hs, d) \<Rightarrow>
       let host = de_host env (dv_url dv) in
       case try_acquire (de_now env) host hs of
         (Err wait, hs) \<Rightarrow>
           (hs, snd (faulty (de_write env) (\<lambda>d. Ok (defer_delivery (de_utc env) (dv_id dv) (max (int wait div 1000) 500000) d, ())) d))
       | (Ok _, hs) \<Rightarrow>
           let ok = answer_ok (de_answer env);
               status = answer_status (de_answer env);
               hs = release_host (de_later env) host ok hs
           in if ok
              then (hs, snd (faulty (de_write env)
                      (\<lambda>d. Ok (mark_delivered (de_utc env) (dv_id dv) (case status of Some s \<Rightarrow> s | None \<Rightarrow> 200) d, ())) d))
              else
                let attempt = of_int (dv_attempts dv) + 1
                in (hs, snd (faulty (de_write env)
                      (\<lambda>d. Ok (mark_delivery_failed (de_utc env) (dv_id dv) status (answer_error (de_answer env))
                                 (retry_in cfg (de_draw env) attempt) d, ())) d)))"

section \<open>The claim loop\<close>

definition lease_secs :: "webhook_config \<Rightarrow> int" where
  "lease_secs cfg = int (unat (wc_timeout_ms cfg div 1000 + 30))"

text \<open>A round with free permits: the claimed rows are delivered in the order in which their tasks write;
  the idle wait doubles up to a second while nothing is due.\<close>

definition webhook_round :: "fault \<Rightarrow> timestamp \<Rightarrow> nat \<Rightarrow> (uuid \<Rightarrow> deliver_env) \<Rightarrow> webhook_config \<Rightarrow> hosts \<times> db \<times> duration
    \<Rightarrow> hosts \<times> db \<times> duration" where
  "webhook_round claim_fault now free envs cfg st =
     (case st of (hs, d, idle) \<Rightarrow>
       if free = 0 then (hs, d, idle)
       else (case faulty claim_fault (\<lambda>d. Ok (claim_due_deliveries now free (lease_secs cfg) d)) d of
               (Err e, d) \<Rightarrow> (hs, d, idle)
             | (Ok claimed, d) \<Rightarrow>
                 if claimed = [] then (hs, d, min (idle * 2) (ms 1000))
                 else (case fold (\<lambda>dv st. deliver (envs (dv_id dv)) cfg dv st) claimed (hs, d) of
                         (hs, d) \<Rightarrow> (hs, d, ms 50))))"

section \<open>What an accepted URL is\<close>

lemma validate_url_ok:
  assumes "validate_url uw cfg own_port raw = Ok ()"
  obtains u h where "uw_parse uw raw = Ok u" "pu_scheme u \<in> {''http'', ''https''}" "pu_username u = []" "pu_password u = None"
    "pu_host u = Some h" "wc_host_allowlist cfg = [] \<or> list_ex (\<lambda>x. eq_ignore_case x (url_host h)) (wc_host_allowlist cfg)"
    "\<not> url_is_self uw (url_host h) (case pu_port_or_default u of Some p \<Rightarrow> p | None \<Rightarrow> 80) own_port"
    "wc_allow_private_hosts cfg \<or> (case uw_parse_ip uw (url_host h) of Some ip \<Rightarrow> \<not> ip_private ip | None \<Rightarrow> \<not> host_private (url_host h))"
  using assms by (auto simp: validate_url_def Let_def split: sum.splits option.splits if_splits)

text \<open>The IPv4-mapped form of the loopback address is neither loopback nor private for the check, so a URL with
  it passes, the engine's own port included.\<close>

lemma mapped_loopback_is_accepted:
  assumes "uw_parse uw raw = Ok \<lparr>pu_scheme = ''http'', pu_username = [], pu_password = None,
      pu_host = Some ''[::ffff:7f00:1]'', pu_port_or_default = Some own_port\<rparr>"
    and "uw_parse_ip uw ''::ffff:7f00:1'' = Some (V6 [0, 0, 0, 0, 0, 0xffff, 0x7f00, 1])"
    and "uw_own_names uw = []" "wc_host_allowlist cfg = []"
  shows "validate_url uw cfg own_port raw = Ok ()"
proof -
  have h: "url_host ''[::ffff:7f00:1]'' = ''::ffff:7f00:1''"
    by (simp add: url_host_def trim_end_char_def trim_start_char_def to_lowercase_def char_lower_def)
  show ?thesis using assms by (simp add: validate_url_def Let_def h url_is_self_def)
qed

section \<open>What a delivery does to its row\<close>

definition delivery_step :: "webhook_config \<Rightarrow> deliver_env \<Rightarrow> delivery \<Rightarrow> delivery_rec \<Rightarrow> delivery_rec \<Rightarrow> bool" where
  "delivery_step cfg env dv w w' \<longleftrightarrow>
     w' = w
     \<or> wd_id w = dv_id dv \<and> wd_id w' = wd_id w \<and> wd_job_id w' = wd_job_id w \<and> wd_sequence w' = wd_sequence w
       \<and> wd_url w' = wd_url w \<and> wd_payload w' = wd_payload w
       \<and> (wd_status w' = wd_status w \<and> wd_attempts w' = wd_attempts w \<and> de_utc env \<le> wd_next_attempt_at w'
          \<or> wd_status w' = wd_status w \<and> \<not> answer_ok (de_answer env) \<and> wd_attempts w' = wd_attempts w + 1
            \<and> de_utc env \<le> wd_next_attempt_at w' \<and> wd_next_attempt_at w' \<le> de_utc env + 1000 * int (unat (wc_backoff_max_ms cfg))
          \<or> wd_status w' = DDelivered \<and> answer_ok (de_answer env) \<and> wd_attempts w' = wd_attempts w + 1
          \<or> wd_status w' = DDead \<and> \<not> answer_ok (de_answer env) \<and> wd_attempts w' = wd_attempts w + 1
            \<and> wc_max_attempts cfg \<le> of_int (dv_attempts dv) + 1)"

lemma delivery_step_refl [simp]: "delivery_step cfg env dv w w"
  by (simp add: delivery_step_def)

lemma list_all2_sql_update:
  "(\<And>w. R w w) \<Longrightarrow> (\<And>w. p w \<Longrightarrow> R w (f w)) \<Longrightarrow> list_all2 R t (sql_update p f t)"
  by (induction t) (auto simp: sql_update_def)

lemma retry_in_bound:
  assumes "retry_in cfg draw attempt = Some us"
  shows "0 \<le> us \<and> us \<le> 1000 * int (unat (wc_backoff_max_ms cfg))"
proof -
  let ?ex = "retry_exp cfg attempt"
  let ?h = "unat ?ex div 2"
  have us: "us = int (unat (?ex div 2 + draw mod (?ex div 2 + 1))) * 1000"
    using assms by (auto simp: retry_in_def Let_def split: if_splits)
  have lt: "unat ?ex < 2 ^ 64" using unat_lt_pow [of ?ex] by simp
  have d: "unat (?ex div 2) = ?h" by (simp add: unat_div)
  have d1: "unat (?ex div 2 + 1) = ?h + 1" using lt d by (simp add: unat_word_ariths)
  have m: "unat (draw mod (?ex div 2 + 1)) \<le> ?h" using d1 mod_less_divisor [of "?h + 1" "unat draw"] by (simp add: unat_mod)
  have "unat (?ex div 2 + draw mod (?ex div 2 + 1)) \<le> unat (?ex div 2) + unat (draw mod (?ex div 2 + 1))"
    by (simp add: unat_word_ariths)
  also have "\<dots> \<le> ?h + ?h" using d m by simp
  also have "\<dots> \<le> unat ?ex" by simp
  also have "\<dots> \<le> unat (wc_backoff_max_ms cfg)" by (simp add: retry_exp_def flip: word_le_nat_alt)
  finally show ?thesis by (simp add: us flip: word_le_nat_alt word_le_def)
qed

text \<open>The three writes, as steps of the row.\<close>

lemma deferred_step:
  "0 \<le> us \<Longrightarrow> list_all2 (delivery_step cfg env dv) (db_deliveries d) (db_deliveries (defer_delivery (de_utc env) (dv_id dv) us d))"
  unfolding defer_delivery_def by (simp, rule list_all2_sql_update) (simp_all add: delivery_step_def)

lemma delivered_step:
  "answer_ok (de_answer env)
   \<Longrightarrow> list_all2 (delivery_step cfg env dv) (db_deliveries d) (db_deliveries (mark_delivered (de_utc env) (dv_id dv) st d))"
  unfolding mark_delivered_def by (simp, rule list_all2_sql_update) (simp_all add: delivery_step_def)

lemma failed_step:
  assumes "\<not> answer_ok (de_answer env)"
  shows "list_all2 (delivery_step cfg env dv) (db_deliveries d)
    (db_deliveries (mark_delivery_failed (de_utc env) (dv_id dv) st err (retry_in cfg draw (of_int (dv_attempts dv) + 1)) d))"
proof (cases "retry_in cfg draw (of_int (dv_attempts dv) + 1)")
  case None
  then have "wc_max_attempts cfg \<le> of_int (dv_attempts dv) + 1" by (simp add: retry_in_def Let_def not_less split: if_splits)
  with assms have r: "delivery_step cfg env dv w (w\<lparr>wd_status := DDead, wd_attempts := wd_attempts w + 1, wd_last_status_code := st,
      wd_last_error := Some err\<rparr>)" if "wd_id w = dv_id dv" for w using that by (simp add: delivery_step_def)
  show ?thesis unfolding mark_delivery_failed_def None option.case
    by simp (rule list_all2_sql_update, rule delivery_step_refl, rule r)
next
  case (Some us)
  from assms retry_in_bound [OF Some] have r: "delivery_step cfg env dv w (w\<lparr>wd_attempts := wd_attempts w + 1,
      wd_last_status_code := st, wd_last_error := Some err, wd_next_attempt_at := de_utc env + us\<rparr>)" if "wd_id w = dv_id dv" for w
    using that by (simp add: delivery_step_def)
  show ?thesis unfolding mark_delivery_failed_def Some option.case
    by simp (rule list_all2_sql_update, rule delivery_step_refl, rule r)
qed

lemma faulty_rows:
  assumes "list_all2 (delivery_step cfg env dv) (db_deliveries d) (db_deliveries (f d))"
  shows "list_all2 (delivery_step cfg env dv) (db_deliveries d) (db_deliveries (snd (faulty flt (\<lambda>d. Ok (f d, ())) d)))"
  by (cases rule: faulty_cases [of flt "\<lambda>d. Ok (f d, ())" d]) (use assms in \<open>auto intro: list_all2_refl\<close>)

text \<open>C40. A delivery is never lost and never given up early. Whatever the receiver answers, whatever the per-host
  cap and breaker say and whatever becomes of the write, delivering an event touches no other row and nothing
  of the event itself; the row becomes delivered only on an answer of the receiver in the 200s, dead only on a
  failure that exhausts the configured attempts, and otherwise keeps its status, counted as an attempt
  exactly when one was made, with the next attempt no later than the configured longest backoff.\<close>

theorem delivery_moves_for_cause:
  "list_all2 (delivery_step cfg env dv) (db_deliveries d) (db_deliveries (snd (deliver env cfg dv (hs, d))))"
proof -
  obtain r hs' where a: "try_acquire (de_now env) (de_host env (dv_url dv)) hs = (r, hs')"
    by (cases "try_acquire (de_now env) (de_host env (dv_url dv)) hs")
  show ?thesis
  proof (cases r)
    case (Inl wait)
    have "0 \<le> max (int wait div 1000) 500000" by simp
    from faulty_rows [where f = "defer_delivery (de_utc env) (dv_id dv) (max (int wait div 1000) 500000)", OF deferred_step [OF this]]
    show ?thesis using a Inl by (simp add: deliver_def)
  next
    case (Inr u)
    show ?thesis
    proof (cases "answer_ok (de_answer env)")
      case True
      let ?st = "case answer_status (de_answer env) of Some s \<Rightarrow> s | None \<Rightarrow> 200"
      from faulty_rows [where f = "mark_delivered (de_utc env) (dv_id dv) ?st", OF delivered_step [OF True]]
      show ?thesis using a Inr True by (simp add: deliver_def Let_def)
    next
      case False
      let ?f = "mark_delivery_failed (de_utc env) (dv_id dv) (answer_status (de_answer env)) (answer_error (de_answer env))
        (retry_in cfg (de_draw env) (of_int (dv_attempts dv) + 1))"
      from faulty_rows [where f = ?f, OF failed_step [OF False]]
      show ?thesis using a Inr False by (simp add: deliver_def Let_def)
    qed
  qed
qed

section \<open>The per-host cap\<close>

text \<open>No host ever has more deliveries in flight than allowed.\<close>

definition hosts_ok :: "hosts \<Rightarrow> bool" where
  "hosts_ok hs \<longleftrightarrow> distinct (map fst (ho_map hs)) \<and> (\<forall>(h, s) \<in> set (ho_map hs). hs_in_flight s \<le> ho_max_per_host hs)"

lemma hosts_ok_in_flight: "hosts_ok hs \<Longrightarrow> hs_in_flight (host_of hs h) \<le> ho_max_per_host hs"
  by (auto simp: hosts_ok_def host_of_def host_default_def split: option.split dest: map_of_SomeD)

lemma set_alist_update: "set (AList.update k v al) \<subseteq> insert (k, v) (set al)"
  by (induction al) auto

lemma put_host_ok: "hosts_ok hs \<Longrightarrow> hs_in_flight s \<le> ho_max_per_host hs \<Longrightarrow> hosts_ok (put_host h s hs)"
  using set_alist_update [of h s "ho_map hs"] by (auto simp: hosts_ok_def put_host_def distinct_update)

lemma try_acquire_ok: "hosts_ok hs \<Longrightarrow> try_acquire now h hs = (r, hs') \<Longrightarrow> hosts_ok hs'"
  using hosts_ok_in_flight [of hs h]
  by (auto simp: try_acquire_def Let_def intro!: put_host_ok split: option.splits if_splits)

text \<open>When the breaker's time is up, every waiting delivery up to the cap is let through, not one.\<close>

lemma half_open_lets_the_cap_through:
  assumes "ho_map hs = [(h, \<lparr>hs_in_flight = 0, hs_consecutive_failures = 5, hs_open_until = Some u\<rparr>)]" "u \<le> now" "ho_max_per_host hs = 2"
  shows "\<exists>hs1 hs2. try_acquire now h hs = (Ok (), hs1) \<and> try_acquire now h hs1 = (Ok (), hs2)"
  using assms by (simp add: try_acquire_def host_of_def put_host_def Let_def)

end
