(* ===== verification/Api.thy ===== *)
theory Api
  imports Ingest Webhook Rpc_Client Tx_Driver Funds "HOL-Library.Product_Lexorder" "HOL-Library.List_Lexorder" "HOL-Library.Char_ord"
begin

text \<open>
  \<^verbatim>\<open>crates/gum-engine/src/api.rs\<close>: the HTTP handlers. The state is what they reach of \<open>Engine\<close>: the configuration,
  the database behind the store, the counters, the chains with their RPC clients, the pairs, and the flags.
  What third-party crates compute (parsing an address, hexadecimal, 256-bit numbers and URLs, SHA-256, the debug
  text of a date) is a record of functions; the body as the deserialiser accepts it and the idempotency header
  are part of the call. JSON numbers are integers; a number with a fraction is not an amount and is refused
  like any other JSON value.
\<close>

section \<open>State, errors, answers\<close>

record api_state =
  ap_cfg :: config
  ap_db :: db
  ap_stats :: stats
  ap_chains :: "(u64, chain_ctx \<times> rpc_client) btree"
  ap_pairs :: "(u64 \<times> address, pair) btree"
  ap_leader :: bool
  ap_global_pause :: bool
  ap_webhook_wake :: bool
  ap_epoch :: int

record api_error =
  ae_status :: nat
  ae_code :: string
  ae_message :: string

definition api_invalid :: "string \<Rightarrow> api_error" where
  "api_invalid m = \<lparr>ae_status = 400, ae_code = ''invalid_request'', ae_message = m\<rparr>"

definition api_not_found :: "string \<Rightarrow> api_error" where
  "api_not_found m = \<lparr>ae_status = 404, ae_code = ''not_found'', ae_message = m\<rparr>"

definition api_unavailable :: "string \<Rightarrow> string \<Rightarrow> api_error" where
  "api_unavailable code m = \<lparr>ae_status = 503, ae_code = code, ae_message = m\<rparr>"

type_synonym http_response = "nat \<times> json"

definition into_response :: "api_error \<Rightarrow> http_response" where
  "into_response e =
     (ae_status e, JObj [(''error'', JObj [(''code'', JStr (ae_code e)), (''message'', JStr (ae_message e))])])"

definition map_err :: "('e \<Rightarrow> 'f) \<Rightarrow> ('a, 'e) result \<Rightarrow> ('a, 'f) result" where
  "map_err f r = (case r of Err e \<Rightarrow> Err (f e) | Ok v \<Rightarrow> Ok v)"

lemma map_err_Ok [simp]: "map_err f r = Ok v \<longleftrightarrow> r = Ok v"
  by (simp add: map_err_def split: sum.split)

text \<open>Lookups of \<open>Engine\<close>.\<close>

definition engine_chain :: "api_state \<Rightarrow> u64 \<Rightarrow> (chain_ctx \<times> rpc_client) option" where
  "engine_chain s i = bt_get (ap_chains s) i"

definition engine_pair :: "api_state \<Rightarrow> u64 \<times> address \<Rightarrow> pair option" where
  "engine_pair s k = bt_get (ap_pairs s) k"

definition pairs_on :: "api_state \<Rightarrow> u64 \<Rightarrow> pair list" where
  "pairs_on s i = filter (\<lambda>p. pk_chain_id (pa_key p) = i) (map snd (ap_pairs s))"

definition put_chain :: "chain_ctx \<Rightarrow> api_state \<Rightarrow> api_state" where
  "put_chain c s = s\<lparr>ap_chains := map (\<lambda>(i, x, cl). (i, if i = cc_chain_id c then c else x, cl)) (ap_chains s)\<rparr>"

definition notify_webhooks :: "api_state \<Rightarrow> api_state" where
  "notify_webhooks s = s\<lparr>ap_webhook_wake := True\<rparr>"

section \<open>Health\<close>

definition still_booting :: "api_state \<Rightarrow> chain_ctx \<Rightarrow> bool" where
  "still_booting s c = (\<not> cc_started c \<or> (\<exists>p\<in>set (pairs_on s (cc_chain_id c)). reason_of (pa_state p) = Some Booting))"

definition readyz :: "bool \<Rightarrow> api_state \<Rightarrow> nat \<times> u64 list" where
  "readyz db_answers s =
     (let booting = map cc_chain_id (filter (still_booting s) (map (fst \<circ> snd) (ap_chains s)))
      in (if db_answers \<and> ap_leader s \<and> booting = [] then 200 else 503, booting))"

section \<open>Submitting a job\<close>

record submit_body =
  sb_chain_id :: u64
  sb_to :: string
  sb_data :: "string option"
  sb_value :: "json option"
  sb_gas_limit :: "json option"
  sb_deadline :: "timestamp option"
  sb_webhook_url :: string

record libs =
  li_address :: "string \<Rightarrow> address option"
  li_hex :: "string \<Rightarrow> bytes option"
  li_radix :: "nat \<Rightarrow> string \<Rightarrow> u256 option"
  li_sha256_hex :: "string \<Rightarrow> string"
  li_show_deadline :: "timestamp option \<Rightarrow> string"
  li_urls :: url_world
  li_store_error :: "store_error \<Rightarrow> string"

text \<open>A request as it arrives: the body or the deserialiser's complaint, the idempotency header if there is
  one (an error when it is not ASCII), the clocks, the date, and the fresh identifier.\<close>

record submit_call =
  sc_body :: "(submit_body, string) result"
  sc_key :: "(string, unit) result option"
  sc_started :: instant
  sc_utc :: timestamp
  sc_day :: int
  sc_uuid :: uuid

definition strip_prefix :: "string \<Rightarrow> string \<Rightarrow> string option" where
  "strip_prefix p s = (if prefix p s then Some (drop (length p) s) else None)"

definition parse_amount :: "libs \<Rightarrow> json \<Rightarrow> string \<Rightarrow> (u256, api_error) result" where
  "parse_amount l v field =
     (case (case v of
              JStr s \<Rightarrow> (case strip_prefix ''0x'' s of Some hex \<Rightarrow> li_radix l 16 hex | None \<Rightarrow> li_radix l 10 s)
            | JNum n \<Rightarrow> if 0 \<le> n \<and> n < 2 ^ 64 then Some (word_of_int n) else None
            | _ \<Rightarrow> None) of
        Some x \<Rightarrow> Ok x
      | None \<Rightarrow> Err (api_invalid (''`'' @ field @ ''` must be a non-negative integer (decimal string, 0x-hex string or number)'')))"

definition intrinsic_gas :: "bytes \<Rightarrow> u64" where
  "intrinsic_gas data =
     (let zeros = of_nat (length (filter (\<lambda>b. b = 0) data)) in 21000 + zeros * 4 + (of_nat (length data) - zeros) * 16)"

definition parse_data :: "libs \<Rightarrow> string option \<Rightarrow> (bytes, api_error) result" where
  "parse_data l d =
     (if d = None \<or> d = Some '''' \<or> d = Some ''0x'' then Ok []
      else case d of
        None \<Rightarrow> Ok []
      | Some s \<Rightarrow> (case li_hex l (case strip_prefix ''0x'' s of Some h \<Rightarrow> h | None \<Rightarrow> s) of
          Some b \<Rightarrow> Ok b
        | None \<Rightarrow> Err (api_invalid ''`data` must be 0x-hex'')))"

definition parse_value :: "libs \<Rightarrow> json option \<Rightarrow> (u256, api_error) result" where
  "parse_value l v = (case v of None \<Rightarrow> Ok 0 | Some j \<Rightarrow> parse_amount l j ''value'')"

definition parse_gas_limit :: "libs \<Rightarrow> json option \<Rightarrow> (u64 option, api_error) result" where
  "parse_gas_limit l v =
     (case v of
        None \<Rightarrow> Ok None
      | Some JNull \<Rightarrow> Ok None
      | Some j \<Rightarrow> and_then (parse_amount l j ''gas_limit'') (\<lambda>x.
          if unat x < 2 ^ 64 then Ok (Some (ucast x)) else Err (api_invalid ''`gas_limit` is too large'')))"

definition job_too_expensive :: "string \<Rightarrow> api_error" where
  "job_too_expensive m = \<lparr>ae_status = 400, ae_code = ''job_too_expensive'', ae_message = m\<rparr>"

definition submit_cost :: "chain_ctx \<Rightarrow> u64 \<Rightarrow> u256 \<Rightarrow> bytes \<Rightarrow> u256" where
  "submit_cost c gas value data =
     (let base = (case last_base_fee c of Some b \<Rightarrow> b | None \<Rightarrow> 0);
          fees = \<lparr>max_fee_per_gas = max_fee_per_gas (ad_fee_quote (cc_adapter c) base (cc_tunables c)),
                  max_priority_fee_per_gas = priority_fee_wei (cc_tunables c)\<rparr>
      in ad_worst_case_cost (cc_adapter c)
           \<lparr>tx_gas_limit = gas, tx_value = value, tx_encoded_len = estimate_encoded_len (length data)\<rparr> fees (cost_context_of c))"

definition check_gas_and_cost :: "chain_ctx \<Rightarrow> u64 option \<Rightarrow> u256 \<Rightarrow> bytes \<Rightarrow> (unit, api_error) result" where
  "check_gas_and_cost c gas_limit value data =
     (let limit = max_job_cost (cc_cfg c) in
      case gas_limit of
        Some gas \<Rightarrow>
          let floor = intrinsic_gas data; cost = submit_cost c gas value data in
          if gas < floor then Err (api_invalid (''`gas_limit` '' @ dec_str (unat gas) @ '' is below the intrinsic gas of this call ('' @ dec_str (unat floor) @ '')''))
          else if max_tx_gas (cc_tunables c) < gas
          then Err (api_invalid (''`gas_limit` '' @ dec_str (unat gas) @ '' exceeds the chain's per-transaction limit ('' @ dec_str (unat (max_tx_gas (cc_tunables c))) @ '')''))
          else if limit < cost
          then Err (job_too_expensive (''worst-case cost '' @ dec_str (unat cost) @ '' wei exceeds this chain's max_job_cost ('' @ dec_str (unat limit) @ '' wei)''))
          else Ok ()
      | None \<Rightarrow>
          if limit < value then Err (job_too_expensive (''`value` exceeds this chain's max_job_cost ('' @ dec_str (unat limit) @ '' wei)''))
          else Ok ())"

definition parse_key :: "(string, unit) result option \<Rightarrow> (string option, api_error) result" where
  "parse_key h =
     (case h of
        None \<Rightarrow> Ok None
      | Some (Err _) \<Rightarrow> Err (api_invalid ''Idempotency-Key must be ASCII'')
      | Some (Ok v) \<Rightarrow> (let key = str_trim v in
          if key = [] \<or> 128 < length key then Err (api_invalid ''Idempotency-Key must be 1-128 characters'') else Ok (Some key)))"

text \<open>Backpressure per chain, and the daily cap on RPC credits.\<close>

definition check_load :: "int \<Rightarrow> chain_ctx \<Rightarrow> api_state \<Rightarrow> (unit, api_error) result" where
  "check_load day c s =
     (let depth = qc_max_depth (cfg_queue (ap_cfg s)); cap = rp_daily_credit_cap (cfg_rpc (ap_cfg s)) in
      if depth \<le> stats_queued (cc_chain_id c) (ap_stats s)
      then Err (api_unavailable ''queue_full'' (''chain '' @ dec_str (unat (cc_chain_id c)) @ '' has '' @ dec_str (unat depth) @ '' jobs queued; retry later''))
      else if 0 < cap \<and> cap \<le> (\<Sum>(_, _, cl)\<leftarrow>ap_chains s. credits_today day (cl_meter cl))
      then Err (api_unavailable ''shedding'' ''daily RPC credit cap reached; new jobs are refused until the next UTC day'')
      else Ok ())"

section \<open>The canonical form\<close>

definition hex_encode :: "bytes \<Rightarrow> string" where
  "hex_encode bs = concat (map (\<lambda>b. hex_nibbles 2 (unat b)) bs)"

definition show_gas :: "u64 option \<Rightarrow> string" where
  "show_gas g = (case g of None \<Rightarrow> ''None'' | Some x \<Rightarrow> ''Some('' @ dec_str (unat x) @ '')'')"

definition canonical_form :: "libs \<Rightarrow> job_request \<Rightarrow> string" where
  "canonical_form l r =
     dec_str (unat (rq_chain_id r)) @ ''|'' @ addr_hex (rq_to r) @ ''|0x'' @ hex_encode (rq_data r) @ ''|''
     @ dec_str (unat (rq_value r)) @ ''|'' @ show_gas (rq_gas_limit r) @ ''|'' @ li_show_deadline l (rq_deadline r) @ ''|''
     @ rq_webhook_url r"

section \<open>The handler\<close>

text \<open>Everything before the ingest gate: the job to store, with its chain.\<close>

definition prepare_submit :: "libs \<Rightarrow> submit_call \<Rightarrow> api_state \<Rightarrow> (chain_ctx \<times> new_job, api_error) result" where
  "prepare_submit l call s =
     (case sc_body call of Err e \<Rightarrow> Err (api_invalid (''invalid request body: '' @ e)) | Ok b \<Rightarrow>
      case engine_chain s (sb_chain_id b) of
        None \<Rightarrow> Err \<lparr>ae_status = 400, ae_code = ''unsupported_chain'', ae_message = ''chain '' @ dec_str (unat (sb_chain_id b)) @ '' is not configured''\<rparr>
      | Some (c, _) \<Rightarrow>
      case li_address l (sb_to b) of None \<Rightarrow> Err (api_invalid ''`to` must be a 20-byte 0x-hex address'') | Some to \<Rightarrow>
      and_then (parse_data l (sb_data b)) (\<lambda>data.
      and_then (parse_value l (sb_value b)) (\<lambda>value.
      and_then (parse_gas_limit l (sb_gas_limit b)) (\<lambda>gas_limit.
      and_then (check_gas_and_cost c gas_limit value data) (\<lambda>_.
      if 120000 < length data then Err (api_invalid ''`data` exceeds 120000 bytes'')
      else if (\<exists>d. sb_deadline b = Some d \<and> d \<le> sc_utc call) then Err (api_invalid ''`deadline` is in the past'')
      else and_then (map_err api_invalid (validate_url (li_urls l) (cfg_webhook (ap_cfg s))
        (unat (sv_port (cfg_server (ap_cfg s)))) (sb_webhook_url b))) (\<lambda>_.
      and_then (parse_key (sc_key call)) (\<lambda>key.
      and_then (check_load (sc_day call) c s) (\<lambda>_.
        let request = \<lparr>rq_chain_id = cc_chain_id c, rq_to = to, rq_data = data, rq_value = value, rq_gas_limit = gas_limit,
                       rq_deadline = sb_deadline b, rq_webhook_url = sb_webhook_url b\<rparr>
        in Ok (c, \<lparr>nj_id = sc_uuid call, nj_request = request, nj_idempotency_key = key,
                  nj_request_hash = li_sha256_hex l (canonical_form l request)\<rparr>)))))))))"

text \<open>A stored job of the leader goes into memory and is counted; deferred jobs and those of a standby wait
  for the sweep.\<close>

definition enqueue_created :: "submit_call \<Rightarrow> u64 \<Rightarrow> new_job \<Rightarrow> api_state \<Rightarrow> api_state" where
  "enqueue_created call chain_id j s =
     (case engine_chain s chain_id of
        None \<Rightarrow> s
      | Some (c, _) \<Rightarrow>
          if ap_leader s
          then (case admit \<lparr>qj_id = nj_id j, qj_request = nj_request j, qj_requeue_count = 0, qj_created_at = sc_utc call,
                             qj_enqueued_at = sc_started call\<rparr> (cc_queue c) of
                  (r, q) \<Rightarrow>
                    let s = put_chain (c\<lparr>cc_queue := q\<rparr>) s in
                    if r = AdmQueued then s\<lparr>ap_stats := stats_add chain_id None SQueued 1 (ap_stats s)\<rparr> else s)
          else s)"

definition answer_submit :: "submit_call \<Rightarrow> u64 \<Rightarrow> new_job \<Rightarrow> (insert_outcome, ingest_error) result \<Rightarrow> api_state
    \<Rightarrow> (http_response, api_error) result \<times> api_state" where
  "answer_submit call chain_id j r s =
     (case r of
        Err Overloaded \<Rightarrow> (Err (api_unavailable ''queue_full'' ''ingest is saturated; retry shortly''), s)
      | Err (Unavailable _) \<Rightarrow> (Err (api_unavailable ''store_unavailable'' ''the job could not be persisted; retry''), s)
      | Ok Created \<Rightarrow> (Ok (202, JObj [(''job_id'', JStr (uuid_str (nj_id j)))]), enqueue_created call chain_id j s)
      | Ok (Replayed original) \<Rightarrow> (Ok (200, JObj [(''job_id'', JStr (uuid_str original)), (''replayed'', JBool True)]), s)
      | Ok Conflict \<Rightarrow> (Err \<lparr>ae_status = 409, ae_code = ''idempotency_conflict'',
                            ae_message = ''this Idempotency-Key was already used with a different request body''\<rparr>, s))"

text \<open>The whole handler, in the batch \<open>before\<close>, this job, \<open>behind\<close>; \<open>room\<close> says whether the channel took it, \<open>acked\<close>
  whether the batcher lived to answer.\<close>

record ingest_turn =
  it_before :: "new_job list"
  it_behind :: "new_job list"
  it_calls :: "nat \<Rightarrow> fault \<times> timestamp"
  it_room :: bool
  it_acked :: bool

definition submit :: "libs \<Rightarrow> submit_call \<Rightarrow> ingest_turn \<Rightarrow> api_state \<Rightarrow> (http_response, api_error) result \<times> api_state" where
  "submit l call t s =
     (case prepare_submit l call s of
        Err e \<Rightarrow> (Err e, s)
      | Ok (c, j) \<Rightarrow>
          if \<not> it_room t then answer_submit call (cc_chain_id c) j (ingest_submit False None) s
          else (case ingest_batch (it_calls t) (it_before t @ j # it_behind t) (ap_db s) of
            (acks, d) \<Rightarrow>
              let ack = (if it_acked t then Some (case acks ! length (it_before t) of Ok out \<Rightarrow> Ok out | Err e \<Rightarrow> Err (li_store_error l e)) else None)
              in answer_submit call (cc_chain_id c) j (ingest_submit True ack) (s\<lparr>ap_db := d\<rparr>)))"

section \<open>Operator actions\<close>

text \<open>The pair is found, then \<open>Pair_State.admin_pair\<close> acts on it. What it persists is the effect list.\<close>

definition admin_pair_route :: "libs \<Rightarrow> timestamp \<Rightarrow> u64 \<Rightarrow> string \<Rightarrow> string \<Rightarrow> api_state
    \<Rightarrow> (pause option \<times> pair_effect list, api_error) result \<times> api_state" where
  "admin_pair_route l now chain_id signer action s =
     (case li_address l signer of
        None \<Rightarrow> (Err (api_invalid ''signer must be a 0x-hex address''), s)
      | Some a \<Rightarrow>
      case engine_pair s (chain_id, a) of
        None \<Rightarrow> (Err (api_not_found ''no such (chain, signer) pair on this instance''), s)
      | Some p \<Rightarrow>
      case admin_pair now action (pa_state p) of
        None \<Rightarrow> (Err (api_not_found ''unknown action; use pause, resume or recover''), s)
      | Some (st, effects) \<Rightarrow>
          (Ok (ps_pause st, effects),
           s\<lparr>ap_pairs := map (\<lambda>(k, q). (k, if k = (chain_id, a) then p\<lparr>pa_state := st\<rparr> else q)) (ap_pairs s)\<rparr>))"

text \<open>Pausing, resuming or probing a chain; a resume wakes the pairs of the chain.\<close>

datatype chain_effect = WakePairs "pair_key list" | ProbeNow

definition admin_chain :: "u64 \<Rightarrow> string \<Rightarrow> api_state \<Rightarrow> (chain_effect list, api_error) result \<times> api_state" where
  "admin_chain chain_id action s =
     (case engine_chain s chain_id of
        None \<Rightarrow> (Err (api_not_found ''no such chain''), s)
      | Some (c, _) \<Rightarrow>
          if action = ''pause'' then (Ok [], put_chain (c\<lparr>cc_operator_paused := True\<rparr>) s)
          else if action = ''resume''
          then (Ok [WakePairs (map pa_key (pairs_on s chain_id))], put_chain (c\<lparr>cc_operator_paused := False\<rparr>) s)
          else if action = ''probe'' then (Ok [ProbeNow], s)
          else (Err (api_not_found ''unknown action; use pause, resume or probe''), s))"

definition admin_pause_all :: "api_state \<Rightarrow> api_state" where
  "admin_pause_all s = s\<lparr>ap_global_pause := True\<rparr>"

definition admin_resume_all :: "api_state \<Rightarrow> chain_effect \<times> api_state" where
  "admin_resume_all s = (WakePairs (map (pa_key \<circ> snd) (ap_pairs s)), s\<lparr>ap_global_pause := False\<rparr>)"

text \<open>Cancelling a queued job: out of memory first, then in the store, under the faults of the two calls.\<close>

definition admin_cancel_job :: "fault \<Rightarrow> fault \<Rightarrow> timestamp \<Rightarrow> uuid \<Rightarrow> job_id \<Rightarrow> api_state \<Rightarrow> (unit, api_error) result \<times> api_state" where
  "admin_cancel_job f1 f2 now ev_id job_id s =
     (case faulty_read f1 (get_job job_id) (ap_db s) of
        Err e \<Rightarrow> (Err (api_unavailable ''store_unavailable'' (store_error_code e)), s)
      | Ok None \<Rightarrow> (Err (api_not_found ''no such job''), s)
      | Ok (Some job) \<Rightarrow>
      case engine_chain s (jr_chain_id job) of
        None \<Rightarrow> (Err (api_not_found ''job's chain is not configured''), s)
      | Some (c, _) \<Rightarrow>
      case queue_remove job_id (cc_queue c) of (was_waiting, q) \<Rightarrow>
      let s = put_chain (c\<lparr>cc_queue := q\<rparr>) s in
      case faulty f2 (cancel_queued now ev_id job_id) (ap_db s) of
        (Err e, d) \<Rightarrow> (Err (api_unavailable ''store_unavailable'' (store_error_code e)), s\<lparr>ap_db := d\<rparr>)
      | (Ok cancelled, d) \<Rightarrow>
          let s = s\<lparr>ap_db := d\<rparr> in
          if cancelled
          then (Ok (), notify_webhooks (s\<lparr>ap_stats :=
                 (if was_waiting then transition (cc_chain_id c) (None, SQueued) (None, SFailed) (ap_stats s)
                  else stats_add (cc_chain_id c) None SFailed 1 (ap_stats s))\<rparr>))
          else (Err \<lparr>ae_status = 409, ae_code = ''not_cancellable'', ae_message = ''only jobs that are still queued can be cancelled''\<rparr>, s))"

definition admin_redeliver :: "fault \<Rightarrow> timestamp \<Rightarrow> uuid \<Rightarrow> api_state \<Rightarrow> (unit, api_error) result \<times> api_state" where
  "admin_redeliver f now event_id s =
     (case faulty f (\<lambda>d. Ok (redeliver now event_id d)) (ap_db s) of
        (Err e, d) \<Rightarrow> (Err (api_unavailable ''store_unavailable'' (store_error_code e)), s\<lparr>ap_db := d\<rparr>)
      | (Ok found, d) \<Rightarrow>
          if \<not> found then (Err (api_not_found ''no such webhook event''), s\<lparr>ap_db := d\<rparr>)
          else (Ok (), notify_webhooks (s\<lparr>ap_db := d\<rparr>)))"

section \<open>Observability\<close>

definition pair_state_name :: "pair_state \<Rightarrow> string" where
  "pair_state_name st =
     (let v = pair_view_of st in
      if pv_pause v \<noteq> None then ''paused'' else if pv_draining v then ''draining''
      else if pv_current v \<noteq> None then ''busy'' else ''idle'')"

text \<open>The balance line of a pair; asking what it can spend matures its credits.\<close>

definition balance_line :: "instant \<Rightarrow> chain_ctx \<Rightarrow> u256 \<Rightarrow> pair \<Rightarrow> (string \<times> json) list" where
  "balance_line now c floor p =
     (let v = view (pa_ledger p); available = fst (spendable now (cc_adapter c) (pa_role p) (pa_ledger p)) in
      [(''address'', JStr (addr_hex (pk_signer (pa_key p)))), (''confirmed'', JStr (dec_str (unat (lv_confirmed v)))),
       (''reserved'', JStr (dec_str (unat (lv_reserved v)))), (''available'', JStr (dec_str (unat available))),
       (''min_balance'', JStr (dec_str (unat floor))), (''low'', JBool (lv_initialised v \<and> available < floor)),
       (''known'', JBool (lv_initialised v))])"

definition chain_balances :: "instant \<Rightarrow> api_state \<Rightarrow> chain_ctx \<Rightarrow> json option \<times> json list" where
  "chain_balances now s c =
     (let ps = pairs_on s (cc_chain_id c) in
      (map_option (\<lambda>p. JObj (balance_line now c (cg_treasury_min_balance (cc_cfg c)) p)) (find (\<lambda>p. pa_role p = RTreasury) ps),
       map (\<lambda>p. JObj (balance_line now c (cg_signer_min_balance (cc_cfg c)) p)) (filter (\<lambda>p. pa_role p = RSigner) ps)))"

text \<open>Gas analytics: the ledger rows added up per chain, per signer and per both. Signers are ordered by their
  fixed-width text, which is the order of the addresses.\<close>

record gas_total =
  gt_tx_count :: int
  gt_gas_used :: u256
  gt_fee_paid :: u256
  gt_by_purpose :: "(string, int \<times> u256 \<times> u256) btree"

definition gas_total_default :: gas_total where
  "gas_total_default = \<lparr>gt_tx_count = 0, gt_gas_used = 0, gt_fee_paid = 0, gt_by_purpose = []\<rparr>"

definition gas_total_add :: "string \<Rightarrow> int \<Rightarrow> u256 \<Rightarrow> u256 \<Rightarrow> gas_total \<Rightarrow> gas_total" where
  "gas_total_add purpose n gas fee g =
     g\<lparr>gt_tx_count := gt_tx_count g + n, gt_gas_used := gt_gas_used g + gas, gt_fee_paid := gt_fee_paid g + fee,
       gt_by_purpose := bt_upsert purpose (0, 0, 0) (\<lambda>(a, b, c). (a + n, b + gas, c + fee)) (gt_by_purpose g)\<rparr>"

definition numeric_or_zero :: "int \<Rightarrow> u256" where
  "numeric_or_zero n = (case parse_u256 n of Ok x \<Rightarrow> x | Err _ \<Rightarrow> 0)"

definition gas_add_row :: "gas_rec \<Rightarrow> gas_total \<Rightarrow> gas_total" where
  "gas_add_row r = gas_total_add (purpose_str (gl_purpose r)) (gl_tx_count r) (numeric_or_zero (gl_gas_used r)) (numeric_or_zero (gl_fee_paid r))"

fun gas_loop :: "gas_rec list \<Rightarrow> (u64, gas_total) btree \<times> (address, gas_total) btree \<times> (u64 \<times> address, gas_total) btree
    \<Rightarrow> (u64, gas_total) btree \<times> (address, gas_total) btree \<times> (u64 \<times> address, gas_total) btree" where
  "gas_loop [] acc = acc"
| "gas_loop (r # rs) (by_chain, by_signer, by_both) =
     gas_loop rs
       (bt_upsert (u64_of_i64 (gl_chain_id r)) gas_total_default (gas_add_row r) by_chain,
        bt_upsert (gl_signer r) gas_total_default (gas_add_row r) by_signer,
        bt_upsert (u64_of_i64 (gl_chain_id r), gl_signer r) gas_total_default (gas_add_row r) by_both)"

definition analytics_gas :: "fault \<Rightarrow> api_state
    \<Rightarrow> ((u64, gas_total) btree \<times> (address, gas_total) btree \<times> (u64 \<times> address, gas_total) btree, api_error) result" where
  "analytics_gas f s =
     (case faulty_read f db_gas (ap_db s) of
        Err e \<Rightarrow> Err (api_unavailable ''store_unavailable'' (''cannot read gas ledger: '' @ store_error_code e))
      | Ok rows \<Rightarrow> Ok (gas_loop rows ([], [], [])))"

section \<open>The canonical form identifies the request\<close>

lemma split_at_bar:
  assumes "xs @ CHR ''|'' # r = ys @ CHR ''|'' # r'" "CHR ''|'' \<notin> set xs" "CHR ''|'' \<notin> set ys"
  shows "xs = ys \<and> r = r'"
  using assms by (induction xs arbitrary: ys) (auto simp: append_eq_Cons_conv Cons_eq_append_conv)

lemma hex_digit_not_bar: "n < 16 \<Longrightarrow> hex_digit n \<noteq> CHR ''|''"
proof -
  assume "n < 16"
  then have "hex_digit n \<in> set ''0123456789abcdef''" unfolding hex_digit_def by (intro nth_mem) simp
  then show ?thesis by auto
qed

lemma dec_str_no_bar: "CHR ''|'' \<notin> set (dec_str n)"
proof (induction n rule: dec_str.induct)
  case (1 n)
  have "hex_digit (n mod 10) \<noteq> CHR ''|''" "n < 10 \<Longrightarrow> hex_digit n \<noteq> CHR ''|''" by (simp_all add: hex_digit_not_bar)
  with 1 show ?case by (subst dec_str.simps) (auto split: if_splits)
qed

lemma hex_nibbles_no_bar: "CHR ''|'' \<notin> set (hex_nibbles k n)"
  by (induction k arbitrary: n) (auto dest: sym simp: hex_digit_not_bar [THEN not_sym])

lemma dec_str_not_Nil: "dec_str n \<noteq> []"
  by (subst dec_str.simps) simp

lemma dec_str_inj: "dec_str a = dec_str b \<Longrightarrow> a = b"
proof (induction a arbitrary: b rule: dec_str.induct)
  case (1 a)
  have a: "dec_str a = (if a < 10 then [hex_digit a] else dec_str (a div 10) @ [hex_digit (a mod 10)])"
    and b: "dec_str b = (if b < 10 then [hex_digit b] else dec_str (b div 10) @ [hex_digit (b mod 10)])"
    by (rule dec_str.simps)+
  have digit: "hex_digit (a mod 10) = hex_digit (b mod 10)" and small: "a < 10 \<longleftrightarrow> b < 10"
    using "1.prems" dec_str_not_Nil [of "a div 10"] dec_str_not_Nil [of "b div 10"] unfolding a b
    by (auto split: if_splits)
  have "a mod 10 = b mod 10" using digit by (intro hex_digit_inj) simp_all
  moreover have "a div 10 = b div 10"
  proof (cases "a < 10")
    case False
    with small "1.prems" have "dec_str (a div 10) = dec_str (b div 10)" unfolding a b by simp
    with "1.IH" [OF False] show ?thesis by simp
  qed (use small in simp)
  ultimately show ?case by (metis div_mult_mod_eq)
qed

lemma hex_byte_inj: "hex_nibbles 2 (unat (a :: u8)) = hex_nibbles 2 (unat b) \<Longrightarrow> a = b"
  using hex_nibbles_inj [of "unat a" 2 "unat b"] unat_lt_pow [of a] unat_lt_pow [of b] by (simp add: word_unat_eq_iff)

lemma hex_encode_inj: "hex_encode xs = hex_encode ys \<Longrightarrow> xs = ys"
proof (induction xs arbitrary: ys)
  case Nil
  then show ?case by (cases ys) (auto simp: hex_encode_def dest: arg_cong [of _ _ length])
next
  case (Cons x xs)
  show ?case
  proof (cases ys)
    case Nil
    with Cons.prems show ?thesis by (auto simp: hex_encode_def dest: arg_cong [of _ _ length])
  next
    case (Cons y zs)
    from Cons.prems have "hex_nibbles 2 (unat x) @ hex_encode xs = hex_nibbles 2 (unat y) @ hex_encode zs"
      by (simp add: Cons hex_encode_def)
    then have "hex_nibbles 2 (unat x) = hex_nibbles 2 (unat y)" "hex_encode xs = hex_encode zs"
      by simp_all
    with Cons.IH Cons hex_byte_inj show ?thesis by blast
  qed
qed

lemma hex_encode_no_bar: "CHR ''|'' \<notin> set (hex_encode bs)"
  by (auto simp: hex_encode_def hex_nibbles_no_bar)

lemma show_gas_no_bar: "CHR ''|'' \<notin> set (show_gas g)"
  by (auto simp: show_gas_def dec_str_no_bar split: option.split)

lemma show_gas_inj: "show_gas a = show_gas b \<Longrightarrow> a = b"
  by (auto simp: show_gas_def word_unat_eq_iff dest: dec_str_inj split: option.splits)

lemma unat_dec_inj: "dec_str (unat a) = dec_str (unat b) \<Longrightarrow> a = b"
  by (auto simp: word_unat_eq_iff dest: dec_str_inj)

text \<open>The form is a list of fields without bars, each followed by a bar, and then the URL.\<close>

definition request_fields :: "libs \<Rightarrow> job_request \<Rightarrow> string list" where
  "request_fields l r = [dec_str (unat (rq_chain_id r)), addr_hex (rq_to r), ''0x'' @ hex_encode (rq_data r),
     dec_str (unat (rq_value r)), show_gas (rq_gas_limit r), li_show_deadline l (rq_deadline r)]"

lemma canonical_form_fields:
  "canonical_form l r = concat (map (\<lambda>f. f @ ''|'') (request_fields l r)) @ rq_webhook_url r"
  by (simp add: canonical_form_def request_fields_def)

lemma fields_inj:
  assumes "concat (map (\<lambda>f. f @ ''|'') fs) @ u = concat (map (\<lambda>f. f @ ''|'') gs) @ v" "length fs = length gs"
    "\<forall>f\<in>set (fs @ gs). CHR ''|'' \<notin> set f"
  shows "fs = gs \<and> u = v"
  using assms(2,1,3)
proof (induction fs gs rule: list_induct2)
  case (Cons f fs g gs)
  then have "f = g \<and> concat (map (\<lambda>f. f @ ''|'') fs) @ u = concat (map (\<lambda>f. f @ ''|'') gs) @ v"
    by (intro split_at_bar) auto
  with Cons show ?case by auto
qed simp

lemma request_fields_no_bar:
  assumes "\<And>d. CHR ''|'' \<notin> set (li_show_deadline l d)"
  shows "\<forall>f\<in>set (request_fields l r). CHR ''|'' \<notin> set f"
  using assms
  by (simp add: request_fields_def dec_str_no_bar addr_hex_def hex_nibbles_no_bar hex_encode_no_bar show_gas_no_bar)

lemma canonical_form_inj:
  assumes "canonical_form l r = canonical_form l r'"
    and "inj (li_show_deadline l)" "\<And>d. CHR ''|'' \<notin> set (li_show_deadline l d)"
  shows "r = r'"
proof -
  have "request_fields l r = request_fields l r' \<and> rq_webhook_url r = rq_webhook_url r'"
    using assms(1) request_fields_no_bar [of l] assms(3) unfolding canonical_form_fields
    by (intro fields_inj) (auto simp: request_fields_def)
  with assms(2) show ?thesis
    by (auto simp: request_fields_def dest: unat_dec_inj addr_hex_inj hex_encode_inj show_gas_inj injD
        intro: job_request.equality)
qed

text \<open>C32. An idempotency key stands for one request. Two requests with the same canonical form are the same request,
  so, up to collisions of SHA-256, a replayed answer is only given for the request the key was first used with: the
  text that is hashed separates its fields unambiguously. It relies on the debug text of a deadline to tell
  deadlines apart and to contain no bar.\<close>

theorem canonical_form_identifies_the_request:
  assumes "inj (li_show_deadline l)" "\<And>d. CHR ''|'' \<notin> set (li_show_deadline l d)"
  shows "canonical_form l r = canonical_form l r' \<longleftrightarrow> r = r'"
  using canonical_form_inj [OF _ assms] by blast

text \<open>A rendering of deadlines that meets the two conditions.\<close>

definition plain_deadline :: "timestamp option \<Rightarrow> string" where
  "plain_deadline d = (case d of None \<Rightarrow> ''None'' | Some t \<Rightarrow> (if t < 0 then ''-'' else ''+'') @ dec_str (nat \<bar>t\<bar>))"

definition plain_libs :: libs where
  "plain_libs = \<lparr>li_address = (\<lambda>s. if s = ''0x1'' then Some 1 else None), li_hex = (\<lambda>s. if s = ''00ff'' then Some [0, 255] else None),
     li_radix = (\<lambda>b s. if s = ''7'' then Some 7 else None), li_sha256_hex = (\<lambda>s. s), li_show_deadline = plain_deadline,
     li_urls = \<lparr>uw_parse = (\<lambda>s. Ok \<lparr>pu_scheme = ''https'', pu_username = [], pu_password = None, pu_host = Some ''example.com'', pu_port_or_default = Some 443\<rparr>),
                uw_parse_ip = (\<lambda>_. None), uw_own_names = []\<rparr>, li_store_error = store_error_code\<rparr>"

lemma plain_deadline_ok: "inj plain_deadline" "CHR ''|'' \<notin> set (plain_deadline d)"
proof -
  show "CHR ''|'' \<notin> set (plain_deadline d)" by (auto simp: plain_deadline_def dec_str_no_bar split: option.split)
  show "inj plain_deadline"
    by (rule injI) (auto simp: plain_deadline_def dest!: dec_str_inj split: option.splits if_splits)
qed

theorem canonical_form_identifies_the_request_witness:
  "canonical_form plain_libs demo_request \<noteq> canonical_form plain_libs (demo_request\<lparr>rq_gas_limit := Some 1\<rparr>)"
  using canonical_form_identifies_the_request [of plain_libs demo_request "demo_request\<lparr>rq_gas_limit := Some 1\<rparr>"] plain_deadline_ok
  by (simp add: plain_libs_def demo_request_def)

section \<open>What an answer is worth\<close>

lemma put_chain_simps [simp]: "ap_db (put_chain c s) = ap_db s" "ap_stats (put_chain c s) = ap_stats s"
  by (simp_all add: put_chain_def)

lemma enqueue_created_db [simp]: "ap_db (enqueue_created call i j s) = ap_db s"
  by (simp add: enqueue_created_def Let_def split: option.split prod.split)

lemma prepare_submit_job:
  assumes "prepare_submit l call s = Ok (c, j)"
  shows "nj_id j = sc_uuid call" "nj_request_hash j = li_sha256_hex l (canonical_form l (nj_request j))"
  using assms by (auto simp: prepare_submit_def and_then_eq_Ok Let_def split: sum.splits option.splits prod.splits if_splits)

definition good_answer :: "api_state \<Rightarrow> new_job \<Rightarrow> http_response \<Rightarrow> api_state \<Rightarrow> bool" where
  "good_answer s j r s' =
     (\<exists>x\<in>set (db_jobs (ap_db s')).
        (r = (202, JObj [(''job_id'', JStr (uuid_str (jr_id x)))]) \<and> x \<notin> set (db_jobs (ap_db s))
           \<and> jr_id x = nj_id j \<and> jr_status x = Queued \<and> jc_idempotency_key x = nj_idempotency_key j)
        \<or> (r = (200, JObj [(''job_id'', JStr (uuid_str (jr_id x))), (''replayed'', JBool True)])
           \<and> nj_idempotency_key j \<noteq> None \<and> jc_idempotency_key x = nj_idempotency_key j
           \<and> jc_request_hash x = nj_request_hash j))"

lemma answer_submit_good:
  assumes "answer_submit call i j (ingest_submit room ack) s = (r, s')"
    and "\<And>out. room \<Longrightarrow> ack = Some (Ok out) \<Longrightarrow> resolved (ap_db s0) j out (ap_db s)"
  shows "(case r of Ok x \<Rightarrow> good_answer s0 j x s' | Err e \<Rightarrow> ap_stats s' = ap_stats s \<and> ap_chains s' = ap_chains s)
    \<and> ap_db s' = ap_db s"
  using assms by (auto simp: answer_submit_def ingest_submit_def good_answer_def resolved_def split: if_splits option.splits
      sum.splits insert_outcome.splits) (erule bexI [rotated], simp)

text \<open>C24. An accepted job is durable. Whatever other jobs share the batch and whatever becomes of the calls to the
  store, a 202 is answered only when a new queued row with the identifier in the answer and the caller's key
  is stored, a 200 only when the stored job it names carries the caller's key and the hash of the same
  request; every other answer leaves the counters and the queues as they were, and rows are only added.\<close>

theorem accepted_job_is_durable:
  assumes "distinct (sc_uuid call # map nj_id (it_before t @ it_behind t))"
  shows "case submit l call t s of (r, s') \<Rightarrow>
    (case r of
       Ok x \<Rightarrow> (case prepare_submit l call s of Ok (c, j) \<Rightarrow> nj_id j = sc_uuid call \<and> good_answer s j x s' | Err e \<Rightarrow> False)
     | Err e \<Rightarrow> ap_stats s' = ap_stats s \<and> ap_chains s' = ap_chains s)
    \<and> (\<exists>new. db_jobs (ap_db s') = db_jobs (ap_db s) @ new)"
proof (cases "prepare_submit l call s")
  case (Inl e)
  then show ?thesis by (simp add: submit_def)
next
  case (Inr cj)
  obtain c j where cj: "cj = (c, j)" by fastforce
  note p = Inr [unfolded cj] and job = prepare_submit_job [OF Inr [unfolded cj]]
  obtain r s' where sub: "submit l call t s = (r, s')" by fastforce
  show ?thesis
  proof (cases "it_room t")
    case False
    with sub p have "answer_submit call (cc_chain_id c) j (ingest_submit False None) s = (r, s')" by (simp add: submit_def)
    from answer_submit_good [OF this, of s] show ?thesis using sub p job by (auto split: sum.splits)
  next
    case True
    let ?batch = "it_before t @ j # it_behind t"
    obtain acks d where b: "ingest_batch (it_calls t) ?batch (ap_db s) = (acks, d)" by fastforce
    define ack where "ack = (if it_acked t then Some (case acks ! length (it_before t) of Ok out \<Rightarrow> Ok out | Err e \<Rightarrow> Err (li_store_error l e)) else None)"
    have a: "answer_submit call (cc_chain_id c) j (ingest_submit True ack) (s\<lparr>ap_db := d\<rparr>) = (r, s')"
      using sub p True b by (simp add: submit_def ack_def Let_def)
    have spec: "(\<exists>new. db_jobs d = db_jobs (ap_db s) @ new)" "list_all2 (\<lambda>j ack. backed_ack (ap_db s) j ack d) ?batch acks"
      using ingest_batch_spec [OF b] assms job(1) by auto
    then have "backed_ack (ap_db s) j (acks ! length (it_before t)) d"
      using list_all2_nthD [OF spec(2), of "length (it_before t)"] by simp
    then have "resolved (ap_db s) j out d" if "ack = Some (Ok out)" for out
      using that by (auto simp: ack_def backed_ack_def split: if_splits sum.splits)
    from answer_submit_good [OF a, of s] this show ?thesis using sub p job spec(1) by (auto split: sum.splits)
  qed
qed

text \<open>A leader with one chain, and a plain request to it.\<close>

definition small_config :: config where
  "small_config = \<lparr>cfg_server = server_config_default, cfg_database = database_config_of ''db'', cfg_webhook = webhook_config_of ''s'',
     cfg_rpc = rpc_config_default, cfg_signers = \<lparr>sc_mode = LocalMode, sc_local_private_keys = [''k''], sc_kms_key_ids = [], sc_kms_timeout_ms = 1\<rparr>,
     cfg_queue = queue_config_default, cfg_alert_url = None, cfg_chains = []\<rparr>"

definition small_chain :: chain_ctx where
  "small_chain = chain_ctx_new \<lparr>cg_chain_id = 1, cg_kind = ''geth'', cg_rpc_url = None, cg_rpc_url_env = None, cg_rpc_token_env = None,
     cg_fallback_rpc_urls = [], cg_treasury_private_key = None, cg_treasury_key_id = None, cg_signer_min_balance = 1, cg_topup_amount = 1,
     cg_initial_topup_amount = None, cg_treasury_min_balance = 1, cg_max_job_cost = Some 10, cg_max_topups_per_signer_per_hour = 1,
     cg_tunables_raw = []\<rparr> geth geth_defaults 8"

definition small_engine :: api_state where
  "small_engine = \<lparr>ap_cfg = small_config, ap_db = empty_db, ap_stats = [], ap_chains = [(1, small_chain, client_new 0 0 1 1 1 1)],
     ap_pairs = [], ap_leader = True, ap_global_pause = False, ap_webhook_wake = False, ap_epoch = -1\<rparr>"

definition small_call :: submit_call where
  "small_call = \<lparr>sc_body = Ok \<lparr>sb_chain_id = 1, sb_to = ''0x1'', sb_data = Some ''0x00ff'', sb_value = Some (JNum 5), sb_gas_limit = None,
      sb_deadline = None, sb_webhook_url = ''https://example.com/hook''\<rparr>,
     sc_key = None, sc_started = 0, sc_utc = 1, sc_day = 0, sc_uuid = 7\<rparr>"

definition small_turn :: ingest_turn where
  "small_turn = \<lparr>it_before = [], it_behind = [demo_new], it_calls = (\<lambda>n. (if n = 0 then LostBefore PoolTimedOut else Works, 1)),
     it_room = True, it_acked = True\<rparr>"

lemma small_prepared:
  "\<exists>j. prepare_submit plain_libs small_call small_engine = Ok (small_chain, j) \<and> nj_idempotency_key j = None \<and> nj_id j = 7"
  by (simp add: prepare_submit_def small_call_def small_engine_def engine_chain_def bt_get_def plain_libs_def parse_data_def strip_prefix_def
      parse_value_def parse_amount_def parse_gas_limit_def check_gas_and_cost_def small_chain_def chain_ctx_new_def max_job_cost_def
      validate_url_def small_config_def webhook_config_of_def server_config_default_def url_host_def url_is_self_def trim_start_char_def
      trim_end_char_def parse_key_def check_load_def stats_queued_def queue_config_default_def rpc_config_default_def Let_def map_err_def)

theorem accepted_job_is_durable_witness:
  "fst (submit plain_libs small_call small_turn small_engine) = Ok (202, JObj [(''job_id'', JStr (uuid_str 7))])
   \<and> (\<exists>x\<in>set (db_jobs (ap_db (snd (submit plain_libs small_call small_turn small_engine)))). jr_id x = 7 \<and> jr_status x = Queued)"
proof -
  obtain j where p: "prepare_submit plain_libs small_call small_engine = Ok (small_chain, j)" "nj_idempotency_key j = None" "nj_id j = 7"
    using small_prepared by blast
  have f: "fst (submit plain_libs small_call small_turn small_engine) = Ok (202, JObj [(''job_id'', JStr (uuid_str 7))])"
    using p by (simp add: submit_def small_turn_def ingest_batch_def ingest_write_def insert_jobs_def small_engine_def empty_db_def key_taken_def
        insert_outcome_of_def new_job_rec_def demo_new_def ingest_submit_def answer_submit_def Let_def)
  have "distinct (sc_uuid small_call # map nj_id (it_before small_turn @ it_behind small_turn))"
    by (simp add: small_call_def small_turn_def demo_new_def)
  from accepted_job_is_durable [OF this, where l = plain_libs and s = small_engine] f p show ?thesis
    by (auto simp: good_answer_def case_prod_beta split: sum.splits)
qed

end
