(* ===== verification/Leader.thy ===== *)
theory Leader
  imports Api
begin

text \<open>
  \<^verbatim>\<open>crates/gum-engine/src/leader.rs\<close>: what happens when this instance wins the lease. \<open>leader_start\<close> rebuilds the
  counters and the queues from the store while the ingest gate is held; \<open>start_chain\<close> brings one chain up, with
  the answers of its endpoint and of the key service as arguments; \<open>sweep_round\<close> pages queued rows in;
  \<open>supervise\<close> restarts tasks with a backoff. An instance that becomes leader has no pair yet and empty queues.
\<close>

section \<open>Counters and queues from the store\<close>

primrec rollup_bucket :: "bucket \<Rightarrow> stat_bucket" where
  "rollup_bucket BSucceeded = SSucceeded"
| "rollup_bucket BReverted = SReverted"
| "rollup_bucket BFailed = SFailed"

definition load_rollups :: "rollup_rec list \<Rightarrow> stats \<Rightarrow> stats" where
  "load_rollups rows st =
     fold (\<lambda>r. stats_add (u64_of_i64 (ru_chain_id r)) (ru_signer r) (rollup_bucket (ru_bucket r)) (u64_of_i64 (max (ru_count r) 0))) rows st"

definition live_bucket :: "job_row \<Rightarrow> stat_bucket" where
  "live_bucket j = (if jr_status j = Included then SIncluded else SInFlight)"

definition count_live :: "u64 \<Rightarrow> job_row list \<Rightarrow> stats \<Rightarrow> stats" where
  "count_live chain_id rows st = fold (\<lambda>j. stats_add chain_id (jr_signer j) (live_bucket j) 1) rows st"

fun admit_loop :: "u64 \<Rightarrow> queued_job list \<Rightarrow> nat \<times> job_queue \<times> stats \<Rightarrow> nat \<times> job_queue \<times> stats" where
  "admit_loop chain_id [] acc = acc"
| "admit_loop chain_id (j # js) (n, q, st) =
     (case admit j q of
        (r, q') \<Rightarrow>
          admit_loop chain_id js
            (if r = AdmQueued then (Suc n, q', stats_add chain_id None SQueued 1 st) else (n, q', st)))"

definition admit_from_store :: "fault \<Rightarrow> instant \<Rightarrow> chain_ctx \<Rightarrow> stats \<Rightarrow> db \<Rightarrow> (nat, store_error) result \<times> chain_ctx \<times> stats" where
  "admit_from_store f inst c st d =
     (case and_then (faulty_read f (load_queued inst (cc_chain_id c) (q_window (cc_queue c))) d) (\<lambda>r. r) of
        Err e \<Rightarrow> (Err e, c, st)
      | Ok jobs \<Rightarrow> (case admit_loop (cc_chain_id c) jobs (0, cc_queue c, st) of
          (n, q, st) \<Rightarrow> (Ok n, c\<lparr>cc_queue := reset_overflow q\<rparr>, st)))"

text \<open>The faults of the store calls of a start, by the chain they are made for, and the clocks.\<close>

record boot_env =
  be_rollups :: fault
  be_live :: "u64 \<Rightarrow> fault"
  be_topups :: "u64 \<Rightarrow> fault"
  be_load :: "u64 \<Rightarrow> fault"
  be_utc :: timestamp
  be_inst :: instant

definition load_chain :: "boot_env \<Rightarrow> chain_ctx \<Rightarrow> stats \<Rightarrow> db \<Rightarrow> (chain_ctx \<times> stats, store_error) result \<times> db" where
  "load_chain env c st d =
     (let i = cc_chain_id c in
      case faulty_read (be_live env i) (load_live_jobs i) d of
        Err e \<Rightarrow> (Err e, d)
      | Ok live \<Rightarrow>
          let st = count_live i live st in
          case faulty (be_topups env i) (\<lambda>d. Ok (fail_unbound_topups (be_utc env) i d)) d of
            (Err e, d) \<Rightarrow> (Err e, d)
          | (Ok _, d) \<Rightarrow> (case admit_from_store (be_load env i) (be_inst env) c st d of
              (Err e, _) \<Rightarrow> (Err e, d)
            | (Ok _, c, st) \<Rightarrow> (Ok (c, st), d)))"

fun load_chains :: "boot_env \<Rightarrow> (u64, chain_ctx \<times> rpc_client) btree \<Rightarrow> stats \<Rightarrow> db
    \<Rightarrow> ((u64, chain_ctx \<times> rpc_client) btree \<times> stats, store_error) result \<times> db" where
  "load_chains env [] st d = (Ok ([], st), d)"
| "load_chains env ((i, c, cl) # m) st d =
     (case load_chain env c st d of
        (Err e, d) \<Rightarrow> (Err e, d)
      | (Ok (c, st), d) \<Rightarrow>
          (case load_chains env m st d of
             (Err e, d) \<Rightarrow> (Err e, d)
           | (Ok (m, st), d) \<Rightarrow> (Ok ((i, c, cl) # m, st), d)))"

text \<open>An error ends the process, so only the database is of interest then.\<close>

definition leader_start :: "boot_env \<Rightarrow> int \<Rightarrow> api_state \<Rightarrow> (unit, store_error) result \<times> api_state" where
  "leader_start env epoch s =
     (let s = s\<lparr>ap_epoch := epoch\<rparr>; st = stats_reset (ap_stats s) in
      case faulty_read (be_rollups env) db_rollup (ap_db s) of
        Err e \<Rightarrow> (Err e, s\<lparr>ap_stats := st\<rparr>)
      | Ok rows \<Rightarrow>
          (case load_chains env (ap_chains s) (load_rollups rows st) (ap_db s) of
             (Err e, d) \<Rightarrow> (Err e, s\<lparr>ap_db := d\<rparr>)
           | (Ok (m, st), d) \<Rightarrow> (Ok (), s\<lparr>ap_db := d, ap_chains := m, ap_stats := st, ap_leader := True\<rparr>)))"

definition sweep_round :: "fault \<Rightarrow> instant \<Rightarrow> chain_ctx \<Rightarrow> stats \<Rightarrow> db \<Rightarrow> chain_ctx \<times> stats" where
  "sweep_round f inst c st d = (if \<not> has_room (cc_queue c) then (c, st) else snd (admit_from_store f inst c st d))"

section \<open>Bringing a chain up\<close>

datatype identity = Identified | WrongChain u64 | ShutDown | StillAsking

text \<open>Asking the endpoint for its chain id until it answers: an answer and, after a failed one, whether the
  engine is shut down meanwhile. Returns what came of it and the delays slept.\<close>

fun identify :: "u64 \<Rightarrow> duration \<Rightarrow> ((u64, rpc_error) result \<times> bool) list \<Rightarrow> identity \<times> duration list" where
  "identify chain_id delay [] = (StillAsking, [])"
| "identify chain_id delay ((Ok i, _) # as) = (if i = chain_id then Identified else WrongChain i, [])"
| "identify chain_id delay ((Err e, shutdown) # as) =
     (if shutdown then (ShutDown, [delay])
      else case identify chain_id (min (delay * 2) (ms 10000)) as of (r, ds) \<Rightarrow> (r, delay # ds))"

record signer_handle =
  sh_address :: address
  sh_key_ref :: string

datatype boot_error = BWrongChain u64 | NoTreasuryKey | BSigner signer_error | TreasuryIsSigner address | BStore store_error

record chain_env =
  ce_identity :: "((u64, rpc_error) result \<times> bool) list"
  ce_sync :: "(bool, rpc_error) result"
  ce_build :: "string \<Rightarrow> (signer_handle, signer_error) result"
  ce_register :: "address \<Rightarrow> fault"
  ce_ensure :: "address \<Rightarrow> fault"
  ce_orphans :: fault
  ce_utc :: timestamp

text \<open>Registering a signer on the chain: the pair starts paused, with the operator's pause of the store.\<close>

definition boot_pair :: "chain_env \<Rightarrow> u64 \<Rightarrow> pair_role \<Rightarrow> signer_handle \<Rightarrow> db \<Rightarrow> (pair, boot_error) result \<times> db" where
  "boot_pair env chain_id role h d =
     (case faulty (ce_register env (sh_address h)) (\<lambda>d. Ok (register_signer (ce_utc env) (sh_address h) (sh_key_ref h) role d, ())) d of
        (Err e, d) \<Rightarrow> (Err (BStore e), d)
      | (Ok _, d) \<Rightarrow>
      case faulty (ce_ensure env (sh_address h)) (\<lambda>d. Ok (ensure_pair (ce_utc env) chain_id (sh_address h) role d)) d of
        (Err e, d) \<Rightarrow> (Err (BStore e), d)
      | (Ok rec, d) \<Rightarrow>
          (Ok \<lparr>pa_key = \<lparr>pk_chain_id = chain_id, pk_signer = sh_address h\<rparr>, pa_role = role, pa_ledger = ledger_default,
               pa_state = pair_new (ce_utc env) (prr_manual_pause rec)\<rparr>, d))"

text \<open>The pairs in the order of the pool, up to the first failure.\<close>

fun boot_pairs :: "chain_env \<Rightarrow> u64 \<Rightarrow> signer_handle list \<Rightarrow> db \<Rightarrow> pair list \<times> (unit, boot_error) result \<times> db" where
  "boot_pairs env chain_id [] d = ([], Ok (), d)"
| "boot_pairs env chain_id (h # hs) d =
     (case boot_pair env chain_id RSigner h d of
        (Err e, d) \<Rightarrow> ([], Err e, d)
      | (Ok p, d) \<Rightarrow> (case boot_pairs env chain_id hs d of
          (ps, r, d) \<Rightarrow> (p\<lparr>pa_state := fst (request_recovery (pa_state p))\<rparr> # ps, r, d)))"

text \<open>Signers with live attempts and no key any more: they are alerted.\<close>

definition orphans :: "address \<Rightarrow> signer_handle list \<Rightarrow> u64 \<Rightarrow> db \<Rightarrow> address list" where
  "orphans treasury hs chain_id d =
     filter (\<lambda>a. a \<notin> sh_address ` set hs \<and> a \<noteq> treasury) (signers_with_live_attempts chain_id d)"

text \<open>The steps up to the monitors: the chain's context, the pairs that were created, with the treasury first,
  and the alerted signers, or \<open>None\<close> when the engine was shut down or still asks, or the error.\<close>

definition start_chain :: "chain_env \<Rightarrow> chain_ctx \<Rightarrow> signer_handle list \<Rightarrow> db
    \<Rightarrow> chain_ctx \<times> pair list \<times> (address list option, boot_error) result \<times> db" where
  "start_chain env c signers d =
     (case fst (identify (cc_chain_id c) (ms 500) (ce_identity env)) of
        WrongChain i \<Rightarrow> (c, [], Err (BWrongChain i), d)
      | ShutDown \<Rightarrow> (c, [], Ok None, d)
      | StillAsking \<Rightarrow> (c, [], Ok None, d)
      | Identified \<Rightarrow>
          let c = (if ce_sync env = Ok True then c\<lparr>cc_sync_send := True\<rparr> else c) in
          case (case cg_treasury_private_key (cc_cfg c) of Some k \<Rightarrow> Some k | None \<Rightarrow> cg_treasury_key_id (cc_cfg c)) of
            None \<Rightarrow> (c, [], Err NoTreasuryKey, d)
          | Some key \<Rightarrow>
          case ce_build env key of
            Err e \<Rightarrow> (c, [], Err (BSigner e), d)
          | Ok th \<Rightarrow>
              if sh_address th \<in> sh_address ` set signers then (c, [], Err (TreasuryIsSigner (sh_address th)), d)
              else (case boot_pair env (cc_chain_id c) RTreasury th d of
                (Err e, d) \<Rightarrow> (c, [], Err e, d)
              | (Ok tp, d) \<Rightarrow>
              case boot_pairs env (cc_chain_id c) signers d of
                (ps, Err e, d) \<Rightarrow> (c, tp # ps, Err e, d)
              | (ps, Ok _, d) \<Rightarrow>
              case faulty_read (ce_orphans env) (orphans (sh_address th) signers (cc_chain_id c)) d of
                Err e \<Rightarrow> (c, tp # ps, Err (BStore e), d)
              | Ok os \<Rightarrow> (c\<lparr>cc_started := True\<rparr>, tp # ps, Ok (Some os), d)))"

text \<open>A chain that cannot be started is paused for the operator; its jobs stay queued.\<close>

definition boot_chain :: "chain_env \<Rightarrow> chain_ctx \<Rightarrow> signer_handle list \<Rightarrow> db \<Rightarrow> chain_ctx \<times> pair list \<times> db" where
  "boot_chain env c signers d =
     (case start_chain env c signers d of
        (c, ps, Err e, d) \<Rightarrow> (c\<lparr>cc_operator_paused := True\<rparr>, ps, d)
      | (c, ps, Ok _, d) \<Rightarrow> (c, ps, d))"

section \<open>Supervision\<close>

text \<open>The delays before the restarts of a task by how long its runs last: doubling up to half a minute, back to the
  shortest after a run of more than a minute.\<close>

fun supervise :: "duration \<Rightarrow> duration list \<Rightarrow> duration list" where
  "supervise delay [] = []"
| "supervise delay (lasted # runs) =
     (let delay = (if ms 60000 < lasted then ms 500 else delay) in delay # supervise (min (delay * 2) (ms 30000)) runs)"

section \<open>The rebuilt counters\<close>

definition rollup_bag :: "rollup_rec list \<Rightarrow> place multiset" where
  "rollup_bag rows = (\<Sum>r\<leftarrow>rows. replicate_mset (unat (u64_of_i64 (max (ru_count r) 0)))
     ((u64_of_i64 (ru_chain_id r), ru_signer r), rollup_bucket (ru_bucket r)))"

definition live_bag :: "u64 \<Rightarrow> db \<Rightarrow> place multiset" where
  "live_bag i d = (\<Sum>j\<leftarrow>load_live_jobs i d. {#((i, jr_signer j), live_bucket j)#})"

definition queue_bag :: "u64 \<Rightarrow> job_queue \<Rightarrow> place multiset" where
  "queue_bag i q = replicate_mset (length (q_jobs q)) ((i, None), SQueued)"

text \<open>Where every job of the store and of the memory belongs.\<close>

definition places_of :: "api_state \<Rightarrow> place multiset" where
  "places_of s = rollup_bag (db_rollup (ap_db s))
     + (\<Sum>(i, c, cl)\<leftarrow>ap_chains s. live_bag i (ap_db s) + queue_bag i (cc_queue c))"

lemma stats_rel_bt: "stats_rel st M \<Longrightarrow> size M < 2 ^ 64"
  by (simp add: stats_rel_def)

lemma load_rollups_rel:
  "stats_rel st M \<Longrightarrow> size M + size (rollup_bag rows) < 2 ^ 64 \<Longrightarrow> stats_rel (load_rollups rows st) (M + rollup_bag rows)"
proof (induction rows arbitrary: st M)
  case (Cons r rows)
  let ?n = "u64_of_i64 (max (ru_count r) 0)"
  have "stats_rel (stats_add (u64_of_i64 (ru_chain_id r)) (ru_signer r) (rollup_bucket (ru_bucket r)) ?n st)
      (M + replicate_mset (unat ?n) ((u64_of_i64 (ru_chain_id r), ru_signer r), rollup_bucket (ru_bucket r)))" (is "stats_rel ?st ?M")
    using Cons.prems by (intro stats_rel_add) (simp_all add: rollup_bag_def)
  from Cons.IH [OF this] Cons.prems(2) show ?case
    by (simp add: load_rollups_def rollup_bag_def ac_simps)
qed (simp add: load_rollups_def rollup_bag_def)

lemma count_live_rel:
  "stats_rel st M \<Longrightarrow> size M + length rows < 2 ^ 64 \<Longrightarrow>
   stats_rel (count_live i rows st) (M + (\<Sum>j\<leftarrow>rows. {#((i, jr_signer j), live_bucket j)#}))"
proof (induction rows arbitrary: st M)
  case (Cons j rows)
  have "stats_rel (stats_add i (jr_signer j) (live_bucket j) 1 st) (M + replicate_mset (unat (1 :: u64)) ((i, jr_signer j), live_bucket j))"
    using Cons.prems by (intro stats_rel_add) simp_all
  from Cons.IH [OF this] Cons.prems(2) show ?case by (simp add: count_live_def ac_simps)
qed (simp add: count_live_def)

lemma admit_loop_rel:
  "stats_rel st M \<Longrightarrow> size M + length js < 2 ^ 64 \<Longrightarrow> admit_loop i js (n, q, st) = (n', q', st') \<Longrightarrow>
   \<exists>k. n' = n + k \<and> length (q_jobs q') = length (q_jobs q) + k \<and> stats_rel st' (M + replicate_mset k ((i, None), SQueued))
     \<and> k \<le> length js"
proof (induction js arbitrary: st M n q)
  case (Cons j js)
  obtain r q1 where a: "admit j q = (r, q1)" by fastforce
  show ?case
  proof (cases "r = AdmQueued")
    case True
    have rel: "stats_rel (stats_add i None SQueued 1 st) (M + replicate_mset (unat (1 :: u64)) ((i, None), SQueued))"
      using Cons.prems by (intro stats_rel_add) simp_all
    have rest: "admit_loop i js (Suc n, q1, stats_add i None SQueued 1 st) = (n', q', st')" using Cons.prems(3) a True by simp
    have "size (M + replicate_mset (unat (1 :: u64)) ((i, None), SQueued)) + length js < 2 ^ 64" using Cons.prems(2) by simp
    from Cons.IH [OF rel this rest] obtain k where
      "n' = Suc n + k" "length (q_jobs q') = length (q_jobs q1) + k" "k \<le> length js"
      "stats_rel st' (M + replicate_mset (Suc k) ((i, None), SQueued))" by auto
    moreover have "length (q_jobs q1) = Suc (length (q_jobs q))"
      using a True by (auto simp: admit_def split: if_splits)
    ultimately show ?thesis by (intro exI [of _ "Suc k"]) simp
  next
    case False
    then have "q_jobs q1 = q_jobs q" using a by (auto simp: admit_def split: if_splits)
    moreover have "admit_loop i js (n, q1, st) = (n', q', st')" using Cons.prems(3) a False by simp
    ultimately show ?thesis using Cons.IH [OF Cons.prems(1), of n q1] Cons.prems(2) by fastforce
  qed
qed simp

lemma load_chain_rel:
  assumes "load_chain env c st d = (Ok (c', st'), d')" "stats_rel st M" "q_jobs (cc_queue c) = []"
    and "size M + 2 * length (db_jobs d) < 2 ^ 64"
  shows "stats_rel st' (M + (live_bag (cc_chain_id c) d' + queue_bag (cc_chain_id c) (cc_queue c')))
    \<and> size (live_bag (cc_chain_id c) d' + queue_bag (cc_chain_id c) (cc_queue c')) \<le> 2 * length (db_jobs d)
    \<and> cc_chain_id c' = cc_chain_id c \<and> db_jobs d' = db_jobs d \<and> db_rollup d' = db_rollup d"
proof -
  let ?i = "cc_chain_id c"
  obtain js n q where read: "be_live env ?i = Works" and d': "db_jobs d' = db_jobs d" "db_rollup d' = db_rollup d"
    and load: "load_queued (be_inst env) ?i (q_window (cc_queue c)) d' = Ok js"
    and loop: "admit_loop ?i js (0, cc_queue c, count_live ?i (load_live_jobs ?i d) st) = (n, q, st')"
    and c': "c' = c\<lparr>cc_queue := reset_overflow q\<rparr>"
    using assms(1)
    by (auto simp: load_chain_def admit_from_store_def faulty_read_def faulty_def fail_unbound_topups_def Let_def
        split: fault.splits sum.splits prod.splits)
  have same: "load_live_jobs ?i d' = load_live_jobs ?i d" by (simp add: load_live_jobs_def d')
  have short: "length (load_live_jobs ?i d) \<le> length (db_jobs d)" by (simp add: load_live_jobs_def)
  moreover have few: "length js \<le> length (db_jobs d)"
  proof -
    have "length js \<le> length (filter (queued_on ?i) (db_jobs d'))"
      using load by (auto simp: load_queued_def pop_order_def split: if_splits dest!: collect_results_eq_Ok arg_cong [of _ _ length])
    then show ?thesis using length_filter_le le_trans d'(1) by metis
  qed
  moreover have live: "size (\<Sum>j\<leftarrow>load_live_jobs ?i d. {#((?i, jr_signer j), live_bucket j)#}) = length (load_live_jobs ?i d)"
    by (simp add: size_list_conv_sum_list [symmetric] comp_def flip: sum_list_triv)
  ultimately have sz: "size M + length (load_live_jobs ?i d) < 2 ^ 64"
    "size (M + (\<Sum>j\<leftarrow>load_live_jobs ?i d. {#((?i, jr_signer j), live_bucket j)#})) + length js < 2 ^ 64"
    using assms(4) by simp_all
  from admit_loop_rel [OF count_live_rel [OF assms(2) sz(1)] sz(2) loop] assms(3) short few live show ?thesis
    by (auto simp: live_bag_def same queue_bag_def c' d' reset_overflow_def ac_simps)
qed

lemma live_bag_cong: "db_jobs d' = db_jobs d \<Longrightarrow> live_bag i d' = live_bag i d"
  by (simp add: live_bag_def load_live_jobs_def)

definition fresh_chains :: "(u64, chain_ctx \<times> rpc_client) btree \<Rightarrow> bool" where
  "fresh_chains m = list_all (\<lambda>(i, c, cl). cc_chain_id c = i \<and> q_jobs (cc_queue c) = []) m"

lemma load_chains_rel:
  "load_chains env m st d = (Ok (m', st'), d') \<Longrightarrow> stats_rel st M \<Longrightarrow> fresh_chains m \<Longrightarrow>
   size M + 2 * length m * length (db_jobs d) < 2 ^ 64 \<Longrightarrow>
   stats_rel st' (M + (\<Sum>(i, c, cl)\<leftarrow>m'. live_bag i d' + queue_bag i (cc_queue c)))
     \<and> map fst m' = map fst m \<and> db_jobs d' = db_jobs d \<and> db_rollup d' = db_rollup d"
proof (induction env m st d arbitrary: M m' st' d' rule: load_chains.induct)
  case (2 env i c cl m st d)
  obtain c1 st1 d1 m2 where one: "load_chain env c st d = (Ok (c1, st1), d1)"
    and rest: "load_chains env m st1 d1 = (Ok (m2, st'), d')" and m': "m' = (i, c1, cl) # m2"
    using "2.prems"(1) by (auto split: prod.splits sum.splits)
  have i: "cc_chain_id c = i" "q_jobs (cc_queue c) = []" "fresh_chains m" using "2.prems"(3) by (simp_all add: fresh_chains_def)
  let ?B = "live_bag i d1 + queue_bag i (cc_queue c1)"
  have rel: "stats_rel st1 (M + ?B)" "size ?B \<le> 2 * length (db_jobs d)" "db_jobs d1 = db_jobs d" "db_rollup d1 = db_rollup d"
    using load_chain_rel [OF one "2.prems"(2) i(2)] "2.prems"(4) i(1) by auto
  have "size (M + ?B) + 2 * length m * length (db_jobs d1) < 2 ^ 64" using "2.prems"(4) rel(2,3) by (simp add: algebra_simps)
  from "2.IH" [OF one [symmetric] refl refl rest rel(1) i(3) this] rel(3,4) show ?case
    by (auto simp: m' live_bag_cong [of d' d1] ac_simps)
qed simp

text \<open>C31. The rebuilt counters match the store and the memory. When a new leader's start succeeds, every counter is
  exact: what the rollup says for finished jobs, one per live row of a configured chain under its signer and
  status, and one per job loaded into the chain's queue; nothing else is counted, whatever the counters said
  before.\<close>

theorem rebuilt_counters_are_exact:
  assumes "leader_start env epoch s = (Ok (), s')" "fresh_chains (ap_chains s)"
    and "size (rollup_bag (db_rollup (ap_db s))) + 2 * length (ap_chains s) * length (db_jobs (ap_db s)) < 2 ^ 64"
  shows "stats_rel (ap_stats s') (places_of s') \<and> ap_leader s' \<and> ap_epoch s' = epoch \<and> map fst (ap_chains s') = map fst (ap_chains s)"
proof -
  obtain m st d where works: "be_rollups env = Works"
    and load: "load_chains env (ap_chains s) (load_rollups (db_rollup (ap_db s)) []) (ap_db s) = (Ok (m, st), d)"
    and s': "s' = s\<lparr>ap_epoch := epoch, ap_db := d, ap_chains := m, ap_stats := st, ap_leader := True\<rparr>"
    using assms(1) by (auto simp: leader_start_def faulty_read_def stats_reset_def Let_def split: fault.splits sum.splits prod.splits)
  have rel: "stats_rel (load_rollups (db_rollup (ap_db s)) []) (rollup_bag (db_rollup (ap_db s)))"
    using load_rollups_rel [OF stats_rel_empty] assms(3) by fastforce
  from load_chains_rel [OF load rel assms(2,3)] show ?thesis by (simp add: s' places_of_def)
qed

definition calm_boot :: boot_env where
  "calm_boot = \<lparr>be_rollups = Works, be_live = (\<lambda>_. Works), be_topups = (\<lambda>_. Works), be_load = (\<lambda>_. Works), be_utc = 5, be_inst = 5\<rparr>"

lemma load_demo:
  "load_queued 5 1 8 demo_db1 = Ok [\<lparr>qj_id = 100, qj_request = demo_request, qj_requeue_count = 0, qj_created_at = 1, qj_enqueued_at = 5\<rparr>]"
  by (simp add: load_queued_def pop_order_def queued_on_def to_queued_def parse_u256_def demo_db1_def demo_job_def new_job_rec_def
      demo_new_def demo_request_def empty_db_def job_row.truncate_def i64_of_u64_def)

definition standby :: api_state where
  "standby = small_engine\<lparr>ap_db := demo_db1, ap_leader := False, ap_stats := stats_add 1 None SFailed 3 []\<rparr>"

definition demo_queued :: queued_job where
  "demo_queued = \<lparr>qj_id = 100, qj_request = demo_request, qj_requeue_count = 0, qj_created_at = 1, qj_enqueued_at = 5\<rparr>"

definition loaded_chain :: chain_ctx where
  "loaded_chain = small_chain\<lparr>cc_queue := (queue_new 8)\<lparr>q_jobs := [demo_queued], q_known := {100}\<rparr>\<rparr>"

definition led :: api_state where
  "led = standby\<lparr>ap_epoch := 4, ap_chains := [(1, loaded_chain, client_new 0 0 1 1 1 1)], ap_stats := stats_add 1 None SQueued 1 [], ap_leader := True\<rparr>"

lemma small_chain_simps [simp]: "cc_queue small_chain = queue_new 8" "cc_chain_id small_chain = 1"
  by (simp_all add: small_chain_def chain_ctx_new_def)

lemma live_demo: "load_live_jobs 1 demo_db1 = []"
  by (simp add: load_live_jobs_def demo_db1_def demo_job_def new_job_rec_def Let_def empty_db_def)

lemma load_small: "load_chain calm_boot small_chain [] demo_db1 = (Ok (loaded_chain, stats_add 1 None SQueued 1 []), demo_db1)"
proof -
  have "fail_unbound_topups 5 1 demo_db1 = (demo_db1, 0)"
    by (simp add: fail_unbound_topups_def demo_db1_def empty_db_def Let_def sql_update_def sql_count_def)
  then show ?thesis
    by (simp add: load_chain_def calm_boot_def live_demo faulty_read_def faulty_def count_live_def admit_from_store_def load_demo queue_new_def
        admit_def reset_overflow_def Let_def max_def word_le_nat_alt loaded_chain_def demo_queued_def)
qed

lemma standby_starts: "leader_start calm_boot 4 standby = (Ok (), led)"
proof -
  have "be_rollups calm_boot = Works" "db_rollup demo_db1 = []" by (simp_all add: calm_boot_def demo_db1_def empty_db_def)
  then show ?thesis
    using load_small by (simp add: leader_start_def standby_def small_engine_def faulty_read_def stats_reset_def load_rollups_def led_def)
qed

lemma led_places: "places_of led = {#((1, None), SQueued)#}"
  by (simp add: places_of_def led_def standby_def rollup_bag_def live_bag_def live_demo queue_bag_def loaded_chain_def demo_db1_def empty_db_def)
    (simp add: load_live_jobs_def demo_job_def new_job_rec_def Let_def)

theorem rebuilt_counters_are_exact_witness:
  "fst (leader_start calm_boot 4 standby) = Ok ()
   \<and> stats_rel (ap_stats (snd (leader_start calm_boot 4 standby))) {#((1, None), SQueued)#}"
proof -
  have "fresh_chains (ap_chains standby)" by (simp add: fresh_chains_def standby_def small_engine_def queue_new_def)
  moreover have "size (rollup_bag (db_rollup (ap_db standby))) + 2 * length (ap_chains standby) * length (db_jobs (ap_db standby)) < 2 ^ 64"
    by (simp add: standby_def small_engine_def rollup_bag_def demo_db1_def empty_db_def)
  ultimately show ?thesis using rebuilt_counters_are_exact [OF standby_starts] led_places standby_starts by simp
qed

text \<open>An operator cancel whose store call fails has already taken the job out of memory, and its counter stays: the
  next sweep loads the job again and counts it a second time.\<close>

lemma failed_cancel_counts_the_job_twice:
  "case admin_cancel_job Works (LostBefore PoolTimedOut) 6 600 100 led of
     (r, s) \<Rightarrow> (\<exists>e. r = Err e) \<and> ap_db s = ap_db led
       \<and> (case engine_chain s 1 of Some (c, _) \<Rightarrow> stats_queued 1 (snd (sweep_round Works 5 c (ap_stats s) (ap_db s))) = 2 | None \<Rightarrow> False)"
proof -
  have g: "\<exists>j. get_job 100 demo_db1 = Some j \<and> jr_chain_id j = 1"
    by (simp add: get_job_def demo_db1_def demo_job_def new_job_rec_def demo_new_def demo_request_def job_row.truncate_def Let_def)
  then obtain j where j: "get_job 100 demo_db1 = Some j" "jr_chain_id j = 1" by blast
  have "loaded_chain\<lparr>cc_queue := q\<rparr> = small_chain\<lparr>cc_queue := q\<rparr>" for q by (simp add: loaded_chain_def)
  then show ?thesis
    by (simp add: admin_cancel_job_def led_def standby_def faulty_read_def faulty_def j engine_chain_def bt_get_def loaded_chain_def queue_remove_def
        demo_queued_def put_chain_def sweep_round_def has_room_def queue_new_def admit_from_store_def load_demo admit_def Let_def
        stats_queued_def stats_add_def counts_add_def counts_default_def word_le_nat_alt max_def)
qed

end
