(* ===== verification/Lease.thy ===== *)
theory Lease
  imports Store_Theorems Faults
begin

text \<open>
  \<^verbatim>\<open>store/lease.rs\<close>: exactly one process may drive signers. The lease is a session-level advisory lock plus the
  epoch row. The loop that waits for the lock, the bump of the epoch and the heartbeat are definitions over
  what the connection answers; the second half composes several processes over one database: the lock may be
  lost without its holder noticing, and the epoch check of the store decides who may bind.
\<close>

section \<open>Waiting for the lock\<close>

text \<open>One turn of the loop: whether the process is shut down at its head, whether a connection attempt succeeds, what
  the lock query answers, and whether shutdown comes during the wait that follows a refused lock.\<close>

record lease_turn =
  lt_shutdown :: bool
  lt_connects :: bool
  lt_lock :: "(bool, sqlx_error) result"
  lt_shutdown_waiting :: bool

datatype lock_end = LockTaken | LockShutDown | LockWaiting

fun wait_for_lock :: "bool \<Rightarrow> lease_turn list \<Rightarrow> lock_end" where
  "wait_for_lock connected [] = LockWaiting"
| "wait_for_lock connected (t # ts) =
     (if lt_shutdown t then LockShutDown
      else if \<not> connected \<and> \<not> lt_connects t then wait_for_lock False ts
      else case lt_lock t of
        Ok True \<Rightarrow> LockTaken
      | Ok False \<Rightarrow> if lt_shutdown_waiting t then LockShutDown else wait_for_lock True ts
      | Err e \<Rightarrow> wait_for_lock False ts)"

text \<open>\<open>Lease::acquire\<close>: the epoch is bumped only with the lock; no lease without an answered bump.\<close>

definition lease_acquire :: "lease_turn list \<Rightarrow> fault \<Rightarrow> db \<Rightarrow> (int option, store_error) result \<times> db" where
  "lease_acquire turns f d =
     (case wait_for_lock False turns of
        LockTaken \<Rightarrow> (case faulty f (\<lambda>d. Ok (bump_epoch d)) d of (r, d) \<Rightarrow> (and_then r (\<lambda>e. Ok (Some e)), d))
      | LockShutDown \<Rightarrow> (Ok None, d)
      | LockWaiting \<Rightarrow> (Ok None, d))"

section \<open>Heartbeat\<close>

datatype beat = BeatReleased | BeatAnswered | BeatMissed

datatype lease_fate = LeaseReleased | LeaseLost | LeaseHeld nat

fun heartbeat :: "nat \<Rightarrow> beat list \<Rightarrow> lease_fate" where
  "heartbeat misses [] = LeaseHeld misses"
| "heartbeat misses (b # bs) =
     (case b of
        BeatReleased \<Rightarrow> LeaseReleased
      | BeatAnswered \<Rightarrow> heartbeat 0 bs
      | BeatMissed \<Rightarrow> if 2 \<le> misses + 1 then LeaseLost else heartbeat (misses + 1) bs)"

text \<open>The lease is given up only on two missed beats in a row, before it was released.\<close>

lemma heartbeat_lost:
  "heartbeat m bs = LeaseLost \<Longrightarrow> m < 2 \<Longrightarrow> \<exists>us vs. replicate m BeatMissed @ bs = us @ BeatMissed # BeatMissed # vs \<and> BeatReleased \<notin> set us"
proof (induction m bs rule: heartbeat.induct)
  case (2 m b bs)
  show ?case
  proof (cases b)
    case BeatReleased
    with "2.prems" show ?thesis by simp
  next
    case BeatAnswered
    from "2.IH"(1) [OF BeatAnswered] "2.prems" BeatAnswered obtain us vs where "bs = us @ BeatMissed # BeatMissed # vs" "BeatReleased \<notin> set us" by auto
    then show ?thesis by (intro exI [of _ "replicate m BeatMissed @ BeatAnswered # us"] exI [of _ vs]) (auto simp: BeatAnswered)
  next
    case BeatMissed
    show ?thesis
    proof (cases m)
      case 0
      with "2.IH"(2) [OF BeatMissed] "2.prems" BeatMissed show ?thesis by simp
    next
      case (Suc k)
      with "2.prems" have "replicate m BeatMissed @ b # bs = [] @ BeatMissed # BeatMissed # bs" by (simp add: BeatMissed)
      then show ?thesis by (intro exI [of _ "[]"] exI [of _ bs]) simp
    qed
  qed
qed simp

section \<open>Several processes over one database\<close>

text \<open>The session that holds the lock, if any, and the epoch under which each process works, until it stops.\<close>

record cluster =
  cs_db :: db
  cs_holder :: "nat option"
  cs_epoch :: "nat \<Rightarrow> int option"

definition cluster_new :: "db \<Rightarrow> cluster" where
  "cluster_new d = \<lparr>cs_db = d, cs_holder = None, cs_epoch = (\<lambda>_. None)\<rparr>"

text \<open>A process takes the free lock and bumps the epoch, and learns it or not; the session of the holder ends,
  by release or unnoticed; a process stops; some process commits a transaction of the store.\<close>

inductive cluster_step :: "cluster \<Rightarrow> cluster \<Rightarrow> bool" where
  takes: "cs_holder c = None \<Longrightarrow> bump_epoch (cs_db c) = (d, e) \<Longrightarrow>
    cluster_step c (c\<lparr>cs_db := d, cs_holder := Some i, cs_epoch := (cs_epoch c)(i := Some e)\<rparr>)"
| loses_answer: "cs_holder c = None \<Longrightarrow> bump_epoch (cs_db c) = (d, e) \<Longrightarrow> cluster_step c (c\<lparr>cs_db := d\<rparr>)"
| session_ends: "cs_holder c = Some i \<Longrightarrow> cluster_step c (c\<lparr>cs_holder := None\<rparr>)"
| stops: "cluster_step c (c\<lparr>cs_epoch := (cs_epoch c)(i := None)\<rparr>)"
| commits: "store_step (cs_db c) d \<Longrightarrow> db_epoch d = db_epoch (cs_db c) \<Longrightarrow> cluster_step c (c\<lparr>cs_db := d\<rparr>)"

inductive_cases cluster_stepE: "cluster_step c c'"

definition cluster_inv :: "cluster \<Rightarrow> bool" where
  "cluster_inv c \<longleftrightarrow> (\<forall>i e. cs_epoch c i = Some e \<longrightarrow> e \<le> db_epoch (cs_db c))
     \<and> (\<forall>i j e. cs_epoch c i = Some e \<longrightarrow> cs_epoch c j = Some e \<longrightarrow> i = j)
     \<and> (\<forall>i e. cs_holder c = Some i \<longrightarrow> cs_epoch c i = Some e \<longrightarrow> e = db_epoch (cs_db c))"

lemma cluster_invI:
  assumes "\<And>i e. cs_epoch c i = Some e \<Longrightarrow> e \<le> db_epoch (cs_db c)"
    and "\<And>i j e. cs_epoch c i = Some e \<Longrightarrow> cs_epoch c j = Some e \<Longrightarrow> i = j"
    and "\<And>i e. cs_holder c = Some i \<Longrightarrow> cs_epoch c i = Some e \<Longrightarrow> e = db_epoch (cs_db c)"
  shows "cluster_inv c"
  unfolding cluster_inv_def by (intro conjI allI impI) (fact assms)+

lemma cluster_inv_new: "cluster_inv (cluster_new d)"
  by (simp add: cluster_inv_def cluster_new_def)

lemma cluster_inv_step: "cluster_step c c' \<Longrightarrow> cluster_inv c \<Longrightarrow> cluster_inv c'"
proof (induction rule: cluster_step.induct)
  case (takes c d e i)
  then have d: "db_epoch d = db_epoch (cs_db c) + 1" "e = db_epoch (cs_db c) + 1" by (auto simp: bump_epoch_def)
  have old: "x \<le> db_epoch (cs_db c)" if "cs_epoch c k = Some x" for k x using takes(3) that by (auto simp: cluster_inv_def)
  have unique: "k = l" if "cs_epoch c k = Some x" "cs_epoch c l = Some x" for k l x
    using takes(3) that unfolding cluster_inv_def by blast
  show ?case
  proof (rule cluster_invI)
    fix k x assume "cs_epoch (c\<lparr>cs_db := d, cs_holder := Some i, cs_epoch := (cs_epoch c)(i := Some e)\<rparr>) k = Some x"
    then show "x \<le> db_epoch (cs_db (c\<lparr>cs_db := d, cs_holder := Some i, cs_epoch := (cs_epoch c)(i := Some e)\<rparr>))"
      using old [of k x] d by (simp split: if_splits)
  next
    fix k l x assume "cs_epoch (c\<lparr>cs_db := d, cs_holder := Some i, cs_epoch := (cs_epoch c)(i := Some e)\<rparr>) k = Some x"
      "cs_epoch (c\<lparr>cs_db := d, cs_holder := Some i, cs_epoch := (cs_epoch c)(i := Some e)\<rparr>) l = Some x"
    then show "k = l" using old [of k x] old [of l x] unique [of k x l] d by (simp split: if_splits)
  next
    fix k x assume "cs_holder (c\<lparr>cs_db := d, cs_holder := Some i, cs_epoch := (cs_epoch c)(i := Some e)\<rparr>) = Some k"
      "cs_epoch (c\<lparr>cs_db := d, cs_holder := Some i, cs_epoch := (cs_epoch c)(i := Some e)\<rparr>) k = Some x"
    then show "x = db_epoch (cs_db (c\<lparr>cs_db := d, cs_holder := Some i, cs_epoch := (cs_epoch c)(i := Some e)\<rparr>))"
      using d by simp
  qed
next
  case (loses_answer c d e)
  then show ?case by (fastforce simp: cluster_inv_def bump_epoch_def)
qed (auto simp: cluster_inv_def)

lemma cluster_inv_run: "cluster_step\<^sup>*\<^sup>* c c' \<Longrightarrow> cluster_inv c \<Longrightarrow> cluster_inv c'"
  by (induction rule: rtranclp_induct) (auto dest: cluster_inv_step)

text \<open>C4. Of all processes only one can bind. However processes take and lose the lease, notice it or not, and commit
  transactions meanwhile, of any two that still work under an epoch of theirs at least one is refused as
  fenced, whatever it binds; and the process that holds the lock is not the one that is fenced.\<close>

theorem only_one_process_may_bind:
  assumes "cluster_step\<^sup>*\<^sup>* (cluster_new d) c" "cs_epoch c i = Some e" "cs_epoch c j = Some e'" "i \<noteq> j"
  shows "(bind_attempt now e a kind (cs_db c) = Err (Fenced e) \<or> bind_attempt now' e' a' kind' (cs_db c) = Err (Fenced e'))
    \<and> (cs_holder c = Some i \<longrightarrow> e = db_epoch (cs_db c))"
proof -
  have inv: "cluster_inv c" using cluster_inv_run [OF assms(1) cluster_inv_new] .
  then have "e \<noteq> e'" using assms(2-4) unfolding cluster_inv_def by blast
  then have "db_epoch (cs_db c) \<noteq> e \<or> db_epoch (cs_db c) \<noteq> e'" by auto
  then show ?thesis using inv assms(2) by (auto simp: bind_attempt_def cluster_inv_def)
qed

text \<open>Process 1 loses its session without noticing and process 2 takes over.\<close>

definition split_cluster :: cluster where
  "split_cluster = \<lparr>cs_db = empty_db\<lparr>db_epoch := 2\<rparr>, cs_holder = Some 2, cs_epoch = (\<lambda>_. None)(1 := Some 1, 2 := Some 2)\<rparr>"

lemma split_reachable: "cluster_step\<^sup>*\<^sup>* (cluster_new empty_db) split_cluster"
proof -
  let ?c1 = "\<lparr>cs_db = empty_db\<lparr>db_epoch := 1\<rparr>, cs_holder = Some 1, cs_epoch = (\<lambda>_. None)(1 := Some 1)\<rparr>"
  have 1: "cluster_step (cluster_new empty_db) ?c1"
    using takes [of "cluster_new empty_db" "empty_db\<lparr>db_epoch := 1\<rparr>" 1 1] by (simp add: cluster_new_def bump_epoch_def empty_db_def)
  have 2: "cluster_step ?c1 (?c1\<lparr>cs_holder := None\<rparr>)" by (rule session_ends) simp
  have 3: "cluster_step (?c1\<lparr>cs_holder := None\<rparr>) split_cluster"
    using takes [of "?c1\<lparr>cs_holder := None\<rparr>" "empty_db\<lparr>db_epoch := 2\<rparr>" 2 2] by (simp add: split_cluster_def bump_epoch_def)
  show ?thesis using 1 2 3 by (meson converse_rtranclp_into_rtranclp rtranclp.rtrancl_refl)
qed

theorem only_one_process_may_bind_witness:
  "bind_attempt 9 1 demo_first First (cs_db split_cluster) = Err (Fenced 1) \<or> bind_attempt 9 2 demo_first First (cs_db split_cluster) = Err (Fenced 2)"
  using only_one_process_may_bind [OF split_reachable, of 1 1 2 2 9 demo_first First 9 demo_first First] by (simp add: split_cluster_def)

end
