(* ===== verification/Balances.thy ===== *)
theory Balances
  imports Treasury Rpc_Client
begin

text \<open>
  \<^verbatim>\<open>crates/gum-engine/src/funds/monitor.rs\<close>: the balance monitor of a chain. A round may read the balances of the pairs,
  reconciles their ledgers under tickets taken before the read, and then lifts funding pauses or asks for
  top-ups. What the node answers, already decoded, and what other tasks do to the ledgers between the tickets and
  the answer (\<open>mw\<close>) are arguments.
\<close>

section \<open>Reading\<close>

text \<open>Which pairs a round reads: in a cheap pass the treasury and those waiting for funds.\<close>

definition waits_for_funds :: "pair \<Rightarrow> bool" where
  "waits_for_funds p = (reason_of (pa_state p) = Some InsufficientFunds)"

definition sweep_target :: "bool \<Rightarrow> pair \<Rightarrow> bool" where
  "sweep_target cheap p = (\<not> cheap \<or> pa_role p = RTreasury \<or> waits_for_funds p)"

text \<open>One Multicall3 read: a word per target, then the block number. Targets take their words in order.\<close>

fun apply_words :: "(pair \<Rightarrow> bool) \<Rightarrow> (pair_key \<Rightarrow> ledger \<Rightarrow> ledger) \<Rightarrow> u64 \<Rightarrow> u256 list \<Rightarrow> pair list \<Rightarrow> pair list" where
  "apply_words target mw block ws [] = []"
| "apply_words target mw block ws (p # ps) =
     (let l = mw (pa_key p) (pa_ledger p) in
      if target p
      then (case ws of
              w # ws' \<Rightarrow> p\<lparr>pa_ledger := snd (reconcile (begin_reconcile (pa_ledger p)) w block l)\<rparr> # apply_words target mw block ws' ps
            | [] \<Rightarrow> p\<lparr>pa_ledger := l\<rparr> # apply_words target mw block [] ps)
      else p\<lparr>pa_ledger := l\<rparr> # apply_words target mw block ws ps)"

text \<open>Without Multicall3, one read per target, dated by the last observed head; the first error ends the reading.\<close>

fun apply_plain :: "(pair \<Rightarrow> bool) \<Rightarrow> (pair_key \<Rightarrow> ledger \<Rightarrow> ledger) \<Rightarrow> u64 \<Rightarrow> (pair_key \<Rightarrow> (u256, rpc_error) result) \<Rightarrow> pair list
    \<Rightarrow> (unit, rpc_error) result \<times> pair list" where
  "apply_plain target mw head read [] = (Ok (), [])"
| "apply_plain target mw head read (p # ps) =
     (let l = mw (pa_key p) (pa_ledger p) in
      if target p
      then (case read (pa_key p) of
              Err e \<Rightarrow> (Err e, p\<lparr>pa_ledger := l\<rparr> # map (\<lambda>q. q\<lparr>pa_ledger := mw (pa_key q) (pa_ledger q)\<rparr>) ps)
            | Ok w \<Rightarrow> (case apply_plain target mw head read ps of
                (r, ps') \<Rightarrow> (r, p\<lparr>pa_ledger := snd (reconcile (begin_reconcile (pa_ledger p)) w head l)\<rparr> # ps')))
      else (case apply_plain target mw head read ps of (r, ps') \<Rightarrow> (r, p\<lparr>pa_ledger := l\<rparr> # ps')))"

record balance_env =
  ba_multicall :: "(u256 list, rpc_error) result"
  ba_plain :: "pair_key \<Rightarrow> (u256, rpc_error) result"
  ba_mw :: "pair_key \<Rightarrow> ledger \<Rightarrow> ledger"
  ba_now :: instant
  ba_utc :: timestamp

definition leave_to_others :: "balance_env \<Rightarrow> pair list \<Rightarrow> pair list" where
  "leave_to_others env ps = map (\<lambda>q. q\<lparr>pa_ledger := ba_mw env (pa_key q) (pa_ledger q)\<rparr>) ps"

definition reconcile_targets :: "balance_env \<Rightarrow> bool \<Rightarrow> (pair \<Rightarrow> bool) \<Rightarrow> chain_ctx \<Rightarrow> pair list
    \<Rightarrow> (unit, rpc_error) result \<times> chain_ctx \<times> pair list" where
  "reconcile_targets env has_multicall target c ps =
     (let n = length (filter target ps) in
      if n = 0 then (Ok (), c, leave_to_others env ps)
      else if has_multicall
      then (case ba_multicall env of
              Err e \<Rightarrow> (Err e, c, leave_to_others env ps)
            | Ok ws \<Rightarrow>
                if length ws \<noteq> n + 1
                then (Err (Decode ''multicall3 returned an unexpected number of results''), c, leave_to_others env ps)
                else let block = sat_cast (ws ! n)
                     in (Ok (), snd (observe_head (ba_now env) block None c), apply_words target (ba_mw env) block ws ps))
      else (case apply_plain target (ba_mw env) (chain_head c) (ba_plain env) ps of (r, ps') \<Rightarrow> (r, c, ps')))"

section \<open>After the read\<close>

definition lift_funds_pause :: "timestamp \<Rightarrow> pair \<Rightarrow> pair" where
  "lift_funds_pause utc p = p\<lparr>pa_state := fst (snd (resume_if utc InsufficientFunds (pa_state p)))\<rparr>"

text \<open>What a round does for one pair: the pair, and whether a top-up is requested for it.\<close>

definition settle_pair :: "timestamp \<Rightarrow> instant \<Rightarrow> chain_ctx \<Rightarrow> pair \<Rightarrow> pair \<times> bool" where
  "settle_pair utc now c p =
     (case spendable now (cc_adapter c) (pa_role p) (pa_ledger p) of
        (available, l) \<Rightarrow>
          let p = p\<lparr>pa_ledger := l\<rparr> in
          if pa_role p = RTreasury
          then (if waits_for_funds p \<and> cg_topup_amount (cc_cfg c) \<le> available then lift_funds_pause utc p else p, False)
          else
            let paused = waits_for_funds p; low = (lv_initialised (view l) \<and> available < cg_signer_min_balance (cc_cfg c)) in
            if \<not> (low \<or> paused) then (p, False)
            else if paused \<and> \<not> low \<and> ps_current (pa_state p) = None then (lift_funds_pause utc p, False)
            else (p, True))"

text \<open>When the requested top-up is answered.\<close>

definition topup_answered :: "timestamp \<Rightarrow> bool \<Rightarrow> pair \<Rightarrow> pair" where
  "topup_answered utc ok p = (if ok \<and> ps_current (pa_state p) = None then lift_funds_pause utc p else p)"

text \<open>One slice of the loop: the chain, the time of the last full sweep, the pairs, and the pairs to top up.\<close>

definition balance_round :: "balance_env \<Rightarrow> bool \<Rightarrow> chain_ctx \<Rightarrow> instant \<Rightarrow> pair list
    \<Rightarrow> chain_ctx \<times> instant \<times> pair list \<times> pair_key list" where
  "balance_round env has_multicall c last_full ps =
     (let every = millis (max (balance_sweep_interval_ms (cc_tunables c)) 5000);
          waiting = (\<exists>p\<in>set ps. waits_for_funds p);
          full = (every \<le> elapsed (ba_now env) last_full) in
      if \<not> (waiting \<or> full) \<or> chain_status_of c = Down then (c, last_full, leave_to_others env ps, [])
      else
        let last_full = (if full then ba_now env else last_full);
            cheap = (waiting \<and> \<not> full) in
        case reconcile_targets env has_multicall (sweep_target cheap) c ps of
          (Err e, c, ps) \<Rightarrow> (c, last_full, ps, [])
        | (Ok _, c, ps) \<Rightarrow>
            let rs = map (settle_pair (ba_utc env) (ba_now env) c) ps
            in (c, last_full, map fst rs, map (pa_key \<circ> fst) (filter snd rs)))"

section \<open>Reads never overwrite fresher knowledge\<close>

text \<open>What a read may do to a ledger that other tasks left as \<open>l\<close>: nothing, or set the balance when no settlement came
  between and the read is not older than what the ledger knows.\<close>

definition read_of :: "ledger \<Rightarrow> ledger \<Rightarrow> ledger \<Rightarrow> bool" where
  "read_of before l l' \<longleftrightarrow> l' = l \<or> (l_epoch l = l_epoch before \<and> l_reservations l' = l_reservations l \<and> l_maturing l' = l_maturing l
     \<and> l_as_of_block l \<le> l_as_of_block l' \<and> l_initialised l')"

lemma reconcile_read_of: "read_of before l (snd (reconcile (begin_reconcile before) w block l))"
  by (auto simp: read_of_def reconcile_def begin_reconcile_def not_less)

lemma read_of_refl [simp]: "read_of before l l"
  by (simp add: read_of_def)

definition only_read :: "(pair_key \<Rightarrow> ledger \<Rightarrow> ledger) \<Rightarrow> pair \<Rightarrow> pair \<Rightarrow> bool" where
  "only_read mw p p' \<longleftrightarrow> pa_key p' = pa_key p \<and> pa_role p' = pa_role p \<and> pa_state p' = pa_state p
     \<and> read_of (pa_ledger p) (mw (pa_key p) (pa_ledger p)) (pa_ledger p')"

lemma only_read_ledger [simp]:
  "only_read mw p (p\<lparr>pa_ledger := l\<rparr>) \<longleftrightarrow> read_of (pa_ledger p) (mw (pa_key p) (pa_ledger p)) l"
  by (simp add: only_read_def)

lemma apply_words_only_read: "list_all2 (only_read mw) ps (apply_words target mw block ws ps)"
  by (induction ps arbitrary: ws) (auto simp: Let_def reconcile_read_of split: list.splits)

lemma leave_only_read: "list_all2 (only_read mw) ps (map (\<lambda>q. q\<lparr>pa_ledger := mw (pa_key q) (pa_ledger q)\<rparr>) ps)"
  by (simp add: list_all2_map2 list_all2_same)

lemma apply_plain_only_read: "list_all2 (only_read mw) ps (snd (apply_plain target mw head read ps))"
proof (induction ps)
  case (Cons p ps)
  obtain r ps' where rest: "apply_plain target mw head read ps = (r, ps')" by fastforce
  with Cons have "list_all2 (only_read mw) ps ps'" by simp
  then show ?case by (cases "read (pa_key p)") (simp_all add: Let_def rest reconcile_read_of leave_only_read)
qed simp

lemma reconcile_targets_only_read:
  assumes "reconcile_targets env hm target c ps = (r, c', ps')"
  shows "list_all2 (only_read (ba_mw env)) ps ps'" "cc_adapter c' = cc_adapter c" "cc_cfg c' = cc_cfg c"
proof -
  have "ps' = leave_to_others env ps \<or> (\<exists>block ws. ps' = apply_words target (ba_mw env) block ws ps)
      \<or> ps' = snd (apply_plain target (ba_mw env) (chain_head c) (ba_plain env) ps)"
    using assms by (auto simp: reconcile_targets_def Let_def split: if_splits sum.splits prod.splits)
  then show "list_all2 (only_read (ba_mw env)) ps ps'"
    using apply_words_only_read apply_plain_only_read leave_only_read [of "ba_mw env" ps, folded leave_to_others_def] by metis
  have "c' = c \<or> (\<exists>block. c' = snd (observe_head (ba_now env) block None c))"
    using assms by (auto simp: reconcile_targets_def Let_def split: if_splits sum.splits prod.splits)
  then show "cc_adapter c' = cc_adapter c" "cc_cfg c' = cc_cfg c" by (auto simp: observe_head_def Let_def)
qed

section \<open>What a round may do to a pair\<close>

definition can_spend :: "balance_env \<Rightarrow> chain_ctx \<Rightarrow> pair \<Rightarrow> u256" where
  "can_spend env c p = fst (spendable (ba_now env) (cc_adapter c) (pa_role p) (pa_ledger p))"

definition sweep_step :: "balance_env \<Rightarrow> chain_ctx \<Rightarrow> pair \<Rightarrow> pair \<Rightarrow> bool" where
  "sweep_step env c p p' \<longleftrightarrow> pa_key p' = pa_key p \<and> pa_role p' = pa_role p
     \<and> (\<exists>l. read_of (pa_ledger p) (ba_mw env (pa_key p) (pa_ledger p)) l \<and> (pa_ledger p' = l \<or> pa_ledger p' = mature (ba_now env) l))
     \<and> (pa_state p' = pa_state p
        \<or> pa_state p' = fst (snd (resume_if (ba_utc env) InsufficientFunds (pa_state p))) \<and> waits_for_funds p
          \<and> (if pa_role p = RTreasury then cg_topup_amount (cc_cfg c) \<le> can_spend env c p'
             else ps_current (pa_state p) = None
               \<and> (l_initialised (pa_ledger p') \<longrightarrow> cg_signer_min_balance (cc_cfg c) \<le> can_spend env c p')))"

lemma spendable_ledger: "spendable now ad role l = (a, l') \<Longrightarrow> l' = mature now l \<and> fst (spendable now ad role l') = a"
  using spendable_for_again by (fastforce simp: spendable_def spendable_for_def Let_def)

lemma settle_pair_step:
  assumes "only_read (ba_mw env) p q"
  shows "sweep_step env c p (fst (settle_pair (ba_utc env) (ba_now env) c q))"
proof -
  have q: "pa_key q = pa_key p" "pa_role q = pa_role p" "pa_state q = pa_state p"
    and r: "read_of (pa_ledger p) (ba_mw env (pa_key p) (pa_ledger p)) (pa_ledger q)"
    using assms by (simp_all add: only_read_def)
  obtain a l where s: "spendable (ba_now env) (cc_adapter c) (pa_role p) (pa_ledger q) = (a, l)" by fastforce
  have l: "l = mature (ba_now env) (pa_ledger q)" and a: "fst (spendable (ba_now env) (cc_adapter c) (pa_role p) l) = a"
    using spendable_ledger [OF s] by blast+
  have led: "\<exists>l0. read_of (pa_ledger p) (ba_mw env (pa_key p) (pa_ledger p)) l0 \<and> (l = l0 \<or> l = mature (ba_now env) l0)"
    using r l by blast
  show ?thesis
    using led a s
    by (cases "pa_role p") (simp_all add: settle_pair_def q sweep_step_def lift_funds_pause_def waits_for_funds_def can_spend_def view_def Let_def not_less)
qed


end
