(* ===== verification/Boot.thy ===== *)
theory Boot
  imports Leader Chain_Kinds
begin

text \<open>
  How an instance comes up and goes down: the chains \<^verbatim>\<open>main.rs\<close> opens from the configuration, the signer pool
  of \<^verbatim>\<open>signer.rs\<close>, the drain before shutdown, and the throttle of \<^verbatim>\<open>telemetry.rs\<close> that keeps repeating log
  lines and alerts apart. The key service, the environment and the HTTP builder are arguments.
\<close>

section \<open>Opening the chains\<close>

datatype open_error = OpenUnknownKind string string | OpenConfig config_error | OpenHttp string

text \<open>One turn of the loop; \<open>http_error\<close> is what building the HTTP client fails with, if it does.\<close>

definition open_chain :: "(string \<Rightarrow> u256 option) \<Rightarrow> (string \<rightharpoonup> string) \<Rightarrow> tunables_parser \<Rightarrow> instant \<Rightarrow> int \<Rightarrow> string option \<Rightarrow> config
    \<Rightarrow> string \<Rightarrow> chain_config \<Rightarrow> (chain_ctx \<times> rpc_client, open_error) result" where
  "open_chain from_hex env parse now today http_error cfg name c =
     (case adapter_for from_hex (cg_kind c) of
        None \<Rightarrow> Err (OpenUnknownKind name (cg_kind c))
      | Some adapter \<Rightarrow>
          (case overrides parse name c of
             Err e \<Rightarrow> Err (OpenConfig e)
           | Ok ov \<Rightarrow>
               let t = with_overrides (ad_defaults adapter) ov in
               (case resolve_rpc_url env name c of
                  Err e \<Rightarrow> Err (OpenConfig e)
                | Ok url \<Rightarrow>
                    (case http_error of
                       Some e \<Rightarrow> Err (OpenHttp e)
                     | None \<Rightarrow> Ok (chain_ctx_new c adapter t (qc_memory_window (cfg_queue cfg)),
                         client_new now today (cg_chain_id c) (credits_per_call t) (millis (rp_request_timeout_ms (cfg_rpc cfg)))
                           (rpc_failure_threshold t))))))"

fun open_chains :: "(string \<Rightarrow> chain_config \<Rightarrow> (chain_ctx \<times> rpc_client, open_error) result) \<Rightarrow> (string \<times> chain_config) list
    \<Rightarrow> (u64, chain_ctx \<times> rpc_client) btree \<Rightarrow> ((u64, chain_ctx \<times> rpc_client) btree, open_error) result" where
  "open_chains opn [] m = Ok m"
| "open_chains opn ((name, c) # cs) m =
     (case opn name c of
        Err e \<Rightarrow> Err e
      | Ok ctx \<Rightarrow> open_chains opn cs (bt_upsert (cg_chain_id c) ctx (\<lambda>_. ctx) m))"

section \<open>The signer pool\<close>

record key_lib =
  kl_local :: "string \<Rightarrow> (address, string) result"
  kl_kms :: "string \<Rightarrow> (address, string) result"

definition factory_build :: "key_lib \<Rightarrow> signer_mode \<Rightarrow> string \<Rightarrow> (signer_handle, signer_error) result" where
  "factory_build kl mode key_ref =
     (case mode of
        LocalMode \<Rightarrow>
          (case kl_local kl (str_trim key_ref) of
             Err e \<Rightarrow> Err (SignerInit (''invalid local private key: '' @ e))
           | Ok a \<Rightarrow> Ok \<lparr>sh_address = a, sh_key_ref = ''local''\<rparr>)
      | KmsMode \<Rightarrow>
          if str_starts_with key_ref ''alias/'' \<or> str_contains key_ref '':alias/''
          then Err (SignerInit (''KMS key `'' @ key_ref @ ''` is an alias; use the key id or key ARN''))
          else (case kl_kms kl key_ref of
                  Err e \<Rightarrow> Err (SignerInit (''KMS key `'' @ key_ref @ ''`: '' @ e))
                | Ok a \<Rightarrow> Ok \<lparr>sh_address = a, sh_key_ref = key_ref\<rparr>))"

record signer_pool =
  po_signers :: "signer_handle list"
  po_by_address :: "address \<rightharpoonup> signer_handle"

text \<open>All keys are read concurrently; here the first in order that fails is the error.\<close>

fun build_all :: "(string \<Rightarrow> (signer_handle, signer_error) result) \<Rightarrow> string list \<Rightarrow> (signer_handle list, signer_error) result" where
  "build_all build [] = Ok []"
| "build_all build (r # rs) =
     (case build r of Err e \<Rightarrow> Err e | Ok h \<Rightarrow> (case build_all build rs of Err e \<Rightarrow> Err e | Ok hs \<Rightarrow> Ok (h # hs)))"

fun pool_of :: "signer_handle list \<Rightarrow> signer_pool \<Rightarrow> (signer_pool, signer_error) result" where
  "pool_of [] pool = Ok pool"
| "pool_of (h # hs) pool =
     (if po_by_address pool (sh_address h) \<noteq> None
      then Err (SignerInit (''signer '' @ addr_hex (sh_address h) @ '' is configured more than once''))
      else pool_of hs (pool\<lparr>po_signers := po_signers pool @ [h], po_by_address := (po_by_address pool)(sh_address h \<mapsto> h)\<rparr>))"

definition pool_load :: "key_lib \<Rightarrow> signers_config \<Rightarrow> (signer_pool, signer_error) result" where
  "pool_load kl cfg =
     (let refs = (case sc_mode cfg of LocalMode \<Rightarrow> sc_local_private_keys cfg | KmsMode \<Rightarrow> sc_kms_key_ids cfg) in
      case build_all (factory_build kl (sc_mode cfg)) refs of
        Err e \<Rightarrow> Err e
      | Ok hs \<Rightarrow> pool_of hs \<lparr>po_signers = [], po_by_address = Map.empty\<rparr>)"

definition pool_get :: "signer_pool \<Rightarrow> address \<Rightarrow> signer_handle option" where
  "pool_get pool a = po_by_address pool a"

section \<open>Draining\<close>

datatype idle_wait = WentIdle | DeadlinePassed | StillBusy

text \<open>What each look at the pairs finds: how many are busy, and the time.\<close>

fun engine_drain :: "instant \<Rightarrow> (nat \<times> instant) list \<Rightarrow> idle_wait" where
  "engine_drain deadline [] = StillBusy"
| "engine_drain deadline ((busy, now) # looks) =
     (if busy = 0 then WentIdle else if deadline \<le> now then DeadlinePassed else engine_drain deadline looks)"

section \<open>Throttling\<close>

record throttle_entry =
  th_last_emit :: instant
  th_suppressed :: u64

type_synonym throttle = "string \<rightharpoonup> throttle_entry"

definition throttled :: "string \<Rightarrow> duration \<Rightarrow> instant \<Rightarrow> throttle \<Rightarrow> u64 option \<times> throttle" where
  "throttled key every now m =
     (case m key of
        Some e \<Rightarrow>
          if now - th_last_emit e < every
          then (None, m(key \<mapsto> e\<lparr>th_suppressed := th_suppressed e + 1\<rparr>))
          else (Some (th_suppressed e), m(key \<mapsto> \<lparr>th_last_emit = now, th_suppressed = 0\<rparr>))
      | None \<Rightarrow>
          let m = (if 4096 < card (dom m)
                   then (\<lambda>k. case m k of Some e \<Rightarrow> if now - th_last_emit e < 600000000000 then Some e else None | None \<Rightarrow> None)
                   else m)
          in (Some 0, m(key \<mapsto> \<lparr>th_last_emit = now, th_suppressed = 0\<rparr>)))"

text \<open>A run of calls, each with its key and time: the times at which a line with key \<open>k\<close> was let through.\<close>

fun emitted :: "string \<Rightarrow> duration \<Rightarrow> (string \<times> instant) list \<Rightarrow> throttle \<Rightarrow> instant list" where
  "emitted k every [] m = []"
| "emitted k every ((key, now) # calls) m =
     (case throttled key every now m of
        (r, m') \<Rightarrow> (if key = k \<and> r \<noteq> None then [now] else []) @ emitted k every calls m')"

section \<open>Lemmas\<close>

lemma map_of_upsert:
  "bt_ok m \<Longrightarrow> map_of (bt_upsert k v (\<lambda>_. v) m) k' = (if k' = k then Some v else map_of m k')"
  by (induction k v "\<lambda>_ :: 'b. v" m rule: bt_upsert.induct) (auto simp: bt_ok_Cons)

lemma open_chains_all:
  assumes "list_all (\<lambda>(name, c). \<exists>x. opn name c = Ok x) cs" "distinct (map (cg_chain_id \<circ> snd) cs)" "bt_ok m"
  shows "\<exists>m'. open_chains opn cs m = Ok m' \<and> bt_ok m' \<and> fst ` set m' = (cg_chain_id \<circ> snd) ` set cs \<union> fst ` set m
     \<and> (\<forall>k. k \<notin> (cg_chain_id \<circ> snd) ` set cs \<longrightarrow> map_of m' k = map_of m k)
     \<and> (\<forall>(name, c)\<in>set cs. Ok (the (map_of m' (cg_chain_id c))) = opn name c)"
  using assms
proof (induction cs arbitrary: m)
  case (Cons x cs)
  obtain name c where x: "x = (name, c)" by (cases x)
  with Cons.prems obtain ctx where ctx: "opn name c = Ok ctx" by auto
  let ?m = "bt_upsert (cg_chain_id c) ctx (\<lambda>_. ctx) m"
  have fresh: "cg_chain_id c \<notin> (cg_chain_id \<circ> snd) ` set cs" using Cons.prems(2) x by simp
  have "\<exists>m'. open_chains opn cs ?m = Ok m' \<and> bt_ok m' \<and> fst ` set m' = (cg_chain_id \<circ> snd) ` set cs \<union> fst ` set ?m
     \<and> (\<forall>k. k \<notin> (cg_chain_id \<circ> snd) ` set cs \<longrightarrow> map_of m' k = map_of ?m k)
     \<and> (\<forall>(name, c)\<in>set cs. Ok (the (map_of m' (cg_chain_id c))) = opn name c)"
    using Cons.prems x by (intro Cons.IH) simp_all
  then obtain m' where m': "open_chains opn cs ?m = Ok m'" "bt_ok m'" "fst ` set m' = (cg_chain_id \<circ> snd) ` set cs \<union> fst ` set ?m"
    "\<forall>k. k \<notin> (cg_chain_id \<circ> snd) ` set cs \<longrightarrow> map_of m' k = map_of ?m k"
    "\<forall>(name, c)\<in>set cs. Ok (the (map_of m' (cg_chain_id c))) = opn name c" by blast
  have "map_of m' (cg_chain_id c) = Some ctx" using m'(4) fresh map_of_upsert [OF Cons.prems(3)] by simp
  with m' show ?case using map_of_upsert [OF Cons.prems(3)] by (intro exI [of _ m']) (auto simp: x ctx)
qed simp

text \<open>The pool keeps the handles in order and finds exactly them.\<close>

definition pool_ok :: "signer_pool \<Rightarrow> bool" where
  "pool_ok pool \<longleftrightarrow> distinct (map sh_address (po_signers pool))
     \<and> (\<forall>a. po_by_address pool a = find (\<lambda>h. sh_address h = a) (po_signers pool))"

lemma find_appended: "find P (xs @ ys) = (case find P xs of Some x \<Rightarrow> Some x | None \<Rightarrow> find P ys)"
  by (induction xs) auto

lemma pool_ok_push:
  assumes "pool_ok pool" "po_by_address pool (sh_address h) = None"
  shows "pool_ok (pool\<lparr>po_signers := po_signers pool @ [h], po_by_address := (po_by_address pool)(sh_address h \<mapsto> h)\<rparr>)"
proof -
  have find: "po_by_address pool a = find (\<lambda>h. sh_address h = a) (po_signers pool)" for a using assms(1) by (simp add: pool_ok_def)
  have new: "sh_address h \<notin> sh_address ` set (po_signers pool)" using assms(2) unfolding find by (auto simp: find_None_iff)
  have "find (\<lambda>h'. sh_address h' = a) (po_signers pool @ [h]) = ((po_by_address pool)(sh_address h \<mapsto> h)) a" for a
    using assms(2) by (auto simp: find_appended find split: option.splits)
  with new assms(1) show ?thesis by (simp add: pool_ok_def)
qed

lemma pool_of_spec:
  "pool_ok pool \<Longrightarrow> case pool_of hs pool of
     Ok p \<Rightarrow> pool_ok p \<and> po_signers p = po_signers pool @ hs
   | Err _ \<Rightarrow> \<not> distinct (map sh_address (po_signers pool @ hs))"
proof (induction hs arbitrary: pool)
  case (Cons h hs)
  show ?case
  proof (cases "po_by_address pool (sh_address h)")
    case None
    from Cons.IH [OF pool_ok_push [OF Cons.prems None]] None show ?thesis by (simp split: sum.splits)
  next
    case (Some h')
    with Cons.prems have "find (\<lambda>x. sh_address x = sh_address h) (po_signers pool) = Some h'" by (simp add: pool_ok_def)
    then have "h' \<in> set (po_signers pool)" "sh_address h' = sh_address h" by (auto simp: find_Some_iff)
    then have "sh_address h \<in> sh_address ` set (po_signers pool)" by (metis imageI)
    with Some show ?thesis by auto
  qed
qed simp

lemma build_all_spec:
  "case build_all build rs of Ok hs \<Rightarrow> map build rs = map Ok hs | Err e \<Rightarrow> Err e \<in> set (map build rs)"
  by (induction rs) (auto split: sum.splits)

section \<open>Properties\<close>


definition boot_block :: chain_config where
  "boot_block = (cc_cfg small_chain)\<lparr>cg_rpc_url := Some ''u'', cg_treasury_private_key := Some ''k''\<rparr>"

definition boot_config :: config where
  "boot_config = small_config\<lparr>cfg_chains := [(''main'', boot_block)]\<rparr>"

lemma boot_block_fields: "cg_kind boot_block = ''geth''" "cg_rpc_url_env boot_block = None" "cg_rpc_url boot_block = Some ''u''"
    "cg_chain_id boot_block = 1" "cg_treasury_private_key boot_block = Some ''k''" "cg_topup_amount boot_block = 1"
  by (simp_all add: boot_block_def small_chain_def chain_ctx_new_def)

lemma boot_config_valid: "validate (\<lambda>_. Ok no_overrides) boot_config = Ok ()"
proof -
  have "validate_chains (\<lambda>_. Ok no_overrides) LocalMode {} [(''main'', boot_block)] = Ok ()"
    by (simp add: validate_chains_iff chain_block_ok_def boot_block_fields del: validate_chains.simps)
  then show ?thesis
    by (simp add: validate_def boot_config_def small_config_def webhook_config_of_def rpc_config_default_def and_then_def ensure_def)
qed


text \<open>The signer pool has each key once: loading it gives the handles of the configured keys, in their order, with distinct
  addresses, each found under its own address and no other; loading fails only when a key cannot be built or
  two keys have one address.\<close>

theorem signer_pool_has_each_key_once:
  "let refs = (case sc_mode cfg of LocalMode \<Rightarrow> sc_local_private_keys cfg | KmsMode \<Rightarrow> sc_kms_key_ids cfg);
       built = map (factory_build kl (sc_mode cfg)) refs in
   case pool_load kl cfg of
     Ok pool \<Rightarrow> built = map Ok (po_signers pool) \<and> distinct (map sh_address (po_signers pool))
       \<and> (\<forall>a. pool_get pool a = find (\<lambda>h. sh_address h = a) (po_signers pool))
   | Err e \<Rightarrow> Err e \<in> set built \<or> (\<exists>hs. built = map Ok hs \<and> \<not> distinct (map sh_address hs))"
proof -
  define refs where "refs = (case sc_mode cfg of LocalMode \<Rightarrow> sc_local_private_keys cfg | KmsMode \<Rightarrow> sc_kms_key_ids cfg)"
  have empty: "pool_ok \<lparr>po_signers = [], po_by_address = Map.empty\<rparr>" by (simp add: pool_ok_def)
  show ?thesis
    using build_all_spec [of "factory_build kl (sc_mode cfg)" refs] pool_of_spec [OF empty]
    unfolding pool_load_def Let_def refs_def [symmetric]
    by (fastforce simp: pool_ok_def pool_get_def split: sum.splits)
qed

lemma throttled_other: "key \<noteq> k \<Longrightarrow> snd (throttled key every now m) k \<in> {m k} \<union> {None | e. m k = Some e \<and> 600000000000 \<le> now - th_last_emit e}"
  by (auto simp: throttled_def Let_def not_less split: option.splits if_splits)

lemma throttled_own:
  "case throttled k every now m of (r, m') \<Rightarrow> (case m' k of None \<Rightarrow> False | Some e \<Rightarrow>
     (if r = None then (\<exists>e0. m k = Some e0 \<and> th_last_emit e = th_last_emit e0 \<and> now - th_last_emit e0 < every)
      else th_last_emit e = now \<and> (case m k of None \<Rightarrow> True | Some e0 \<Rightarrow> every \<le> now - th_last_emit e0)))"
  by (auto simp: throttled_def Let_def not_less split: option.splits if_splits)

text \<open>The gap from the last line of key \<open>k\<close> before the run.\<close>

definition quiet_since :: "string \<Rightarrow> instant option \<Rightarrow> instant \<Rightarrow> throttle \<Rightarrow> bool" where
  "quiet_since k last_line now m \<longleftrightarrow> (case last_line of None \<Rightarrow> True
     | Some t \<Rightarrow> (case m k of Some e \<Rightarrow> th_last_emit e = t | None \<Rightarrow> t + 600000000000 \<le> now))"

fun spaced :: "duration \<Rightarrow> instant option \<Rightarrow> instant list \<Rightarrow> bool" where
  "spaced every prev [] = True"
| "spaced every prev (t # ts) \<longleftrightarrow> (case prev of None \<Rightarrow> True | Some p \<Rightarrow> p + every \<le> t) \<and> spaced every (Some t) ts"

lemma emitted_spaced:
  "every \<le> 600000000000 \<Longrightarrow> sorted (now # map snd calls) \<Longrightarrow> quiet_since k prev now m \<Longrightarrow> (\<forall>p. prev = Some p \<longrightarrow> p \<le> now) \<Longrightarrow>
   0 < every \<Longrightarrow> spaced every prev (emitted k every calls m)"
proof (induction calls arbitrary: now prev m)
  case (Cons call calls)
  obtain key t where call: "call = (key, t)" by (cases call)
  obtain r m' where th: "throttled key every t m = (r, m')" by fastforce
  have le: "now \<le> t" "sorted (t # map snd calls)" using Cons.prems(2) by (auto simp: call)
  have quiet: "quiet_since k prev t m" using Cons.prems(3) le(1) by (auto simp: quiet_since_def split: option.splits)
  show ?case
  proof (cases "key = k")
    case False
    have "m' k \<in> {m k} \<union> {None | e. m k = Some e \<and> 600000000000 \<le> t - th_last_emit e}"
      using throttled_other [OF False, of every t m] by (simp add: th)
    with quiet have "quiet_since k prev t m'" by (auto simp: quiet_since_def split: option.splits)
    then have "spaced every prev (emitted k every calls m')" using Cons.prems le by (intro Cons.IH [where now = t]) auto
    with False show ?thesis by (simp add: call th)
  next
    case True
    note own = throttled_own [where k = key and every = every and now = t and m = m, unfolded th prod.case]
    show ?thesis
    proof (cases r)
      case None
      with own quiet True have "quiet_since k prev t m'" by (auto simp: quiet_since_def split: option.splits)
      then have "spaced every prev (emitted k every calls m')" using Cons.prems le by (intro Cons.IH [where now = t]) auto
      with None show ?thesis by (simp add: call th)
    next
      case (Some n)
      with own True have "quiet_since k (Some t) t m'" by (auto simp: quiet_since_def split: option.splits)
      then have "spaced every (Some t) (emitted k every calls m')" using Cons.prems le by (intro Cons.IH [where now = t]) auto
      moreover have "case prev of None \<Rightarrow> True | Some p \<Rightarrow> p + every \<le> t"
        using Some own quiet Cons.prems(1,4,5) le(1) True by (auto simp: quiet_since_def split: option.splits)
      ultimately show ?thesis using Some th True by (simp add: call)
    qed
  qed
qed simp

text \<open>Throttled lines keep their distance: however the calls of all keys interleave, and also when the table is pruned, two
  lines let through for one key are at least the requested interval apart, for intervals up to the ten minutes
  after which pruning forgets a key.\<close>

theorem throttled_lines_keep_their_distance:
  assumes "0 < every" "every \<le> 600000000000" "sorted (map snd calls)"
  shows "spaced every None (emitted k every calls Map.empty)"
  using assms by (intro emitted_spaced [where now = 0]) (auto simp: quiet_since_def)

theorem throttled_lines_keep_their_distance_witness:
  "spaced 60 None (emitted ''a'' 60 [(''a'', 0), (''b'', 5), (''a'', 10), (''a'', 60)] Map.empty)
   \<and> emitted ''a'' 60 [(''a'', 0), (''b'', 5), (''a'', 10), (''a'', 60)] Map.empty = [0, 60]"
  using throttled_lines_keep_their_distance [of 60 "[(''a'', 0), (''b'', 5), (''a'', 10), (''a'', 60)]" "''a''"]
  by (simp add: throttled_def)

end
