(* ===== verification/Bench_Job.thy ===== *)
theory Bench_Job
  imports Domain
begin

text \<open>
  The load generator of the bench, \<^verbatim>\<open>crates/gum-bench/src/loadgen.rs\<close>, and the part of
  \<^verbatim>\<open>crates/gum-bench/src/oracle.rs\<close> that tells from a mined transaction which job it belongs to: how a job is
  made from the dice, how it is posted and replayed, and that whatever the engine mines for it can be
  attributed to it. The Solidity ABI encoder is an argument with its documented layout as a hypothesis.
\<close>

section \<open>Kinds and mixes\<close>

datatype job_kind = HitGas | HitNoGas | BurnGas | FailGas | FailNoGas | Transfer

primrec job_kind_label :: "job_kind \<Rightarrow> string" where
  "job_kind_label HitGas = ''hit_gas''"
| "job_kind_label HitNoGas = ''hit_nogas''"
| "job_kind_label BurnGas = ''burn_gas''"
| "job_kind_label FailGas = ''fail_gas''"
| "job_kind_label FailNoGas = ''fail_nogas''"
| "job_kind_label Transfer = ''transfer''"

definition has_gas_limit :: "job_kind \<Rightarrow> bool" where
  "has_gas_limit k \<longleftrightarrow> \<not> (k = HitNoGas \<or> k = FailNoGas)"

record job_mix =
  jm_hit_gas :: u32
  jm_hit_nogas :: u32
  jm_burn_gas :: u32
  jm_fail_gas :: u32
  jm_fail_nogas :: u32
  jm_transfer :: u32

definition no_mix :: job_mix where
  "no_mix = \<lparr>jm_hit_gas = 0, jm_hit_nogas = 0, jm_burn_gas = 0, jm_fail_gas = 0, jm_fail_nogas = 0, jm_transfer = 0\<rparr>"

definition MIXED :: job_mix where
  "MIXED = \<lparr>jm_hit_gas = 40, jm_hit_nogas = 30, jm_burn_gas = 5, jm_fail_gas = 8, jm_fail_nogas = 7, jm_transfer = 10\<rparr>"

definition mix_weights :: "job_mix \<Rightarrow> (job_kind \<times> u32) list" where
  "mix_weights m = [(HitGas, jm_hit_gas m), (HitNoGas, jm_hit_nogas m), (BurnGas, jm_burn_gas m), (FailGas, jm_fail_gas m),
     (FailNoGas, jm_fail_nogas m), (Transfer, jm_transfer m)]"

text \<open>\<open>JobMix::parse\<close>. Splitting at a separator always gives at least one part; \<open>parse_u32\<close> stands for
  \<open>str::parse::<u32>\<close>.\<close>

fun split_at_char :: "char \<Rightarrow> string \<Rightarrow> string list" where
  "split_at_char c [] = [[]]"
| "split_at_char c (x # xs) =
     (if x = c then [] # split_at_char c xs
      else case split_at_char c xs of p # ps \<Rightarrow> (x # p) # ps | [] \<Rightarrow> [[x]])"

fun split_once_char :: "char \<Rightarrow> string \<Rightarrow> (string \<times> string) option" where
  "split_once_char c [] = None"
| "split_once_char c (x # xs) =
     (if x = c then Some ([], xs) else map_option (\<lambda>(a, b). (x # a, b)) (split_once_char c xs))"

datatype mix_error = BadEntry string | BadWeight string | UnknownKind string | NoPositiveWeight

definition set_weight :: "string \<Rightarrow> u32 \<Rightarrow> job_mix \<Rightarrow> (job_mix, mix_error) result" where
  "set_weight k w m =
     (if k = ''hit_gas'' then Ok (m\<lparr>jm_hit_gas := w\<rparr>)
      else if k = ''hit_nogas'' then Ok (m\<lparr>jm_hit_nogas := w\<rparr>)
      else if k = ''burn_gas'' then Ok (m\<lparr>jm_burn_gas := w\<rparr>)
      else if k = ''fail_gas'' then Ok (m\<lparr>jm_fail_gas := w\<rparr>)
      else if k = ''fail_nogas'' then Ok (m\<lparr>jm_fail_nogas := w\<rparr>)
      else if k = ''transfer'' then Ok (m\<lparr>jm_transfer := w\<rparr>)
      else Err (UnknownKind k))"

fun parse_parts :: "(string \<Rightarrow> u32 option) \<Rightarrow> string list \<Rightarrow> job_mix \<Rightarrow> (job_mix, mix_error) result" where
  "parse_parts parse_u32 [] m = Ok m"
| "parse_parts parse_u32 (part # parts) m =
     (case split_once_char CHR ''='' part of
        None \<Rightarrow> Err (BadEntry part)
      | Some (k, v) \<Rightarrow>
          (case parse_u32 v of
             None \<Rightarrow> Err (BadWeight part)
           | Some w \<Rightarrow> (case set_weight k w m of Err e \<Rightarrow> Err e | Ok m \<Rightarrow> parse_parts parse_u32 parts m)))"

definition mix_parse :: "(string \<Rightarrow> u32 option) \<Rightarrow> string \<Rightarrow> (job_mix, mix_error) result" where
  "mix_parse parse_u32 s =
     (if s = ''mixed'' then Ok MIXED
      else if s = ''gas'' \<or> s = ''with-gas'' then Ok (no_mix\<lparr>jm_hit_gas := 1\<rparr>)
      else if s = ''nogas'' \<or> s = ''without-gas'' then Ok (no_mix\<lparr>jm_hit_nogas := 1\<rparr>)
      else case parse_parts parse_u32 (split_at_char CHR '','' s) no_mix of
             Err e \<Rightarrow> Err e
           | Ok m \<Rightarrow> if sum_list (map snd (mix_weights m)) = 0 then Err NoPositiveWeight else Ok m)"

text \<open>\<open>pick_weighted\<close>, with the number \<open>x\<close> the generator drew below \<open>max total 1\<close>; an empty table panics.\<close>

fun pick_from :: "('a \<times> u32) list \<Rightarrow> u32 \<Rightarrow> 'a option" where
  "pick_from [] x = None"
| "pick_from ((item, w) # items) x = (if x < w then Some item else pick_from items (x - w))"

definition pick_weighted :: "('a \<times> u32) list \<Rightarrow> u32 \<Rightarrow> 'a option" where
  "pick_weighted items x =
     (case pick_from items x of
        Some item \<Rightarrow> Some item
      | None \<Rightarrow> (case items of [] \<Rightarrow> None | (item, _) # _ \<Rightarrow> Some item))"

section \<open>Calldata\<close>

text \<open>What the \<open>sol!\<close> macro provides: the encoder of the three calls and their selectors.\<close>

record bench_abi =
  ab_hit :: "b256 \<Rightarrow> bytes"
  ab_burn :: "b256 \<Rightarrow> u256 \<Rightarrow> bytes"
  ab_fail :: bytes
  sel_hit :: bytes
  sel_burn :: bytes
  sel_fail :: bytes

text \<open>Big-endian bytes of a word and back (\<open>as_slice\<close>, \<open>from_slice\<close>).\<close>

fun be_bytes :: "nat \<Rightarrow> nat \<Rightarrow> bytes" where
  "be_bytes 0 n = []"
| "be_bytes (Suc k) n = be_bytes k (n div 256) @ [word_of_nat (n mod 256)]"

definition be_nat :: "bytes \<Rightarrow> nat" where
  "be_nat bs = foldl (\<lambda>a b. a * 256 + unat b) 0 bs"

definition hit_calldata :: "bench_abi \<Rightarrow> b256 \<Rightarrow> bytes" where
  "hit_calldata ab bid = ab_hit ab bid"

definition burn_calldata :: "bench_abi \<Rightarrow> b256 \<Rightarrow> u64 \<Rightarrow> bytes" where
  "burn_calldata ab bid iterations = ab_burn ab bid (ucast iterations)"

definition fail_calldata :: "bench_abi \<Rightarrow> b256 \<Rightarrow> bytes" where
  "fail_calldata ab bid = ab_fail ab @ be_bytes 32 (unat bid)"

definition transfer_recipient :: "b256 \<Rightarrow> address" where
  "transfer_recipient bid = word_of_nat (be_nat (take 20 (be_bytes 32 (unat bid))))"

section \<open>Making a job\<close>

datatype sink_mode = SinkOk | SinkSlow | SinkFail | SinkFlaky | SinkDead

definition coverage_required :: "sink_mode \<Rightarrow> bool" where
  "coverage_required m \<longleftrightarrow> m = SinkOk \<or> m = SinkSlow \<or> m = SinkFlaky"

datatype replay_plan = NoReplay | ReplaySame | ReplayConflict

record job_spec =
  sp_idx :: usize
  sp_kind :: job_kind
  sp_chain_id :: u64
  sp_bench_id :: b256
  sp_to :: address
  sp_data :: bytes
  sp_value :: u256
  sp_gas_limit :: "u64 option"
  sp_webhook_mode :: sink_mode
  sp_webhook_url :: string
  sp_idem_key :: "string option"
  sp_replay :: replay_plan

record chain_target =
  ctg_chain_id :: u64
  ctg_target :: address

text \<open>What \<open>make_job\<close> reads of the configuration, its counters, and the dice it throws.\<close>

record load_config =
  lc_chains :: "chain_target list"
  lc_webhook_modes :: "(sink_mode \<times> u32) list"
  lc_burn_iterations :: u64
  lc_retry_with_idem :: bool

record loadgen =
  lg_next_idx :: usize
  lg_chain_rr :: usize
  lg_replay_rr :: usize

record job_dice =
  dc_kind :: u32
  dc_bench_id :: b256
  dc_mode :: u32
  dc_keyed :: bool
  dc_replayed :: bool

definition GAS_HIT :: u64 where "GAS_HIT = 120000"
definition GAS_FAIL :: u64 where "GAS_FAIL = 60000"
definition GAS_TRANSFER :: u64 where "GAS_TRANSFER = 21000"

fun job_call :: "bench_abi \<Rightarrow> u64 \<Rightarrow> address \<Rightarrow> b256 \<Rightarrow> job_kind \<Rightarrow> address \<times> bytes \<times> u256 \<times> u64 option" where
  "job_call ab burn target bid HitGas = (target, hit_calldata ab bid, 0, Some GAS_HIT)"
| "job_call ab burn target bid HitNoGas = (target, hit_calldata ab bid, 0, None)"
| "job_call ab burn target bid BurnGas = (target, burn_calldata ab bid burn, 0, Some (GAS_HIT + burn * 400))"
| "job_call ab burn target bid FailGas = (target, fail_calldata ab bid, 0, Some GAS_FAIL)"
| "job_call ab burn target bid FailNoGas = (target, fail_calldata ab bid, 0, None)"
| "job_call ab burn target bid Transfer = (transfer_recipient bid, [], 1000, Some GAS_TRANSFER)"

definition bench_key :: "b256 \<Rightarrow> string" where
  "bench_key bid = ''bench-'' @ concat (map (\<lambda>b. hex_nibbles 2 (unat b)) (take 16 (be_bytes 32 (unat bid))))"

definition make_job :: "bench_abi \<Rightarrow> (sink_mode \<Rightarrow> string) \<Rightarrow> load_config \<Rightarrow> job_mix \<Rightarrow> job_dice \<Rightarrow> loadgen
    \<Rightarrow> (job_spec \<times> address \<times> loadgen) option" where
  "make_job ab url cfg mix dice g =
     (if lc_chains cfg = [] then None
      else
        let chain = lc_chains cfg ! (unat (lg_chain_rr g) mod length (lc_chains cfg)) in
        case (pick_weighted (mix_weights mix) (dc_kind dice), pick_weighted (lc_webhook_modes cfg) (dc_mode dice)) of
          (Some kind, Some mode) \<Rightarrow>
            let keyed = dc_keyed dice; replayed = (keyed \<and> dc_replayed dice);
                (to, data, value, gas_limit) = job_call ab (lc_burn_iterations cfg) (ctg_target chain) (dc_bench_id dice) kind;
                replay = (if \<not> replayed then NoReplay else if lg_replay_rr g mod 2 = 0 then ReplaySame else ReplayConflict)
            in Some (\<lparr>sp_idx = lg_next_idx g, sp_kind = kind, sp_chain_id = ctg_chain_id chain, sp_bench_id = dc_bench_id dice,
                      sp_to = to, sp_data = data, sp_value = value, sp_gas_limit = gas_limit, sp_webhook_mode = mode,
                      sp_webhook_url = url mode, sp_idem_key = (if keyed then Some (bench_key (dc_bench_id dice)) else None),
                      sp_replay = replay\<rparr>,
                     ctg_target chain,
                     \<lparr>lg_next_idx = lg_next_idx g + 1, lg_chain_rr = lg_chain_rr g + 1,
                      lg_replay_rr = (if replayed then lg_replay_rr g + 1 else lg_replay_rr g)\<rparr>)
        | _ \<Rightarrow> None)"

section \<open>Posting a job\<close>

record submit_result =
  sr_status :: "nat option"
  sr_job_id :: "string option"
  sr_replayed :: bool
  sr_error_code :: "string option"
  sr_transport_error :: "string option"

record replay_result =
  rr_plan :: replay_plan
  rr_result :: submit_result

text \<open>The last argument is what the \<open>n\<close>-th request is answered.\<close>

definition must_repeat :: "submit_result \<Rightarrow> bool" where
  "must_repeat r \<longleftrightarrow> sr_transport_error r \<noteq> None \<or> sr_status r = Some 503"

function repeat_submit :: "(nat \<Rightarrow> submit_result) \<Rightarrow> nat \<Rightarrow> bool \<Rightarrow> submit_result \<Rightarrow> nat \<times> bool \<times> submit_result" where
  "repeat_submit answer attempts unsure r =
     (if attempts < 20 \<and> must_repeat r
      then repeat_submit answer (attempts + 1) (unsure \<or> sr_transport_error r \<noteq> None) (answer attempts)
      else (attempts, unsure, r))"
  by auto
termination by (relation "measure (\<lambda>(_, attempts, _). 20 - attempts)") auto

declare repeat_submit.simps [simp del]

text \<open>\<open>fire\<close>: the number of requests, the last answer, whether some request went unanswered, and the replay.\<close>

definition fire :: "load_config \<Rightarrow> job_spec \<Rightarrow> (nat \<Rightarrow> submit_result) \<Rightarrow> nat \<times> submit_result \<times> bool \<times> replay_result option" where
  "fire cfg spec answer =
     (case (if lc_retry_with_idem cfg \<and> sp_idem_key spec \<noteq> None then repeat_submit answer 1 False (answer 0) else (1, False, answer 0)) of
        (attempts, unsure, r) \<Rightarrow>
          (attempts, r, unsure \<or> sr_transport_error r \<noteq> None,
           if sp_replay spec \<noteq> NoReplay \<and> sr_status r = Some 202 \<and> sr_job_id r \<noteq> None
           then Some \<lparr>rr_plan = sp_replay spec, rr_result = answer attempts\<rparr> else None))"

section \<open>Attribution\<close>

record chain_tx =
  ct_block :: u64
  ct_hash :: b256
  ct_from :: address
  ct_to :: "address option"
  ct_nonce :: u64
  ct_input :: bytes
  ct_value :: u256
  ct_success :: bool
  ct_gas_used :: u64

datatype tx_key = KeyId b256 | KeyRecipient address | KeyOther

definition id_at :: "nat \<Rightarrow> bytes \<Rightarrow> b256 option" where
  "id_at off input = (if off + 32 \<le> length input then Some (word_of_nat (be_nat (take 32 (drop off input)))) else None)"

definition chain_tx_key :: "bench_abi \<Rightarrow> address \<Rightarrow> chain_tx \<Rightarrow> tx_key" where
  "chain_tx_key ab target tx =
     (if ct_to tx = Some target \<and> 4 \<le> length (ct_input tx)
      then let sel = take 4 (ct_input tx) in
           if sel = sel_hit ab \<or> sel = sel_burn ab \<or> sel = sel_fail ab
           then (case id_at 4 (ct_input tx) of Some bid \<Rightarrow> KeyId bid | None \<Rightarrow> KeyOther)
           else KeyOther
      else case ct_to tx of
             Some to \<Rightarrow> if ct_input tx = [] then KeyRecipient to else KeyOther
           | None \<Rightarrow> KeyOther)"

text \<open>How \<open>attribute\<close> keys a job.\<close>

definition job_key :: "job_spec \<Rightarrow> tx_key" where
  "job_key s = (case sp_kind s of Transfer \<Rightarrow> KeyRecipient (sp_to s) | _ \<Rightarrow> KeyId (sp_bench_id s))"

section \<open>Lemmas\<close>

text \<open>The documented layout: four selector bytes, then each static argument in 32 bytes, most significant first.\<close>

definition abi_layout :: "bench_abi \<Rightarrow> bool" where
  "abi_layout ab \<longleftrightarrow> length (sel_hit ab) = 4 \<and> length (sel_burn ab) = 4 \<and> length (sel_fail ab) = 4
     \<and> (\<forall>bid. ab_hit ab bid = sel_hit ab @ be_bytes 32 (unat bid))
     \<and> (\<forall>bid n. ab_burn ab bid n = sel_burn ab @ be_bytes 32 (unat bid) @ be_bytes 32 (unat n))
     \<and> ab_fail ab = sel_fail ab"

lemma length_be_bytes [simp]: "length (be_bytes k n) = k"
  by (induction k arbitrary: n) simp_all

lemma be_nat_be_bytes: "be_nat (be_bytes k n) = n mod 256 ^ k"
proof (induction k arbitrary: n)
  case (Suc k)
  have "n div 256 mod 256 ^ k * 256 + n mod 256 = n mod (256 * 256 ^ k)"
    by (simp add: mod_mult2_eq)
  moreover have "unat (word_of_nat (n mod 256) :: 8 word) = n mod 256"
    by (simp add: unat_of_nat take_bit_eq_mod)
  ultimately show ?case using Suc by (simp add: be_nat_def)
qed (simp add: be_nat_def)

lemma b256_bytes_back [simp]: "word_of_nat (be_nat (be_bytes 32 (unat bid))) = (bid :: b256)"
proof -
  have "unat bid mod 256 ^ 32 = unat bid" using unsigned_less [of bid, where ?'a = nat] by simp
  then show ?thesis by (simp add: be_nat_be_bytes)
qed

lemma id_after_selector: "length s = 4 \<Longrightarrow> id_at 4 (s @ be_bytes 32 (unat bid) @ rest) = Some bid"
  by (simp add: id_at_def)

lemma keyed_by_selector:
  assumes "length sel = 4" "sel \<in> {sel_hit ab, sel_burn ab, sel_fail ab}" "ct_to tx = Some target"
    and "ct_input tx = sel @ be_bytes 32 (unat bid) @ rest"
  shows "chain_tx_key ab target tx = KeyId bid"
  using assms id_after_selector [of sel bid rest] by (auto simp: chain_tx_key_def)

lemma keyed_by_recipient: "ct_to tx = Some to \<Longrightarrow> ct_input tx = [] \<Longrightarrow> chain_tx_key ab target tx = KeyRecipient to"
  by (simp add: chain_tx_key_def)

text \<open>A weight of zero is never picked, as long as the total does not wrap and the draw is below it.\<close>

lemma pick_from_positive:
  "sum_list (map (unat \<circ> snd) items) < 2 ^ 32 \<Longrightarrow> unat x < sum_list (map (unat \<circ> snd) items) \<Longrightarrow>
   \<exists>item w. pick_from items x = Some item \<and> (item, w) \<in> set items \<and> 0 < w"
proof (induction items x rule: pick_from.induct)
  case (2 item w items x)
  show ?case
  proof (cases "x < w")
    case True
    then have "0 < w" by (metis word_gt_0 word_not_simps(1))
    with True show ?thesis by auto
  next
    case False
    then have "unat (x - w) = unat x - unat w" by (simp add: unat_sub not_less)
    with "2.prems" False have "unat (x - w) < sum_list (map (unat \<circ> snd) items)" by (simp add: not_less word_le_nat_alt comp_def)
    moreover have "sum_list (map (unat \<circ> snd) items) < 2 ^ 32" using "2.prems"(1) by (simp add: comp_def)
    ultimately obtain item' w' where "pick_from items (x - w) = Some item'" "(item', w') \<in> set items" "0 < w'"
      using "2.IH" False by blast
    with False show ?thesis by auto
  qed
qed simp

lemma repeat_submit_bounded: "repeat_submit answer n u r = (n', u', r') \<Longrightarrow> n \<le> 20 \<Longrightarrow> n \<le> n' \<and> n' \<le> 20"
proof (induction answer n u r arbitrary: n' u' r' rule: repeat_submit.induct)
  case (1 answer n u r)
  show ?case
  proof (cases "n < 20 \<and> must_repeat r")
    case True
    with "1.prems" have "repeat_submit answer (n + 1) (u \<or> sr_transport_error r \<noteq> None) (answer n) = (n', u', r')"
      by (subst (asm) repeat_submit.simps) simp
    from "1.IH" [OF True this] True show ?thesis by simp
  next
    case False
    then have "repeat_submit answer n u r = (n, u, r)" by (subst repeat_submit.simps) auto
    with "1.prems" show ?thesis by simp
  qed
qed

text \<open>When no request is remembered as unanswered, every one was answered, and the kept answer is the last.\<close>

lemma repeat_submit_sure:
  "repeat_submit answer (Suc n) u (answer n) = (n', u', r') \<Longrightarrow>
   n < n' \<and> r' = answer (n' - 1) \<and> (\<not> u' \<longrightarrow> \<not> u \<and> (\<forall>i. n \<le> i \<and> i < n' - 1 \<longrightarrow> sr_transport_error (answer i) = None \<and> sr_status (answer i) = Some 503))"
proof (induction "20 - n" arbitrary: n u)
  case (Suc k)
  show ?case
  proof (cases "Suc n < 20 \<and> must_repeat (answer n)")
    case True
    then have "repeat_submit answer (Suc (Suc n)) (u \<or> sr_transport_error (answer n) \<noteq> None) (answer (Suc n)) = (n', u', r')"
      using Suc.prems by (subst (asm) repeat_submit.simps) simp
    moreover have "k = 20 - Suc n" using Suc.hyps by simp
    ultimately have ih: "Suc n < n' \<and> r' = answer (n' - 1) \<and> (\<not> u' \<longrightarrow> \<not> (u \<or> sr_transport_error (answer n) \<noteq> None)
        \<and> (\<forall>i. Suc n \<le> i \<and> i < n' - 1 \<longrightarrow> sr_transport_error (answer i) = None \<and> sr_status (answer i) = Some 503))"
      using Suc.hyps(1) by blast
    have "sr_status (answer n) = Some 503" if "sr_transport_error (answer n) = None"
      using True that by (simp add: must_repeat_def)
    with ih show ?thesis by (metis Suc_leI Suc_lessD le_neq_implies_less)
  next
    case False
    then show ?thesis using Suc.prems by (subst (asm) repeat_submit.simps) auto
  qed
next
  case 0
  then show ?case by (subst (asm) repeat_submit.simps) auto
qed

section \<open>Properties\<close>

text \<open>Whatever the engine mines for a bench job can be attributed to it: with the documented ABI layout, a transaction that
  carries the destination and calldata of a job made for a chain has, on that chain, the key under which the
  verdict looks the job up, for every kind of job and every throw of the dice.\<close>

theorem made_job_is_attributable:
  assumes "abi_layout ab" "make_job ab url cfg mix dice g = Some (spec, target, g')"
    and "ct_to tx = Some (sp_to spec)" "ct_input tx = sp_data spec"
  shows "chain_tx_key ab target tx = job_key spec"
proof -
  have call: "job_call ab (lc_burn_iterations cfg) target (sp_bench_id spec) (sp_kind spec)
      = (sp_to spec, sp_data spec, sp_value spec, sp_gas_limit spec)"
    using assms(2) by (auto simp: make_job_def Let_def split: if_splits option.splits prod.splits)
  note ab = assms(1) [unfolded abi_layout_def]
  have key: "chain_tx_key ab target tx = KeyId (sp_bench_id spec)"
    if "sp_to spec = target" "sp_data spec = sel @ be_bytes 32 (unat (sp_bench_id spec)) @ rest" "sel \<in> {sel_hit ab, sel_burn ab, sel_fail ab}"
    for sel rest
    using that assms(3,4) ab by (intro keyed_by_selector) auto
  note hit = key [of "sel_hit ab" "[]"] and fail = key [of "sel_fail ab" "[]"]
    and burn = key [of "sel_burn ab" "be_bytes 32 (unat (ucast (lc_burn_iterations cfg) :: u256))"]
  show ?thesis
    using call ab hit fail burn assms(3,4)
    by (cases "sp_kind spec") (simp_all add: job_key_def hit_calldata_def burn_calldata_def fail_calldata_def keyed_by_recipient)
qed

definition demo_abi :: bench_abi where
  "demo_abi = \<lparr>ab_hit = (\<lambda>bid. [1, 2, 3, 4] @ be_bytes 32 (unat bid)), ab_burn = (\<lambda>bid n. [5, 6, 7, 8] @ be_bytes 32 (unat bid) @ be_bytes 32 (unat n)),
     ab_fail = [9, 10, 11, 12], sel_hit = [1, 2, 3, 4], sel_burn = [5, 6, 7, 8], sel_fail = [9, 10, 11, 12]\<rparr>"

lemma demo_abi_layout: "abi_layout demo_abi"
  by (simp add: abi_layout_def demo_abi_def)

definition demo_load :: load_config where
  "demo_load = \<lparr>lc_chains = [\<lparr>ctg_chain_id = 31337, ctg_target = 77\<rparr>], lc_webhook_modes = [(SinkOk, 1)], lc_burn_iterations = 5,
     lc_retry_with_idem = True\<rparr>"

definition demo_dice :: job_dice where
  "demo_dice = \<lparr>dc_kind = 0, dc_bench_id = 42, dc_mode = 0, dc_keyed = True, dc_replayed = True\<rparr>"

definition demo_spec :: job_spec where
  "demo_spec = \<lparr>sp_idx = 0, sp_kind = HitGas, sp_chain_id = 31337, sp_bench_id = 42, sp_to = 77, sp_data = hit_calldata demo_abi 42, sp_value = 0,
     sp_gas_limit = Some 120000, sp_webhook_mode = SinkOk, sp_webhook_url = ''u'', sp_idem_key = Some (bench_key 42), sp_replay = ReplaySame\<rparr>"

definition demo_tx :: chain_tx where
  "demo_tx = \<lparr>ct_block = 3, ct_hash = 9, ct_from = 5, ct_to = Some 77, ct_nonce = 1, ct_input = hit_calldata demo_abi 42, ct_value = 0,
     ct_success = True, ct_gas_used = 50000\<rparr>"

theorem made_job_is_attributable_witness: "chain_tx_key demo_abi 77 demo_tx = KeyId 42"
proof -
  have "make_job demo_abi (\<lambda>_. ''u'') demo_load MIXED demo_dice \<lparr>lg_next_idx = 0, lg_chain_rr = 0, lg_replay_rr = 0\<rparr>
      = Some (demo_spec, 77, \<lparr>lg_next_idx = 1, lg_chain_rr = 1, lg_replay_rr = 1\<rparr>)"
    by (simp add: make_job_def demo_load_def demo_dice_def demo_spec_def MIXED_def mix_weights_def pick_weighted_def Let_def GAS_HIT_def)
  from made_job_is_attributable [OF demo_abi_layout this, of demo_tx] show ?thesis
    by (simp add: demo_tx_def demo_spec_def job_key_def)
qed

end
