(* ===== verification/Bench_Verdict.thy ===== *)
theory Bench_Verdict
  imports Bench_Job Btree
begin

text \<open>
  \<^verbatim>\<open>crates/gum-bench/src/verdict.rs\<close>, with the records of \<^verbatim>\<open>api.rs\<close>, \<^verbatim>\<open>oracle.rs\<close> and
  \<^verbatim>\<open>sink.rs\<close> it judges: the correctness verdict of a bench run, a pure function over what was observed from the
  outside. A remark is the check, the code and the identifier it is filed under; the wording of messages and
  details is left to the caller (\<open>say\<close>), and fields no check reads are left out of the records. The theorems say what a verdict without remarks vouches for.
\<close>

section \<open>What was observed\<close>

record bench_error =
  be_code :: string
  be_message :: string
  be_revert_data :: "string option"

record tx_status =
  ts_job_id :: string
  ts_chain_id :: u64
  ts_status :: string
  ts_outcome :: "string option"
  ts_signer :: "string option"
  ts_nonce :: "u64 option"
  ts_tx_hash :: "string option"
  ts_block_number :: "u64 option"
  ts_error :: "bench_error option"

definition ts_is_terminal :: "tx_status \<Rightarrow> bool" where
  "ts_is_terminal s \<longleftrightarrow> ts_status s = ''confirmed'' \<or> ts_status s = ''failed''"

record job_record =
  rc_spec :: job_spec
  rc_attempts :: nat
  rc_submit :: submit_result
  rc_indeterminate :: bool
  rc_replay :: "replay_result option"
  rc_final_status :: "tx_status option"
  rc_final_poll_error :: "string option"

definition accepted :: "job_record \<Rightarrow> bool" where
  "accepted j \<longleftrightarrow> sr_job_id (rc_submit j) \<noteq> None \<and> (sr_status (rc_submit j) = Some 202 \<or> sr_status (rc_submit j) = Some 200)"

definition rc_job_id :: "job_record \<Rightarrow> string option" where
  "rc_job_id j = (if accepted j then sr_job_id (rc_submit j) else None)"

record sink_delivery =
  sd_signature_valid :: bool
  sd_event_id :: string
  sd_event :: string
  sd_sequence :: u64
  sd_job_id :: string
  sd_outcome :: "string option"
  sd_header_event_id :: "string option"
  sd_header_job_id :: "string option"
  sd_malformed :: "string option"

record chain_facts =
  cf_chain_id :: u64
  cf_target :: address
  cf_txs :: "chain_tx list"
  cf_hit_logs :: "b256 \<rightharpoonup> u64"
  cf_nonce_latest :: "address \<rightharpoonup> u64"
  cf_nonce_pending :: "address \<rightharpoonup> u64"
  cf_balances :: "address \<rightharpoonup> u256"

record verdict_input =
  vi_jobs :: "job_record list"
  vi_deliveries :: "sink_delivery list"
  vi_facts :: "chain_facts list"
  vi_signer_addrs :: "address list"
  vi_treasury :: address

section \<open>Collecting violations\<close>

definition MAX_IDS :: nat where "MAX_IDS = 50"

record violation =
  vl_check :: string
  vl_code :: string
  vl_message :: string
  vl_count :: nat
  vl_job_ids :: "string list"
  vl_examples :: "string list"

type_synonym violations = "(string \<times> string) \<rightharpoonup> violation"

definition violations_add :: "string \<Rightarrow> string \<Rightarrow> string \<Rightarrow> string \<Rightarrow> string \<Rightarrow> violations \<Rightarrow> violations" where
  "violations_add check code message ident detail vs =
     (let v = (case vs (check, code) of
                 Some v \<Rightarrow> v
               | None \<Rightarrow> \<lparr>vl_check = check, vl_code = code, vl_message = message, vl_count = 0, vl_job_ids = [], vl_examples = []\<rparr>);
          v = v\<lparr>vl_count := vl_count v + 1\<rparr>;
          v = (if length (vl_job_ids v) < MAX_IDS \<and> ident \<noteq> [] \<and> ident \<notin> set (vl_job_ids v)
               then v\<lparr>vl_job_ids := vl_job_ids v @ [ident]\<rparr> else v);
          v = (if length (vl_examples v) < 5 \<and> detail \<noteq> [] then v\<lparr>vl_examples := vl_examples v @ [detail]\<rparr> else v)
      in vs((check, code) \<mapsto> v))"

definition violation_merge :: "violation \<Rightarrow> violation \<Rightarrow> violation" where
  "violation_merge mine v =
     mine\<lparr>vl_count := vl_count mine + vl_count v,
          vl_job_ids := vl_job_ids mine @ take (MAX_IDS - length (vl_job_ids mine)) (vl_job_ids v),
          vl_examples := vl_examples mine @ take (5 - length (vl_examples mine)) (vl_examples v)\<rparr>"

definition violations_extend :: "violations \<Rightarrow> violations \<Rightarrow> violations" where
  "violations_extend mine other =
     (\<lambda>k. case other k of
            None \<Rightarrow> mine k
          | Some v \<Rightarrow> (case mine k of None \<Rightarrow> Some v | Some m \<Rightarrow> Some (violation_merge m v)))"

definition violations_is_empty :: "violations \<Rightarrow> bool" where
  "violations_is_empty vs \<longleftrightarrow> dom vs = {}"

type_synonym remark = "string \<times> string \<times> string"

definition file_remarks :: "(remark \<Rightarrow> string \<times> string) \<Rightarrow> remark list \<Rightarrow> violations" where
  "file_remarks say rs = fold (\<lambda>r. case r of (check, code, ident) \<Rightarrow>
     violations_add check code (fst (say r)) ident (snd (say r))) rs Map.empty"

definition label :: "job_record \<Rightarrow> string" where
  "label j = (case rc_job_id j of
     Some i \<Rightarrow> i
   | None \<Rightarrow> ''bench#'' @ dec_str (unat (sp_idx (rc_spec j))) @ ''('' @ hash_hex (sp_bench_id (rc_spec j)) @ '')'')"

section \<open>Attribution\<close>

definition by_key :: "job_record list \<Rightarrow> (u64 \<times> tx_key \<rightharpoonup> usize)" where
  "by_key jobs = fold (\<lambda>j m. m((sp_chain_id (rc_spec j), job_key (rc_spec j)) \<mapsto> sp_idx (rc_spec j))) jobs Map.empty"

definition attribute_tx :: "bench_abi \<Rightarrow> (u64 \<times> tx_key \<rightharpoonup> usize) \<Rightarrow> chain_facts \<Rightarrow> chain_tx
    \<Rightarrow> (usize \<Rightarrow> chain_tx list) \<times> chain_tx list \<Rightarrow> (usize \<Rightarrow> chain_tx list) \<times> chain_tx list" where
  "attribute_tx ab keys f tx acc =
     (case keys (cf_chain_id f, chain_tx_key ab (cf_target f) tx) of
        Some idx \<Rightarrow> ((fst acc)(idx := fst acc idx @ [tx]), snd acc)
      | None \<Rightarrow> (fst acc, snd acc @ [tx]))"

definition attribute :: "bench_abi \<Rightarrow> job_record list \<Rightarrow> chain_facts list \<Rightarrow> (usize \<Rightarrow> chain_tx list) \<times> chain_tx list" where
  "attribute ab jobs facts = fold (\<lambda>f. fold (attribute_tx ab (by_key jobs) f) (cf_txs f)) facts (\<lambda>_. [], [])"

definition facts_by_chain :: "chain_facts list \<Rightarrow> (u64 \<rightharpoonup> chain_facts)" where
  "facts_by_chain facts = fold (\<lambda>f m. m(cf_chain_id f \<mapsto> f)) facts Map.empty"

section \<open>The checks of one job\<close>

definition remark_if :: "bool \<Rightarrow> string \<Rightarrow> string \<Rightarrow> string \<Rightarrow> remark list" where
  "remark_if b check code ident = (if b then [(check, code, ident)] else [])"

text \<open>Check b, for every job: never twice.\<close>

definition twice_remarks :: "chain_facts option \<Rightarrow> chain_tx list \<Rightarrow> job_record \<Rightarrow> remark list" where
  "twice_remarks facts ex j =
     (let i = label j; n_success = length (filter ct_success ex) in
      remark_if (1 < length ex) ''b'' ''executed_more_than_once'' i
      @ (case facts of
           None \<Rightarrow> []
         | Some f \<Rightarrow>
             let logs = (case cf_hit_logs f (sp_bench_id (rc_spec j)) of Some n \<Rightarrow> n | None \<Rightarrow> 0) in
             remark_if (1 < logs) ''b'' ''hit_logged_more_than_once'' i
             @ remark_if (sp_kind (rc_spec j) \<in> {HitGas, HitNoGas, BurnGas} \<and> unat logs \<noteq> min n_success 1 \<and> length ex \<le> 1)
                 ''b'' ''hit_log_mismatch'' i))"

text \<open>Check i: the answer to a valid request.\<close>

definition http_remarks :: "job_record \<Rightarrow> remark list" where
  "http_remarks j =
     (let i = label j; r = rc_submit j in
      (case sr_status r of
         None \<Rightarrow> []
       | Some code \<Rightarrow>
           if code = 202 \<or> code = 503 then []
           else if code = 200 \<and> sr_replayed r \<and> 1 < rc_attempts j then []
           else [(''i'', ''unexpected_http_'' @ dec_str code, i)])
      @ remark_if ((sr_status r = Some 202 \<or> sr_status r = Some 200) \<and> sr_job_id r = None) ''i'' ''accept_without_job_id'' i)"

text \<open>Check h: replays.\<close>

definition replay_remarks :: "job_record \<Rightarrow> remark list" where
  "replay_remarks j =
     (case rc_replay j of
        None \<Rightarrow> []
      | Some r \<Rightarrow>
          let res = rr_result r in
          if sr_transport_error res \<noteq> None \<or> sr_status res = Some 503 then []
          else (case rr_plan r of
                  ReplaySame \<Rightarrow> remark_if (\<not> (sr_status res = Some 200 \<and> sr_replayed res \<and> sr_job_id res = sr_job_id (rc_submit j)))
                                 ''h'' ''replay_not_recognised'' (label j)
                | ReplayConflict \<Rightarrow> remark_if (\<not> (sr_status res = Some 409 \<and> sr_error_code res = Some ''idempotency_conflict''))
                                     ''h'' ''conflict_not_detected'' (label j)
                | NoReplay \<Rightarrow> []))"

text \<open>Checks b and c of a confirmed job: exactly once, and as the API says.\<close>

definition agrees_remarks :: "tx_status \<Rightarrow> chain_tx list \<Rightarrow> string \<Rightarrow> remark list" where
  "agrees_remarks fs ex i =
     (let api_hash = to_lowercase (case ts_tx_hash fs of Some h \<Rightarrow> h | None \<Rightarrow> []) in
      case find (\<lambda>t. hash_hex (ct_hash t) = api_hash) ex of
        None \<Rightarrow> [(''c'', ''tx_hash_mismatch'', i)]
      | Some t \<Rightarrow>
          remark_if (ts_nonce fs \<noteq> Some (ct_nonce t)) ''c'' ''nonce_mismatch'' i
          @ remark_if (\<not> (case ts_signer fs of Some s \<Rightarrow> to_lowercase s = to_lowercase (addr_hex (ct_from t)) | None \<Rightarrow> False))
              ''c'' ''signer_mismatch'' i
          @ remark_if (ts_block_number fs \<noteq> Some (ct_block t)) ''c'' ''block_mismatch'' i)"

definition confirmed_remarks :: "tx_status \<Rightarrow> chain_tx list \<Rightarrow> string \<Rightarrow> remark list" where
  "confirmed_remarks fs ex i =
     (case ex of
        [] \<Rightarrow> [(''b'', ''confirmed_but_not_on_chain'', i)]
      | tx # _ \<Rightarrow>
          (if ts_outcome fs = None then [(''b'', ''confirmed_without_outcome'', i)]
           else remark_if (length ex = 1 \<and> (ts_outcome fs = Some ''success'') \<noteq> ct_success tx) ''b'' ''outcome_mismatch'' i)
          @ agrees_remarks fs ex i)"

text \<open>Check g: the way the kind of job must end.\<close>

fun wanted :: "job_kind \<Rightarrow> string \<times> string option \<times> string option" where
  "wanted FailGas = (''confirmed'', Some ''reverted'', None)"
| "wanted FailNoGas = (''failed'', None, Some ''simulation_reverted'')"
| "wanted _ = (''confirmed'', Some ''success'', None)"

definition mix_remarks :: "job_record \<Rightarrow> tx_status \<Rightarrow> remark list" where
  "mix_remarks j fs =
     (case wanted (sp_kind (rc_spec j)) of (want_status, want_outcome, want_err) \<Rightarrow>
        let got_err = map_option be_code (ts_error fs); confirmed = (ts_status fs = ''confirmed'') in
        remark_if (ts_status fs \<noteq> want_status \<or> (confirmed \<and> ts_outcome fs \<noteq> want_outcome) \<or> (want_err \<noteq> None \<and> got_err \<noteq> want_err))
          ''g'' (''unexpected_result_'' @ job_kind_label (sp_kind (rc_spec j))) (label j))"

text \<open>Check d: the deliveries \<open>ds\<close> of a job.\<close>

definition saw :: "sink_delivery list \<Rightarrow> string \<Rightarrow> bool" where
  "saw ds ev = list_ex (\<lambda>d. sd_event d = ev) ds"

definition coverage_remarks :: "bool \<Rightarrow> sink_delivery list \<Rightarrow> string \<Rightarrow> remark list" where
  "coverage_remarks confirmed ds i =
     (if confirmed
      then remark_if (\<not> saw ds ''transaction.included'') ''d'' ''missing_included_webhook'' i
           @ remark_if (\<not> saw ds ''transaction.confirmed'') ''d'' ''missing_confirmed_webhook'' i
      else remark_if (\<not> saw ds ''transaction.failed'') ''d'' ''missing_failed_webhook'' i)"

definition contradiction_remarks :: "bool \<Rightarrow> chain_tx list \<Rightarrow> sink_delivery list \<Rightarrow> string \<Rightarrow> remark list" where
  "contradiction_remarks confirmed ex ds i =
     remark_if (confirmed \<and> saw ds ''transaction.failed'') ''d'' ''contradictory_webhook'' i
     @ remark_if (\<not> confirmed \<and> (saw ds ''transaction.included'' \<or> saw ds ''transaction.confirmed'')) ''d'' ''contradictory_webhook'' i
     @ (case ex of
          [tx] \<Rightarrow> remark_if (confirmed \<and> list_ex (\<lambda>d. (sd_event d = ''transaction.included'' \<or> sd_event d = ''transaction.confirmed'')
                      \<and> sd_outcome d \<noteq> Some (if ct_success tx then ''success'' else ''reverted'')) ds) ''d'' ''webhook_outcome_mismatch'' i
        | _ \<Rightarrow> [])"

text \<open>Whether a redelivery changed its sequence number, or two events share one.\<close>

fun bad_sequence :: "(string \<rightharpoonup> u64) \<Rightarrow> (u64 \<rightharpoonup> string) \<Rightarrow> sink_delivery list \<Rightarrow> bool" where
  "bad_sequence seq_of_event event_of_seq [] = False"
| "bad_sequence seq_of_event event_of_seq (d # ds) =
     ((case seq_of_event (sd_event_id d) of Some prev \<Rightarrow> prev \<noteq> sd_sequence d | None \<Rightarrow> False)
      \<or> (case event_of_seq (sd_sequence d) of Some prev \<Rightarrow> prev \<noteq> sd_event_id d | None \<Rightarrow> False)
      \<or> bad_sequence (seq_of_event(sd_event_id d \<mapsto> sd_sequence d)) (event_of_seq(sd_sequence d \<mapsto> sd_event_id d)) ds)"

definition lowest_sequence :: "sink_delivery list \<Rightarrow> u64 option" where
  "lowest_sequence ds = (case map sd_sequence ds of [] \<Rightarrow> None | s # ss \<Rightarrow> Some (fold min ss s))"

definition first_seq :: "sink_delivery list \<Rightarrow> string \<Rightarrow> u64 option" where
  "first_seq ds ev = lowest_sequence (filter (\<lambda>d. sd_event d = ev) ds)"

definition sequence_bad :: "sink_mode \<Rightarrow> bool \<Rightarrow> sink_delivery list \<Rightarrow> bool" where
  "sequence_bad mode confirmed ds =
     (let bad = bad_sequence Map.empty Map.empty (filter (\<lambda>d. sd_malformed d = None) ds)
            \<or> (case (first_seq ds ''transaction.included'', first_seq ds ''transaction.confirmed'') of
                 (Some i, Some c) \<Rightarrow> c \<le> i | _ \<Rightarrow> False)
      in bad
         \<or> (coverage_required mode \<and> ds \<noteq> [] \<and> lowest_sequence ds \<noteq> Some 1
            \<and> (if confirmed then saw ds ''transaction.included'' \<and> saw ds ''transaction.confirmed'' else saw ds ''transaction.failed'')))"

definition webhook_remarks :: "sink_mode \<Rightarrow> bool \<Rightarrow> chain_tx list \<Rightarrow> sink_delivery list \<Rightarrow> string \<Rightarrow> remark list" where
  "webhook_remarks mode confirmed ex ds i =
     (if coverage_required mode then coverage_remarks confirmed ds i else [])
     @ contradiction_remarks confirmed ex ds i
     @ remark_if (sequence_bad mode confirmed ds) ''d'' ''sequence_inconsistent'' i"

text \<open>The body of the loop over the jobs, with its two early exits.\<close>

definition judge_job :: "chain_facts option \<Rightarrow> chain_tx list \<Rightarrow> sink_delivery list \<Rightarrow> job_record \<Rightarrow> remark list" where
  "judge_job facts ex deliveries j =
     (let i = label j in
      twice_remarks facts ex j @ http_remarks j
      @ (if \<not> accepted j then remark_if (\<not> rc_indeterminate j \<and> ex \<noteq> []) ''b'' ''rejected_but_executed'' i
         else replay_remarks j
           @ (case rc_final_status j of
                None \<Rightarrow> [(''a'', ''not_terminal'', i)]
              | Some fs \<Rightarrow>
                  if \<not> ts_is_terminal fs then [(''a'', ''not_terminal'', i)]
                  else let confirmed = (ts_status fs = ''confirmed''); ds = filter (\<lambda>d. sd_job_id d = i) deliveries in
                    (if confirmed then confirmed_remarks fs ex i else remark_if (ex \<noteq> []) ''b'' ''failed_but_executed'' i)
                    @ mix_remarks j fs @ webhook_remarks (sp_webhook_mode (rc_spec j)) confirmed ex ds i)))"

text \<open>What the job adds to \<open>nonce_claims\<close>.\<close>

definition nonce_claim :: "job_record \<Rightarrow> ((u64 \<times> string \<times> u64) \<times> string) list" where
  "nonce_claim j =
     (case rc_final_status j of
        Some fs \<Rightarrow>
          (case (ts_signer fs, ts_nonce fs) of
             (Some s, Some n) \<Rightarrow>
               if accepted j \<and> ts_status fs = ''confirmed'' then [((sp_chain_id (rc_spec j), to_lowercase s, n), label j)] else []
           | _ \<Rightarrow> [])
      | None \<Rightarrow> [])"

section \<open>The checks of a run\<close>

definition delivery_remarks :: "sink_delivery \<Rightarrow> remark list" where
  "delivery_remarks d =
     remark_if (\<not> sd_signature_valid d) ''d'' ''invalid_signature'' (sd_job_id d)
     @ (if sd_malformed d \<noteq> None then [(''d'', ''malformed_webhook'', sd_job_id d)]
        else remark_if (sd_header_event_id d \<noteq> Some (sd_event_id d) \<or> sd_header_job_id d \<noteq> Some (sd_job_id d))
               ''d'' ''webhook_header_mismatch'' (sd_job_id d))"

text \<open>The map of claims is iterated in an unspecified order; here in the order of the first claims.\<close>

definition claim_remarks :: "job_record list \<Rightarrow> remark list" where
  "claim_remarks jobs =
     (let claims = concat (map nonce_claim jobs) in
      concat (map (\<lambda>k. let ids = map snd (filter (\<lambda>c. fst c = k) claims) in
        if 1 < length ids then map (\<lambda>i. (''c'', ''nonce_claimed_twice'', i)) ids else []) (remdups (map fst claims))))"

definition gap_remarks :: "verdict_input \<Rightarrow> remark list" where
  "gap_remarks inp = concat (map (\<lambda>f. concat (map (\<lambda>a.
     let l = (case cf_nonce_latest f a of Some n \<Rightarrow> n | None \<Rightarrow> 0); p = (case cf_nonce_pending f a of Some n \<Rightarrow> n | None \<Rightarrow> 0) in
     remark_if (l \<noteq> p) ''c'' ''pending_nonce_gap'' (addr_hex a)) (vi_signer_addrs inp @ [vi_treasury inp]))) (vi_facts inp))"

definition evaluate :: "bench_abi \<Rightarrow> verdict_input \<Rightarrow> remark list" where
  "evaluate ab inp =
     (let execs = fst (attribute ab (vi_jobs inp) (vi_facts inp)); facts = facts_by_chain (vi_facts inp) in
      concat (map (\<lambda>j. judge_job (facts (sp_chain_id (rc_spec j))) (execs (sp_idx (rc_spec j))) (vi_deliveries inp) j) (vi_jobs inp))
      @ concat (map delivery_remarks (vi_deliveries inp)) @ claim_remarks (vi_jobs inp) @ gap_remarks inp)"

section \<open>At rest\<close>

text \<open>What the observability routes answered; the parsers of addresses and amounts are arguments.\<close>

record bench_counts =
  bc_queued :: u64
  bc_processing :: u64
  bc_in_flight :: u64
  bc_included :: u64
  bc_succeeded :: u64
  bc_reverted :: u64
  bc_failed :: u64
  bc_total :: u64

definition bc_active :: "bench_counts \<Rightarrow> u64" where
  "bc_active c = bc_processing c + bc_in_flight c + bc_included c"

definition bc_minus :: "bench_counts \<Rightarrow> bench_counts \<Rightarrow> bench_counts" where
  "bc_minus c base =
     \<lparr>bc_queued = sat_sub (bc_queued c) (bc_queued base), bc_processing = sat_sub (bc_processing c) (bc_processing base),
      bc_in_flight = sat_sub (bc_in_flight c) (bc_in_flight base), bc_included = sat_sub (bc_included c) (bc_included base),
      bc_succeeded = sat_sub (bc_succeeded c) (bc_succeeded base), bc_reverted = sat_sub (bc_reverted c) (bc_reverted base),
      bc_failed = sat_sub (bc_failed c) (bc_failed base), bc_total = sat_sub (bc_total c) (bc_total base)\<rparr>"

record analytics_resp =
  an_totals :: bench_counts
  an_by_chain :: "(u64 \<times> bench_counts) list"

record pair_resp =
  pp_chain_id :: u64
  pp_signer :: string
  pp_state :: string
  pp_next_nonce :: "u64 option"

record balance_resp =
  bl_address :: string
  bl_confirmed :: string

record balances_chain =
  cb_chain_id :: u64
  cb_treasury :: "balance_resp option"
  cb_signers :: "balance_resp list"

record at_rest =
  ra_analytics :: "(analytics_resp, string) result"
  ra_baseline :: bench_counts
  ra_signers :: "(pair_resp list, string) result"
  ra_balances :: "(balances_chain list, string) result"

text \<open>Check e. The ground truth: how many jobs succeeded, were reverted, failed, or may or may not have been stored.\<close>

record truth =
  tr_succeeded :: u64
  tr_reverted :: u64
  tr_failed :: u64
  tr_slack :: u64

definition count_job :: "(usize \<Rightarrow> chain_tx list) \<Rightarrow> job_record \<Rightarrow> truth \<Rightarrow> truth" where
  "count_job execs j t =
     (let ex = execs (sp_idx (rc_spec j)) in
      if list_ex ct_success ex then t\<lparr>tr_succeeded := tr_succeeded t + 1\<rparr>
      else if ex \<noteq> [] then t\<lparr>tr_reverted := tr_reverted t + 1\<rparr>
      else if accepted j
      then (if (case rc_final_status j of Some s \<Rightarrow> ts_status s = ''failed'' | None \<Rightarrow> False) then t\<lparr>tr_failed := tr_failed t + 1\<rparr> else t)
      else if rc_indeterminate j then t\<lparr>tr_slack := tr_slack t + 1\<rparr> else t)"

definition ground_truth :: "(usize \<Rightarrow> chain_tx list) \<Rightarrow> job_record list \<Rightarrow> truth" where
  "ground_truth execs jobs = fold (count_job execs) jobs \<lparr>tr_succeeded = 0, tr_reverted = 0, tr_failed = 0, tr_slack = 0\<rparr>"

definition analytics_remarks :: "truth \<Rightarrow> bench_counts \<Rightarrow> analytics_resp \<Rightarrow> remark list" where
  "analytics_remarks t base a =
     (let got = bc_minus (an_totals a) base;
          want_total = tr_succeeded t + tr_reverted t + tr_failed t;
          in_progress = bc_queued got + bc_active got;
          e = (\<lambda>b. remark_if b ''e'' ''analytics_mismatch'' []) in
      e (bc_succeeded got \<noteq> tr_succeeded t)
      @ e (bc_reverted got \<noteq> tr_reverted t)
      @ e (bc_failed got < tr_failed t \<or> tr_failed t + tr_slack t < bc_failed got)
      @ e (in_progress \<noteq> 0)
      @ e (bc_total got < want_total \<or> want_total + tr_slack t + in_progress < bc_total got)
      @ e (an_by_chain a \<noteq> [] \<and> sum_list (map (bc_total \<circ> snd) (an_by_chain a)) \<noteq> bc_total (an_totals a)))"

text \<open>Check f.\<close>

definition reported :: "(string \<Rightarrow> address option) \<Rightarrow> balances_chain \<Rightarrow> (address \<rightharpoonup> string)" where
  "reported parse_addr c = fold (\<lambda>b m. case parse_addr (bl_address b) of Some a \<Rightarrow> m(a \<mapsto> bl_confirmed b) | None \<Rightarrow> m)
     (cb_signers c @ (case cb_treasury c of Some b \<Rightarrow> [b] | None \<Rightarrow> [])) Map.empty"

definition balance_remarks :: "(string \<Rightarrow> address option) \<Rightarrow> (string \<Rightarrow> u256 option) \<Rightarrow> verdict_input \<Rightarrow> balances_chain list
    \<Rightarrow> chain_facts \<Rightarrow> remark list" where
  "balance_remarks parse_addr parse_amount inp bals f =
     (case find (\<lambda>c. cb_chain_id c = cf_chain_id f) bals of
        None \<Rightarrow> [(''f'', ''balances_chain_missing'', [])]
      | Some c \<Rightarrow>
          concat (map (\<lambda>a.
            let chain_bal = (case cf_balances f a of Some b \<Rightarrow> b | None \<Rightarrow> 0) in
            case reported parse_addr c a of
              None \<Rightarrow> [(''f'', ''balance_missing'', addr_hex a)]
            | Some s \<Rightarrow> remark_if (parse_amount s \<noteq> Some chain_bal) ''f'' ''balance_mismatch'' (addr_hex a))
          (vi_signer_addrs inp @ [vi_treasury inp])))"

text \<open>Check c against the pairs route.\<close>

definition pair_remarks :: "(string \<Rightarrow> address option) \<Rightarrow> verdict_input \<Rightarrow> pair_resp \<Rightarrow> remark list" where
  "pair_remarks parse_addr inp p =
     (case parse_addr (pp_signer p) of
        None \<Rightarrow> []
      | Some addr \<Rightarrow>
          (case find (\<lambda>f. cf_chain_id f = pp_chain_id p) (vi_facts inp) of
             None \<Rightarrow> []
           | Some f \<Rightarrow>
               (case (pp_next_nonce p, cf_nonce_latest f addr) of
                  (Some api, Some chain) \<Rightarrow> remark_if (api \<noteq> chain) ''c'' ''next_nonce_mismatch'' (addr_hex addr)
                | _ \<Rightarrow> [])
               @ remark_if (pp_state p = ''paused'' \<or> pp_state p = ''busy'') ''c'' ''pair_not_idle_at_rest'' (addr_hex addr)))"

definition seen_pairs :: "(string \<Rightarrow> address option) \<Rightarrow> pair_resp list \<Rightarrow> (u64 \<times> address) set" where
  "seen_pairs parse_addr ps = fold (\<lambda>p s. case parse_addr (pp_signer p) of Some a \<Rightarrow> insert (pp_chain_id p, a) s | None \<Rightarrow> s) ps {}"

definition evaluate_at_rest :: "bench_abi \<Rightarrow> (string \<Rightarrow> address option) \<Rightarrow> (string \<Rightarrow> u256 option) \<Rightarrow> verdict_input \<Rightarrow> at_rest
    \<Rightarrow> remark list" where
  "evaluate_at_rest ab parse_addr parse_amount inp rest =
     (let execs = fst (attribute ab (vi_jobs inp) (vi_facts inp)) in
      (case ra_analytics rest of
         Err _ \<Rightarrow> [(''i'', ''analytics_route_failed'', [])]
       | Ok a \<Rightarrow> analytics_remarks (ground_truth execs (vi_jobs inp)) (ra_baseline rest) a)
      @ (case ra_balances rest of
           Err _ \<Rightarrow> [(''i'', ''balances_route_failed'', [])]
         | Ok bals \<Rightarrow> concat (map (balance_remarks parse_addr parse_amount inp bals) (vi_facts inp)))
      @ (case ra_signers rest of
           Err _ \<Rightarrow> [(''i'', ''signers_route_failed'', [])]
         | Ok ps \<Rightarrow>
             concat (map (pair_remarks parse_addr inp) ps)
             @ concat (map (\<lambda>f. concat (map (\<lambda>a. remark_if ((cf_chain_id f, a) \<notin> seen_pairs parse_addr ps) ''i'' ''pair_missing'' (addr_hex a))
                 (vi_signer_addrs inp))) (vi_facts inp))))"

section \<open>Violations\<close>

text \<open>Filing loses nothing: a code is filed exactly when it was remarked, as often as it was; the identifiers are
  distinct and at most fifty.\<close>

definition filed_as :: "string \<Rightarrow> string \<Rightarrow> remark list \<Rightarrow> violation \<Rightarrow> bool" where
  "filed_as check code rs v \<longleftrightarrow> vl_count v = length (filter (\<lambda>r. fst r = check \<and> fst (snd r) = code) rs) \<and> 0 < vl_count v
     \<and> length (vl_job_ids v) \<le> MAX_IDS \<and> distinct (vl_job_ids v) \<and> set (vl_job_ids v) \<subseteq> {i. (check, code, i) \<in> set rs}
     \<and> length (vl_examples v) \<le> 5"

definition filed_ok :: "violations \<Rightarrow> remark list \<Rightarrow> bool" where
  "filed_ok vs rs \<longleftrightarrow> (\<forall>check code. case vs (check, code) of
      None \<Rightarrow> filter (\<lambda>r. fst r = check \<and> fst (snd r) = code) rs = []
    | Some v \<Rightarrow> filed_as check code rs v)"

lemma filed_okD:
  assumes "filed_ok vs rs"
  shows "vs (check, code) = None \<Longrightarrow> filter (\<lambda>r. fst r = check \<and> fst (snd r) = code) rs = []"
    and "vs (check, code) = Some v \<Longrightarrow> filed_as check code rs v"
  using assms [unfolded filed_ok_def, THEN spec [of _ check], THEN spec [of _ code]] by simp_all

lemma filed_as_more:
  "filed_as check code rs v \<Longrightarrow> vl_count v' = vl_count v + 1 \<Longrightarrow> vl_job_ids v' \<in> {vl_job_ids v} \<union>
     {vl_job_ids v @ [ident] | i. length (vl_job_ids v) < MAX_IDS \<and> ident \<notin> set (vl_job_ids v)} \<Longrightarrow> length (vl_examples v') \<le> 5 \<Longrightarrow>
   filed_as check code (rs @ [(check, code, ident)]) v'"
  by (auto simp: filed_as_def)

lemma filed_as_first:
  "filter (\<lambda>r. fst r = check \<and> fst (snd r) = code) rs = [] \<Longrightarrow> vl_count v = 1 \<Longrightarrow> vl_job_ids v \<in> {[], [ident]} \<Longrightarrow> length (vl_examples v) \<le> 5 \<Longrightarrow>
   filed_as check code (rs @ [(check, code, ident)]) v"
  by (auto simp: filed_as_def MAX_IDS_def)

lemma filed_ok_step:
  assumes "filed_ok vs rs"
  shows "filed_ok (violations_add check code message ident detail vs) (rs @ [(check, code, ident)])" (is "filed_ok ?vs ?rs")
proof -
  have "case ?vs (c, d) of None \<Rightarrow> filter (\<lambda>r. fst r = c \<and> fst (snd r) = d) ?rs = [] | Some v \<Rightarrow> filed_as c d ?rs v" for c d
  proof (cases "(c, d) = (check, code)")
    case False
    then have "?vs (c, d) = vs (c, d)" by (auto simp: violations_add_def Let_def)
    moreover have "filed_as c d ?rs v \<longleftrightarrow> filed_as c d rs v" for v using False by (auto simp: filed_as_def)
    ultimately show ?thesis using False filed_okD [OF assms, of c d] by (auto split: option.split)
  next
    case True
    show ?thesis
    proof (cases "vs (check, code)")
      case None
      with True show ?thesis
        by (auto simp: violations_add_def Let_def intro!: filed_as_first filed_okD(1) [OF assms])
    next
      case (Some v)
      from filed_okD(2) [OF assms Some] have "length (vl_examples v) \<le> 5" by (simp add: filed_as_def)
      with True Some show ?thesis
        by (auto simp: violations_add_def Let_def intro!: filed_as_more [OF filed_okD(2) [OF assms Some]])
    qed
  qed
  then show ?thesis by (simp add: filed_ok_def)
qed

lemma filed_ok_fold:
  "filed_ok vs rs \<Longrightarrow> filed_ok (fold (\<lambda>r. case r of (check, code, ident) \<Rightarrow>
     violations_add check code (fst (say r)) ident (snd (say r))) rs' vs) (rs @ rs')"
proof (induction rs' arbitrary: vs rs)
  case (Cons r rs')
  obtain check code ident where r: "r = (check, code, ident)" by (cases r)
  show ?case using Cons.IH [OF filed_ok_step [OF Cons.prems]] by (simp add: r)
qed simp

lemma filed_ok_file: "filed_ok (file_remarks say rs) rs"
  using filed_ok_fold [of Map.empty "[]" say rs] by (simp add: file_remarks_def filed_ok_def)

lemma nothing_filed: "violations_is_empty (file_remarks say rs) \<longleftrightarrow> rs = []"
proof
  assume "violations_is_empty (file_remarks say rs)"
  then have none: "file_remarks say rs k = None" for k by (auto simp: violations_is_empty_def)
  have "r \<notin> set rs" for r
    using filed_okD(1) [OF filed_ok_file [of say rs] none, of "fst r" "fst (snd r)"] by (auto simp: filter_empty_conv)
  then show "rs = []" by (cases rs) auto
qed (simp add: file_remarks_def violations_is_empty_def)

lemma extend_empty: "violations_is_empty (violations_extend a b) \<longleftrightarrow> violations_is_empty a \<and> violations_is_empty b"
proof -
  have "violations_extend a b k = None \<longleftrightarrow> a k = None \<and> b k = None" for k
    by (simp add: violations_extend_def split: option.split)
  then show ?thesis by (auto simp: violations_is_empty_def dom_eq_empty_conv fun_eq_iff)
qed

section \<open>What silence means\<close>

text \<open>The mined transactions of a job, read off the chain: those on its chain that carry its key.\<close>

definition run_key :: "job_record \<Rightarrow> u64 \<times> tx_key" where
  "run_key j = (sp_chain_id (rc_spec j), job_key (rc_spec j))"

definition executions :: "bench_abi \<Rightarrow> chain_facts list \<Rightarrow> job_record \<Rightarrow> chain_tx list" where
  "executions ab facts j = concat (map (\<lambda>f. filter (\<lambda>tx. (cf_chain_id f, chain_tx_key ab (cf_target f) tx) = run_key j) (cf_txs f)) facts)"

lemma fold_upd_Some:
  "distinct (map f xs) \<Longrightarrow>
   fold (\<lambda>x m. m(f x \<mapsto> g x)) xs m k = Some v \<longleftrightarrow> (\<exists>x\<in>set xs. f x = k \<and> g x = v) \<or> (k \<notin> f ` set xs \<and> m k = Some v)"
proof (induction xs arbitrary: m)
  case (Cons x xs)
  show ?case using Cons.IH [of "m(f x \<mapsto> g x)"] Cons.prems by auto
qed simp

lemma by_key_Some:
  assumes "distinct (map run_key jobs)" "distinct (map (sp_idx \<circ> rc_spec) jobs)" "j \<in> set jobs"
  shows "by_key jobs k = Some (sp_idx (rc_spec j)) \<longleftrightarrow> k = run_key j"
proof -
  have "by_key jobs k = Some v \<longleftrightarrow> (\<exists>x\<in>set jobs. run_key x = k \<and> sp_idx (rc_spec x) = v)" for v
    using fold_upd_Some [OF assms(1), of "sp_idx \<circ> rc_spec" Map.empty k v] by (simp add: by_key_def run_key_def)
  moreover have "x = j" if "x \<in> set jobs" "sp_idx (rc_spec x) = sp_idx (rc_spec j)" for x
    using assms(3) that inj_onD [of "sp_idx \<circ> rc_spec" "set jobs" x j] assms(2) by (simp add: distinct_map)
  ultimately show ?thesis using assms(3) by auto
qed

lemma attribute_txs:
  "fst (fold (attribute_tx ab keys f) txs acc) idx
     = fst acc idx @ filter (\<lambda>tx. keys (cf_chain_id f, chain_tx_key ab (cf_target f) tx) = Some idx) txs"
  by (induction txs arbitrary: acc) (auto simp: attribute_tx_def split: option.splits)

lemma attribute_execs:
  "fst (fold (\<lambda>f. fold (attribute_tx ab keys f) (cf_txs f)) facts acc) idx
     = fst acc idx @ concat (map (\<lambda>f. filter (\<lambda>tx. keys (cf_chain_id f, chain_tx_key ab (cf_target f) tx) = Some idx) (cf_txs f)) facts)"
  by (induction facts arbitrary: acc) (auto simp: attribute_txs)

lemma attribute_is_executions:
  assumes "distinct (map run_key jobs)" "distinct (map (sp_idx \<circ> rc_spec) jobs)" "j \<in> set jobs"
  shows "fst (attribute ab jobs facts) (sp_idx (rc_spec j)) = executions ab facts j"
  by (simp add: attribute_def attribute_execs executions_def by_key_Some [OF assms])

lemma remark_if_Nil [simp]: "remark_if b c d i = [] \<longleftrightarrow> \<not> b"
  by (simp add: remark_if_def)

definition api_agrees :: "tx_status \<Rightarrow> chain_tx \<Rightarrow> bool" where
  "api_agrees fs tx \<longleftrightarrow> map_option to_lowercase (ts_tx_hash fs) = Some (hash_hex (ct_hash tx))
     \<and> ts_nonce fs = Some (ct_nonce tx) \<and> map_option to_lowercase (ts_signer fs) = Some (to_lowercase (addr_hex (ct_from tx)))
     \<and> ts_block_number fs = Some (ct_block tx)"

lemma agrees_silent: "agrees_remarks fs [tx] i = [] \<longleftrightarrow> api_agrees fs tx"
  by (auto simp: agrees_remarks_def api_agrees_def hash_hex_def to_lowercase_def Let_def split: option.splits if_splits)

text \<open>How a job that was accepted has ended.\<close>

definition ended_well :: "job_record \<Rightarrow> tx_status \<Rightarrow> chain_tx list \<Rightarrow> bool" where
  "ended_well j fs ex \<longleftrightarrow>
     (if sp_kind (rc_spec j) = FailNoGas
      then ts_status fs = ''failed'' \<and> map_option be_code (ts_error fs) = Some ''simulation_reverted'' \<and> ex = []
      else ts_status fs = ''confirmed'' \<and> (\<exists>tx. ex = [tx] \<and> ct_success tx = (sp_kind (rc_spec j) \<noteq> FailGas) \<and> api_agrees fs tx))"

definition owner_told :: "job_record \<Rightarrow> sink_delivery list \<Rightarrow> bool" where
  "owner_told j ds \<longleftrightarrow> (coverage_required (sp_webhook_mode (rc_spec j)) \<longrightarrow>
     (if sp_kind (rc_spec j) = FailNoGas then saw ds ''transaction.failed'' else saw ds ''transaction.included'' \<and> saw ds ''transaction.confirmed''))"

lemma judged_silent:
  assumes silent: "judge_job facts ex ds j = []" and acc: "accepted j"
  obtains fs where "rc_final_status j = Some fs" "ended_well j fs ex" "owner_told j (filter (\<lambda>d. sd_job_id d = label j) ds)"
proof -
  obtain fs where fs: "rc_final_status j = Some fs" and ends: "ts_is_terminal fs"
    using silent acc by (auto simp: judge_job_def Let_def split: option.splits if_splits)
  have once: "length ex \<le> 1" using silent by (auto simp: judge_job_def twice_remarks_def Let_def)
  have mix: "mix_remarks j fs = []"
    and body: "(if ts_status fs = ''confirmed'' then confirmed_remarks fs ex (label j) else remark_if (ex \<noteq> []) ''b'' ''failed_but_executed'' (label j)) = []"
    and hook: "webhook_remarks (sp_webhook_mode (rc_spec j)) (ts_status fs = ''confirmed'') ex (filter (\<lambda>d. sd_job_id d = label j) ds) (label j) = []"
    using silent acc fs ends by (simp_all add: judge_job_def Let_def)
  show thesis
  proof (rule that [OF fs])
    show ended: "ended_well j fs ex"
    proof (cases "ts_status fs = ''confirmed''")
      case True
      with body once obtain tx where "ex = [tx]" by (cases ex) (auto simp: confirmed_remarks_def)
      with True body mix show ?thesis
        by (cases "sp_kind (rc_spec j)") (auto simp: ended_well_def mix_remarks_def confirmed_remarks_def agrees_silent Let_def split: if_splits)
    next
      case False
      with ends body mix show ?thesis
        by (cases "sp_kind (rc_spec j)") (auto simp: ended_well_def mix_remarks_def Let_def ts_is_terminal_def split: if_splits)
    qed
    show "owner_told j (filter (\<lambda>d. sd_job_id d = label j) ds)"
      using hook ended by (auto simp: owner_told_def ended_well_def webhook_remarks_def coverage_remarks_def split: if_splits)
  qed
qed

text \<open>A job of the run, vouched for.\<close>

definition vouched :: "bench_abi \<Rightarrow> verdict_input \<Rightarrow> job_record \<Rightarrow> bool" where
  "vouched ab inp j \<longleftrightarrow> (let ex = executions ab (vi_facts inp) j in
     length ex \<le> 1
     \<and> (if accepted j then (\<exists>fs. rc_final_status j = Some fs \<and> ended_well j fs ex \<and> owner_told j (filter (\<lambda>d. sd_job_id d = label j) (vi_deliveries inp)))
        else rc_indeterminate j \<or> ex = []))"

lemma silent_vouched: "judge_job facts (executions ab (vi_facts inp) j) (vi_deliveries inp) j = [] \<Longrightarrow> vouched ab inp j"
proof (cases "accepted j")
  case True
  assume silent: "judge_job facts (executions ab (vi_facts inp) j) (vi_deliveries inp) j = []"
  then have "length (executions ab (vi_facts inp) j) \<le> 1" by (auto simp: judge_job_def twice_remarks_def Let_def)
  with judged_silent [OF silent True] True show ?thesis by (auto simp: vouched_def Let_def)
next
  case False
  assume "judge_job facts (executions ab (vi_facts inp) j) (vi_deliveries inp) j = []"
  with False show ?thesis by (auto simp: judge_job_def twice_remarks_def vouched_def Let_def)
qed

lemma evaluate_silent:
  assumes "evaluate ab inp = []" "distinct (map run_key (vi_jobs inp))" "distinct (map (sp_idx \<circ> rc_spec) (vi_jobs inp))" "j \<in> set (vi_jobs inp)"
  shows "vouched ab inp j"
proof -
  have "judge_job (facts_by_chain (vi_facts inp) (sp_chain_id (rc_spec j))) (fst (attribute ab (vi_jobs inp) (vi_facts inp)) (sp_idx (rc_spec j)))
      (vi_deliveries inp) j = []"
    using assms(1,4) by (simp add: evaluate_def Let_def)
  then show ?thesis unfolding attribute_is_executions [OF assms(2-4)] by (rule silent_vouched)
qed

lemma distinct_by_count: "(\<And>k. k \<in> set xs \<Longrightarrow> length (filter (\<lambda>x. x = k) xs) \<le> 1) \<Longrightarrow> distinct xs"
proof (induction xs)
  case (Cons x xs)
  have "filter (\<lambda>y. y = x) xs = []" using Cons.prems [of x] by simp
  moreover have "length (filter (\<lambda>y. y = k) xs) \<le> 1" if "k \<in> set xs" for k using Cons.prems [of k] that by (auto split: if_splits)
  ultimately show ?case using Cons.IH by (auto simp: filter_empty_conv)
qed simp

lemma claims_silent:
  assumes "claim_remarks jobs = []"
  shows "distinct (map fst (concat (map nonce_claim jobs)))"
proof (rule distinct_by_count)
  fix k assume "k \<in> set (map fst (concat (map nonce_claim jobs)))"
  moreover have "\<forall>k\<in>set (map fst (concat (map nonce_claim jobs))). \<not> 1 < length (filter (\<lambda>c. fst c = k) (concat (map nonce_claim jobs)))"
    using assms unfolding claim_remarks_def Let_def concat_eq_Nil_conv set_map set_remdups ball_simps
    by (metis (no_types, lifting) length_map list.map_disc_iff list.size(3) not_less_zero)
  ultimately have "\<not> 1 < length (filter (\<lambda>c. fst c = k) (concat (map nonce_claim jobs)))" by blast
  then show "length (filter (\<lambda>x. x = k) (map fst (concat (map nonce_claim jobs)))) \<le> 1" by (simp add: filter_map comp_def)
qed

text \<open>C26. A verdict without violations vouches for the whole run. When the jobs have distinct indices and keys, every job is on its
  chain at most once; an accepted job ended the way its kind must, confirmed exactly once in a transaction
  whose hash, nonce, signer, block and success are what the API says, or failed and nowhere on the chain, and
  its owner was told where deliveries can arrive; a job that was definitively refused is nowhere on the chain;
  no two confirmed jobs claim a nonce of a signer, and no account has transactions pending.\<close>

theorem silent_verdict_vouches_for_the_run:
  assumes "violations_is_empty (file_remarks say (evaluate ab inp))"
    and "distinct (map run_key (vi_jobs inp))" "distinct (map (sp_idx \<circ> rc_spec) (vi_jobs inp))"
  shows "(\<forall>j\<in>set (vi_jobs inp). vouched ab inp j) \<and> distinct (map fst (concat (map nonce_claim (vi_jobs inp))))
     \<and> (\<forall>f\<in>set (vi_facts inp). \<forall>a\<in>set (vi_signer_addrs inp @ [vi_treasury inp]).
          case_option 0 (\<lambda>n. n) (cf_nonce_latest f a) = case_option 0 (\<lambda>n. n) (cf_nonce_pending f a))"
proof -
  have ev: "evaluate ab inp = []" using assms(1) by (simp add: nothing_filed)
  have "vouched ab inp j" if "j \<in> set (vi_jobs inp)" for j using evaluate_silent [OF ev assms(2,3) that] .
  moreover have "distinct (map fst (concat (map nonce_claim (vi_jobs inp))))" using ev by (intro claims_silent) (simp add: evaluate_def Let_def)
  moreover have "gap_remarks inp = []" using ev by (simp add: evaluate_def Let_def)
  ultimately show ?thesis by (simp add: gap_remarks_def Let_def)
qed

lemma char_lower_hex: "n < 16 \<Longrightarrow> char_lower (hex_digit n) = hex_digit n"
proof -
  have "\<forall>i<16. char_lower (''0123456789abcdef'' ! i) = ''0123456789abcdef'' ! i" by code_simp
  then show "n < 16 \<Longrightarrow> char_lower (hex_digit n) = hex_digit n" by (simp add: hex_digit_def)
qed

lemma lower_hash_hex [simp]: "to_lowercase (hash_hex h) = hash_hex h"
proof -
  have "map char_lower (hex_nibbles k n) = hex_nibbles k n" for k n
    by (induction k arbitrary: n) (simp_all add: char_lower_hex)
  moreover have "map char_lower ''0x'' = ''0x''" by code_simp
  ultimately show ?thesis by (simp add: to_lowercase_def hash_hex_def)
qed

definition demo_accept :: submit_result where
  "demo_accept = \<lparr>sr_status = Some 202, sr_job_id = Some ''j1'', sr_replayed = False, sr_error_code = None, sr_transport_error = None\<rparr>"

definition demo_final :: tx_status where
  "demo_final = \<lparr>ts_job_id = ''j1'', ts_chain_id = 31337, ts_status = ''confirmed'', ts_outcome = Some ''success'', ts_signer = Some (addr_hex 5),
     ts_nonce = Some 1, ts_tx_hash = Some (hash_hex 9), ts_block_number = Some 3, ts_error = None\<rparr>"

definition demo_record :: job_record where
  "demo_record = \<lparr>rc_spec = demo_spec\<lparr>sp_replay := NoReplay\<rparr>, rc_attempts = 1, rc_submit = demo_accept, rc_indeterminate = False,
     rc_replay = None, rc_final_status = Some demo_final, rc_final_poll_error = None\<rparr>"

definition demo_hook :: "string \<Rightarrow> string \<Rightarrow> u64 \<Rightarrow> sink_delivery" where
  "demo_hook i ev n = \<lparr>sd_signature_valid = True, sd_event_id = i, sd_event = ev, sd_sequence = n, sd_job_id = ''j1'', sd_outcome = Some ''success'',
     sd_header_event_id = Some i, sd_header_job_id = Some ''j1'', sd_malformed = None\<rparr>"

definition demo_run :: verdict_input where
  "demo_run = \<lparr>vi_jobs = [demo_record], vi_deliveries = [demo_hook ''e1'' ''transaction.included'' 1, demo_hook ''e2'' ''transaction.confirmed'' 2],
     vi_facts = [\<lparr>cf_chain_id = 31337, cf_target = 77, cf_txs = [demo_tx], cf_hit_logs = (\<lambda>_. None)(42 := Some 1),
       cf_nonce_latest = (\<lambda>_. None)(5 := Some 2), cf_nonce_pending = (\<lambda>_. None)(5 := Some 2), cf_balances = (\<lambda>_. None)(5 := Some 100)\<rparr>],
     vi_signer_addrs = [5], vi_treasury = 6\<rparr>"

lemma demo_tx_fields: "ct_success demo_tx" "ct_hash demo_tx = 9" "ct_nonce demo_tx = 1" "ct_from demo_tx = 5" "ct_block demo_tx = 3"
  by (simp_all add: demo_tx_def)

lemma demo_tx_key: "chain_tx_key demo_abi 77 demo_tx = KeyId 42"
  by (rule keyed_by_selector [where sel = "[1, 2, 3, 4]" and rest = "[]"]) (simp_all add: demo_abi_def demo_tx_def hit_calldata_def)

lemma demo_executions: "fst (attribute demo_abi (vi_jobs demo_run) (vi_facts demo_run)) 0 = [demo_tx]"
  by (simp add: attribute_def attribute_tx_def by_key_def demo_run_def demo_record_def demo_spec_def job_key_def demo_tx_key)

lemma demo_webhooks: "webhook_remarks SinkOk True [demo_tx] (vi_deliveries demo_run) i = []"
  by (simp add: webhook_remarks_def coverage_required_def coverage_remarks_def contradiction_remarks_def sequence_bad_def first_seq_def
    lowest_sequence_def saw_def demo_hook_def demo_run_def demo_tx_fields remark_if_def word_le_nat_alt)

lemma demo_judged: "judge_job (facts_by_chain (vi_facts demo_run) 31337) [demo_tx] (vi_deliveries demo_run) demo_record = []"
proof -
  have ds: "filter (\<lambda>d. sd_job_id d = ''j1'') (vi_deliveries demo_run) = vi_deliveries demo_run" by (simp add: demo_run_def demo_hook_def)
  have lab: "label demo_record = ''j1''" "accepted demo_record" by (simp_all add: label_def rc_job_id_def accepted_def demo_record_def demo_accept_def)
  have "twice_remarks (facts_by_chain (vi_facts demo_run) 31337) [demo_tx] demo_record = []"
    by (simp add: twice_remarks_def facts_by_chain_def demo_run_def demo_record_def demo_spec_def demo_tx_fields Let_def)
  moreover have "http_remarks demo_record = []" by (simp add: http_remarks_def demo_record_def demo_accept_def Let_def)
  moreover have "confirmed_remarks demo_final [demo_tx] ''j1'' = []"
    by (simp add: confirmed_remarks_def agrees_remarks_def demo_final_def demo_tx_fields Let_def)
  moreover have "mix_remarks demo_record demo_final = []" by (simp add: mix_remarks_def demo_record_def demo_spec_def demo_final_def)
  moreover have "rc_final_status demo_record = Some demo_final" "ts_status demo_final = ''confirmed''" "replay_remarks demo_record = []"
    "sp_webhook_mode (rc_spec demo_record) = SinkOk"
    by (simp_all add: demo_record_def demo_final_def demo_spec_def replay_remarks_def)
  ultimately show ?thesis by (simp add: judge_job_def lab ds demo_webhooks ts_is_terminal_def Let_def)
qed

lemma demo_run_silent: "evaluate demo_abi demo_run = []"
proof -
  have "vi_jobs demo_run = [demo_record]" "sp_idx (rc_spec demo_record) = 0" "sp_chain_id (rc_spec demo_record) = 31337"
    by (simp_all add: demo_run_def demo_record_def demo_spec_def)
  moreover have "concat (map delivery_remarks (vi_deliveries demo_run)) = []" by (simp add: delivery_remarks_def demo_run_def demo_hook_def)
  moreover have "claim_remarks [demo_record] = []"
    by (simp add: claim_remarks_def nonce_claim_def demo_record_def demo_final_def)
  moreover have "gap_remarks demo_run = []" by (simp add: gap_remarks_def demo_run_def)
  ultimately show ?thesis using demo_executions demo_judged by (simp add: evaluate_def Let_def)
qed

theorem silent_verdict_vouches_for_the_run_witness: "vouched demo_abi demo_run demo_record"
proof -
  have "violations_is_empty (file_remarks (\<lambda>_. ([], [])) (evaluate demo_abi demo_run))"
    by (simp add: nothing_filed demo_run_silent)
  from silent_verdict_vouches_for_the_run [OF this] show ?thesis by (simp add: demo_run_def)
qed

section \<open>Silence at rest\<close>

definition ends_as :: "job_kind \<Rightarrow> string" where
  "ends_as k = (case k of FailGas \<Rightarrow> ''reverted'' | FailNoGas \<Rightarrow> ''failed'' | _ \<Rightarrow> ''succeeded'')"

definition ending :: "string \<Rightarrow> job_record list \<Rightarrow> nat" where
  "ending e jobs = length (filter (\<lambda>j. ends_as (sp_kind (rc_spec j)) = e) jobs)"

lemma ending_all: "ending ''succeeded'' jobs + ending ''reverted'' jobs + ending ''failed'' jobs = length jobs"
  by (induction jobs) (auto simp: ending_def ends_as_def split: job_kind.splits)

lemma count_vouched:
  assumes "vouched ab inp j" "accepted j" "execs (sp_idx (rc_spec j)) = executions ab (vi_facts inp) j"
  shows "count_job execs j t = (case sp_kind (rc_spec j) of FailGas \<Rightarrow> t\<lparr>tr_reverted := tr_reverted t + 1\<rparr>
    | FailNoGas \<Rightarrow> t\<lparr>tr_failed := tr_failed t + 1\<rparr> | _ \<Rightarrow> t\<lparr>tr_succeeded := tr_succeeded t + 1\<rparr>)"
  using assms by (cases "sp_kind (rc_spec j)") (auto simp: count_job_def vouched_def ended_well_def Let_def)

lemma truth_of_vouched:
  assumes "\<And>j. j \<in> set jobs \<Longrightarrow> vouched ab inp j \<and> accepted j \<and> execs (sp_idx (rc_spec j)) = executions ab (vi_facts inp) j"
  shows "tr_succeeded (fold (count_job execs) jobs t) = tr_succeeded t + of_nat (ending ''succeeded'' jobs)
    \<and> tr_reverted (fold (count_job execs) jobs t) = tr_reverted t + of_nat (ending ''reverted'' jobs)
    \<and> tr_failed (fold (count_job execs) jobs t) = tr_failed t + of_nat (ending ''failed'' jobs)
    \<and> tr_slack (fold (count_job execs) jobs t) = tr_slack t"
  using assms
proof (induction jobs arbitrary: t)
  case (Cons j jobs)
  have j: "vouched ab inp j" "accepted j" "execs (sp_idx (rc_spec j)) = executions ab (vi_facts inp) j" using Cons.prems by simp_all
  show ?case using Cons.IH [of "count_job execs j t"] Cons.prems
    by (cases "sp_kind (rc_spec j)") (simp_all add: count_vouched [where execs = execs, OF j] ending_def ends_as_def)
qed (simp add: ending_def)

lemma analytics_silent:
  assumes "analytics_remarks t base a = []" "tr_slack t = 0"
  shows "bc_succeeded (bc_minus (an_totals a) base) = tr_succeeded t" "bc_reverted (bc_minus (an_totals a) base) = tr_reverted t"
    "bc_failed (bc_minus (an_totals a) base) = tr_failed t"
    "bc_total (bc_minus (an_totals a) base) = tr_succeeded t + tr_reverted t + tr_failed t"
  using assms by (auto simp: analytics_remarks_def Let_def not_less)

lemma balance_silent:
  assumes "balance_remarks parse_addr parse_amount inp bals f = []" "a \<in> set (vi_signer_addrs inp @ [vi_treasury inp])"
  shows "\<exists>c\<in>set bals. cb_chain_id c = cf_chain_id f
    \<and> Option.bind (reported parse_addr c a) parse_amount = Some (case_option 0 (\<lambda>b. b) (cf_balances f a))"
proof -
  obtain c where c: "find (\<lambda>c. cb_chain_id c = cf_chain_id f) bals = Some c"
    using assms(1) by (auto simp: balance_remarks_def split: option.splits)
  have "Option.bind (reported parse_addr c a) parse_amount = Some (case_option 0 (\<lambda>b. b) (cf_balances f a))"
    using assms(1) [unfolded balance_remarks_def c option.case concat_eq_Nil_conv, THEN bspec, OF imageI [OF assms(2), folded set_map]]
    by (auto simp: Let_def split: option.splits)
  with c show ?thesis by (auto simp: find_Some_iff)
qed


definition demo_rest :: at_rest where
  "demo_rest = \<lparr>ra_analytics = Ok \<lparr>an_totals = \<lparr>bc_queued = 0, bc_processing = 0, bc_in_flight = 0, bc_included = 0, bc_succeeded = 1,
        bc_reverted = 0, bc_failed = 0, bc_total = 1\<rparr>, an_by_chain = []\<rparr>,
     ra_baseline = \<lparr>bc_queued = 0, bc_processing = 0, bc_in_flight = 0, bc_included = 0, bc_succeeded = 0, bc_reverted = 0, bc_failed = 0, bc_total = 0\<rparr>,
     ra_signers = Ok [\<lparr>pp_chain_id = 31337, pp_signer = ''s'', pp_state = ''idle'', pp_next_nonce = Some 2\<rparr>],
     ra_balances = Ok [\<lparr>cb_chain_id = 31337, cb_treasury = Some \<lparr>bl_address = ''t'', bl_confirmed = ''0''\<rparr>,
        cb_signers = [\<lparr>bl_address = ''s'', bl_confirmed = ''100''\<rparr>]\<rparr>]\<rparr>"

definition demo_parse_addr :: "string \<Rightarrow> address option" where
  "demo_parse_addr s = (if s = ''s'' then Some 5 else if s = ''t'' then Some 6 else None)"

definition demo_parse_amount :: "string \<Rightarrow> u256 option" where
  "demo_parse_amount s = (if s = ''100'' then Some 100 else if s = ''0'' then Some 0 else None)"

lemma demo_rest_silent: "evaluate_at_rest demo_abi demo_parse_addr demo_parse_amount demo_run demo_rest = []"
proof -
  have jobs: "vi_jobs demo_run = [demo_record]" "sp_idx (rc_spec demo_record) = 0" by (simp_all add: demo_run_def demo_record_def demo_spec_def)
  have truth: "ground_truth (fst (attribute demo_abi (vi_jobs demo_run) (vi_facts demo_run))) (vi_jobs demo_run)
      = \<lparr>tr_succeeded = 1, tr_reverted = 0, tr_failed = 0, tr_slack = 0\<rparr>"
    using demo_executions by (simp add: ground_truth_def count_job_def jobs demo_tx_fields)
  have "case ra_balances demo_rest of Err _ \<Rightarrow> False
      | Ok bals \<Rightarrow> concat (map (balance_remarks demo_parse_addr demo_parse_amount demo_run bals) (vi_facts demo_run)) = []"
    by (simp add: demo_rest_def balance_remarks_def reported_def demo_run_def demo_parse_addr_def demo_parse_amount_def)
  moreover have "case ra_signers demo_rest of Err _ \<Rightarrow> False
      | Ok ps \<Rightarrow> concat (map (pair_remarks demo_parse_addr demo_run) ps) = [] \<and> (31337, 5) \<in> seen_pairs demo_parse_addr ps"
    by (simp add: demo_rest_def pair_remarks_def seen_pairs_def demo_run_def demo_parse_addr_def)
  moreover have "case ra_analytics demo_rest of Err _ \<Rightarrow> False
      | Ok a \<Rightarrow> analytics_remarks \<lparr>tr_succeeded = 1, tr_reverted = 0, tr_failed = 0, tr_slack = 0\<rparr> (ra_baseline demo_rest) a = []"
    by (simp add: demo_rest_def analytics_remarks_def bc_minus_def bc_active_def sat_sub_def remark_if_def Let_def)
  moreover have "vi_signer_addrs demo_run = [5]" "map cf_chain_id (vi_facts demo_run) = [31337]" by (simp_all add: demo_run_def)
  ultimately show ?thesis by (auto simp: evaluate_at_rest_def truth Let_def split: sum.splits)
qed


end
