(* ===== verification/Bench_Watch.thy ===== *)
theory Bench_Watch
  imports Bench_Verdict Api
begin

text \<open>
  What the bench observes while it runs: the webhook receiver of \<^verbatim>\<open>crates/gum-bench/src/sink.rs\<close>, which checks the
  signature the engine puts on a delivery, and \<^verbatim>\<open>crates/gum-bench/src/tracker.rs\<close>, which polls every accepted
  job until it is terminal and reads the growth of the queue off the samples. HMAC, hex and JSON come from
  libraries and are arguments.
\<close>

section \<open>The receiver\<close>

record sink_lib =
  sl_hmac :: "string \<Rightarrow> string \<Rightarrow> bytes"
  sl_hex_decode :: "string \<Rightarrow> bytes option"
  sl_event_body :: "string \<Rightarrow> (string \<times> string \<times> u64 \<times> string \<times> string option, string) result"

text \<open>\<open>str::parse::<i64>\<close>.\<close>

fun parse_digits :: "nat \<Rightarrow> string \<Rightarrow> nat option" where
  "parse_digits a [] = Some a"
| "parse_digits a (c # cs) = (let n = of_char c :: nat in if 48 \<le> n \<and> n \<le> 57 then parse_digits (10 * a + (n - 48)) cs else None)"

definition parse_i64 :: "string \<Rightarrow> int option" where
  "parse_i64 s =
     (case s of
        [] \<Rightarrow> None
      | c # cs \<Rightarrow>
          let ds = (if c = CHR ''-'' \<or> c = CHR ''+'' then cs else s) in
          if ds = [] then None
          else case parse_digits 0 ds of
                 None \<Rightarrow> None
               | Some n \<Rightarrow> let v = (if c = CHR ''-'' then - int n else int n)
                           in if - (2 ^ 63) \<le> v \<and> v < 2 ^ 63 then Some v else None)"

definition sink_sign :: "sink_lib \<Rightarrow> string \<Rightarrow> int \<Rightarrow> string \<Rightarrow> bytes" where
  "sink_sign lib secret t body = sl_hmac lib secret (int_str t @ ''.'' @ body)"

text \<open>The loop over the parts of the header: a later part overrides an earlier one, also with a \<open>t\<close> that does not parse.\<close>

fun read_parts :: "string list \<Rightarrow> int option \<times> string option \<Rightarrow> int option \<times> string option" where
  "read_parts [] acc = acc"
| "read_parts (part # parts) (t, v1) =
     (case split_once_char CHR ''='' (str_trim part) of
        Some (k, v) \<Rightarrow> if k = ''t'' then read_parts parts (parse_i64 v, v1)
                       else if k = ''v1'' then read_parts parts (t, Some v)
                       else read_parts parts (t, v1)
      | None \<Rightarrow> read_parts parts (t, v1))"

datatype signature_error = NoHeader | NoTimestamp | NoV1 | NotHex | HmacMismatch

definition verify_signature :: "sink_lib \<Rightarrow> string \<Rightarrow> string option \<Rightarrow> string \<Rightarrow> (int, signature_error) result" where
  "verify_signature lib secret header body =
     (case header of
        None \<Rightarrow> Err NoHeader
      | Some h \<Rightarrow>
          (case read_parts (split_at_char CHR '','' h) (None, None) of
             (None, _) \<Rightarrow> Err NoTimestamp
           | (Some _, None) \<Rightarrow> Err NoV1
           | (Some t, Some v1) \<Rightarrow>
               (case sl_hex_decode lib v1 of
                  None \<Rightarrow> Err NotHex
                | Some given \<Rightarrow> if given = sink_sign lib secret t body then Ok t else Err HmacMismatch)))"

text \<open>\<open>record\<close>: what is kept of a delivery, the headers being read by name.\<close>

definition sink_record :: "sink_lib \<Rightarrow> string option \<Rightarrow> (string \<Rightarrow> string option) \<Rightarrow> string \<Rightarrow> sink_delivery" where
  "sink_record lib secret hdr body =
     (let ok = (case secret of
                  None \<Rightarrow> True
                | Some s \<Rightarrow> (case verify_signature lib s (hdr ''x-gum-signature'') body of Ok _ \<Rightarrow> True | Err _ \<Rightarrow> False));
          d = \<lparr>sd_signature_valid = ok, sd_event_id = [], sd_event = [], sd_sequence = 0, sd_job_id = [], sd_outcome = None,
               sd_header_event_id = hdr ''x-gum-event-id'', sd_header_job_id = hdr ''x-gum-job-id'', sd_malformed = None\<rparr> in
      case sl_event_body lib body of
        Ok (event_id, event, sequence, job_id, outcome) \<Rightarrow>
          d\<lparr>sd_event_id := event_id, sd_event := event, sd_sequence := sequence, sd_job_id := job_id, sd_outcome := outcome\<rparr>
      | Err e \<Rightarrow> d\<lparr>sd_malformed := Some e, sd_job_id := (case hdr ''x-gum-job-id'' of Some i \<Rightarrow> i | None \<Rightarrow> [])\<rparr>)"

section \<open>Draining\<close>

definition drain_pending :: "job_record \<Rightarrow> bool" where
  "drain_pending j \<longleftrightarrow> \<not> (case rc_final_status j of Some s \<Rightarrow> ts_is_terminal s | None \<Rightarrow> False) \<and> rc_job_id j \<noteq> None"

text \<open>One answer: the job, whether there was progress, and whether the job remains.\<close>

definition drain_answer :: "(tx_status option, string) result \<Rightarrow> job_record \<Rightarrow> job_record \<times> bool \<times> bool" where
  "drain_answer res j =
     (case res of
        Ok (Some s) \<Rightarrow>
          let changed = (case rc_final_status j of Some p \<Rightarrow> ts_status p \<noteq> ts_status s | None \<Rightarrow> True)
          in (j\<lparr>rc_final_status := Some s, rc_final_poll_error := None\<rparr>, ts_is_terminal s \<or> changed, \<not> ts_is_terminal s)
      | Ok None \<Rightarrow> (j\<lparr>rc_final_poll_error := Some ''404 not_found''\<rparr>, False, True)
      | Err e \<Rightarrow> (j\<lparr>rc_final_poll_error := Some e\<rparr>, False, True))"

definition drain_poll :: "(job_record \<Rightarrow> (tx_status option, string) result) \<Rightarrow> job_record list \<Rightarrow> (job_record \<times> bool \<times> bool) list" where
  "drain_poll answer jobs = map (\<lambda>j. if drain_pending j then drain_answer (answer j) j else (j, False, False)) jobs"

datatype drain_end = Drained | Stalled | HardLimit | Polling

text \<open>The loop, over the rounds: what each request is answered, and the time after it.\<close>

fun drain :: "duration \<Rightarrow> duration \<Rightarrow> instant \<Rightarrow> instant \<Rightarrow> ((job_record \<Rightarrow> (tx_status option, string) result) \<times> instant) list
    \<Rightarrow> job_record list \<Rightarrow> drain_end \<times> job_record list" where
  "drain stall hard started progress [] jobs = (if list_ex drain_pending jobs then Polling else Drained, jobs)"
| "drain stall hard started progress ((answer, now) # rounds) jobs =
     (if \<not> list_ex drain_pending jobs then (Drained, jobs)
      else
        let rs = drain_poll answer jobs;
            jobs = map fst rs;
            progress = (if list_ex (fst \<circ> snd) rs then now else progress) in
        if \<not> list_ex (snd \<circ> snd) rs then (Drained, jobs)
        else if stall < now - progress then (Stalled, jobs)
        else if hard < now - started then (HardLimit, jobs)
        else drain stall hard started progress rounds jobs)"

text \<open>\<open>queue_growth_streak\<close>: over the samples that are ok, from the newest back, the run in which the queue never shrank.\<close>

fun growth_back :: "u64 \<Rightarrow> u64 list \<Rightarrow> nat \<times> u64" where
  "growth_back newer [] = (0, newer)"
| "growth_back newer (older # rest) =
     (if older \<le> newer then (case growth_back older rest of (n, start) \<Rightarrow> (n + 1, start)) else (0, newer))"

definition queue_growth_streak :: "(bool \<times> u64) list \<Rightarrow> nat" where
  "queue_growth_streak samples =
     (case rev (map snd (filter fst samples)) of
        [] \<Rightarrow> 0
      | newest # older \<Rightarrow> (case growth_back newest older of (streak, run_start) \<Rightarrow> if run_start < newest then streak else 0))"

section \<open>Lemmas\<close>

lemma split_at_first: "c \<notin> set a \<Longrightarrow> split_at_char c (a @ c # b) = a # split_at_char c b"
  by (induction a) auto

lemma split_at_none: "c \<notin> set a \<Longrightarrow> split_at_char c a = [a]"
  by (induction a) auto

lemma split_once_first: "c \<notin> set a \<Longrightarrow> split_once_char c (a @ c # b) = Some (a, b)"
  by (induction a) auto

lemma str_trim_id: "list_all (\<lambda>c. \<not> is_blank c) s \<Longrightarrow> str_trim s = s"
proof -
  assume s: "list_all (\<lambda>c. \<not> is_blank c) s"
  have none: "dropWhile is_blank u = u" if "\<forall>c\<in>set u. \<not> is_blank c" for u using that by (cases u) auto
  have "dropWhile is_blank s = s" "dropWhile is_blank (rev s) = rev s" using s by (auto intro!: none simp: list_all_iff)
  then show "str_trim s = s" by (simp add: str_trim_def)
qed

lemma digit_char: "n < 10 \<Longrightarrow> of_char (hex_digit n) = 48 + n"
proof -
  have "\<forall>i<10. of_char (''0123456789abcdef'' ! i) = 48 + i" by code_simp
  then show "n < 10 \<Longrightarrow> of_char (hex_digit n) = 48 + n" by (simp add: hex_digit_def)
qed

lemma parse_digits_append: "parse_digits a (s @ u) = Option.bind (parse_digits a s) (\<lambda>b. parse_digits b u)"
  by (induction a s rule: parse_digits.induct) (auto simp: Let_def)

lemma parse_digits_dec: "parse_digits 0 (dec_str n) = Some n"
proof (induction n rule: dec_str.induct)
  case (1 n)
  show ?case
  proof (cases "n < 10")
    case True
    then show ?thesis by (subst dec_str.simps) (simp add: digit_char)
  next
    case False
    then show ?thesis using 1 by (subst dec_str.simps) (simp add: parse_digits_append digit_char)
  qed
qed

text \<open>Characters of printed numbers.\<close>

definition hex_char :: "char \<Rightarrow> bool" where
  "hex_char c \<longleftrightarrow> c \<in> set ''0123456789abcdef''"

lemma hex_digit_char: "n < 16 \<Longrightarrow> hex_char (hex_digit n)"
  unfolding hex_char_def hex_digit_def by (rule nth_mem) simp

lemma hex_char_facts: "hex_char c \<Longrightarrow> \<not> is_blank c" "hex_char c \<Longrightarrow> c \<noteq> CHR '',''" "hex_char c \<Longrightarrow> c \<noteq> CHR ''=''"
    "hex_char c \<Longrightarrow> c \<noteq> CHR ''-''" "hex_char c \<Longrightarrow> c \<noteq> CHR ''+''"
  by (auto simp: hex_char_def is_blank_def)

lemma dec_str_chars: "list_all hex_char (dec_str n)"
proof (induction n rule: dec_str.induct)
  case (1 n)
  then show ?case by (subst dec_str.simps) (simp add: hex_digit_char)
qed

lemma hex_encode_chars: "list_all hex_char (hex_encode bs)"
proof -
  have "list_all hex_char (hex_nibbles k n)" for k n
    by (induction k arbitrary: n) (simp_all add: hex_digit_char)
  then show ?thesis by (induction bs) (simp_all add: hex_encode_def)
qed

lemma parse_i64_int_str: "- (2 ^ 63) \<le> t \<Longrightarrow> t < 2 ^ 63 \<Longrightarrow> parse_i64 (int_str t) = Some t"
proof (cases "t < 0")
  case True
  assume "- (2 ^ 63) \<le> t" "t < 2 ^ 63"
  with True show ?thesis by (simp add: int_str_def parse_i64_def parse_digits_dec dec_str_not_Nil)
next
  case False
  assume "- (2 ^ 63) \<le> t" "t < 2 ^ 63"
  moreover obtain c cs where "dec_str (nat t) = c # cs" using dec_str_not_Nil by (metis list.exhaust)
  moreover from this have "hex_char c" using dec_str_chars [of "nat t"] by simp
  moreover have "parse_digits 0 (dec_str (nat t)) = Some (nat t)" by (rule parse_digits_dec)
  ultimately show ?thesis using False hex_char_facts [of c] by (simp add: int_str_def parse_i64_def)
qed

lemma int_str_plain: "list_all (\<lambda>c. \<not> is_blank c) (int_str t)" "CHR '','' \<notin> set (int_str t)"
proof -
  have dec: "list_all (\<lambda>c. \<not> is_blank c) (dec_str n)" "CHR '','' \<notin> set (dec_str n)" for n
    using dec_str_chars [of n] hex_char_facts(1,2) by (auto simp: list_all_iff)
  have "\<not> is_blank CHR ''-''" by (simp add: is_blank_def)
  then show "list_all (\<lambda>c. \<not> is_blank c) (int_str t)" "CHR '','' \<notin> set (int_str t)" by (simp_all add: int_str_def dec)
qed

lemma read_header:
  "- (2 ^ 63) \<le> t \<Longrightarrow> t < 2 ^ 63 \<Longrightarrow>
   read_parts (split_at_char CHR '','' (signature_header (\<lambda>s m. hex_encode (f s m)) secret t body)) (None, None)
     = (Some t, Some (hex_encode (f secret (int_str t @ ''.'' @ body))))"
proof -
  assume t: "- (2 ^ 63) \<le> t" "t < 2 ^ 63"
  let ?h = "hex_encode (f secret (int_str t @ ''.'' @ body))"
  have h: "CHR '','' \<notin> set ?h" "list_all (\<lambda>c. \<not> is_blank c) ?h"
    using hex_encode_chars [of "f secret (int_str t @ ''.'' @ body)"] hex_char_facts(1,2) by (auto simp: list_all_iff)
  have "split_at_char CHR '','' ((''t='' @ int_str t) @ CHR '','' # (''v1='' @ ?h)) = [''t='' @ int_str t, ''v1='' @ ?h]"
    using int_str_plain(2) h(1) by (subst split_at_first) (simp_all add: split_at_none)
  then have parts: "split_at_char CHR '','' (signature_header (\<lambda>s m. hex_encode (f s m)) secret t body) = [''t='' @ int_str t, ''v1='' @ ?h]"
    by (simp add: signature_header_def)
  have trim: "str_trim (''t='' @ int_str t) = ''t='' @ int_str t" "str_trim (''v1='' @ ?h) = ''v1='' @ ?h"
  proof -
    have "list_all (\<lambda>c. \<not> is_blank c) ''t=''" "list_all (\<lambda>c. \<not> is_blank c) ''v1=''" by (simp_all add: is_blank_def)
    then show "str_trim (''t='' @ int_str t) = ''t='' @ int_str t" "str_trim (''v1='' @ ?h) = ''v1='' @ ?h"
      using int_str_plain(1) [of t] h(2) by (simp_all only: str_trim_id list_all_append)
  qed
  show ?thesis
    unfolding parts read_parts.simps trim by (simp add: parse_i64_int_str [OF t])
qed

section \<open>Properties\<close>

text \<open>C36. The receiver accepts what the engine signs, and nothing else under that header: the signature header the engine makes for a
  body at time \<open>t\<close> verifies, as time \<open>t\<close>, exactly the bodies with the same MAC, where hex decoding inverts
  encoding and \<open>t\<close> is an \<open>i64\<close>.\<close>

theorem engine_signature_verifies:
  assumes "\<And>bs. sl_hex_decode lib (hex_encode bs) = Some bs" "- (2 ^ 63) \<le> t" "t < 2 ^ 63"
  shows "verify_signature lib secret (Some (signature_header (\<lambda>s m. hex_encode (sl_hmac lib s m)) secret t body)) body'
     = (if sl_hmac lib secret (int_str t @ ''.'' @ body') = sl_hmac lib secret (int_str t @ ''.'' @ body) then Ok t else Err HmacMismatch)"
  by (simp add: verify_signature_def read_header [OF assms(2,3)] assms(1) sink_sign_def eq_commute)

definition hex_val :: "char \<Rightarrow> nat" where
  "hex_val c = (let n = of_char c :: nat in if n \<le> 57 then n - 48 else n - 87)"

fun demo_hex_decode :: "string \<Rightarrow> bytes option" where
  "demo_hex_decode [] = Some []"
| "demo_hex_decode [c] = None"
| "demo_hex_decode (a # b # s) = map_option (\<lambda>bs. word_of_nat (16 * hex_val a + hex_val b) # bs) (demo_hex_decode s)"

lemma hex_val_digit: "n < 16 \<Longrightarrow> hex_val (hex_digit n) = n"
proof -
  have "\<forall>i<16. hex_val (''0123456789abcdef'' ! i) = i" by code_simp
  then show "n < 16 \<Longrightarrow> hex_val (hex_digit n) = n" by (simp add: hex_digit_def)
qed

lemma demo_hex_inverse: "demo_hex_decode (hex_encode bs) = Some bs"
proof (induction bs)
  case (Cons b bs)
  have "hex_nibbles 2 (unat b) = [hex_digit (unat b div 16 mod 16), hex_digit (unat b mod 16)]" by (simp add: numeral_2_eq_2)
  moreover have "unat b div 16 < 16" using unsigned_less [of b, where ?'a = nat] by simp
  moreover have "word_of_nat (16 * (unat b div 16) + unat b mod 16) = b" by simp
  ultimately show ?case using Cons by (simp add: hex_encode_def hex_val_digit del: of_nat_add of_nat_mult)
qed (simp add: hex_encode_def)

theorem engine_signature_verifies_witness:
  "verify_signature \<lparr>sl_hmac = (\<lambda>s m. map (of_nat \<circ> of_char) m), sl_hex_decode = demo_hex_decode, sl_event_body = (\<lambda>_. Err [])\<rparr> ''k''
     (Some (signature_header (\<lambda>s m. hex_encode (map (of_nat \<circ> of_char) m)) ''k'' 17 ''{}'')) ''{}'' = Ok 17"
  using engine_signature_verifies [of "\<lparr>sl_hmac = (\<lambda>s m. map (of_nat \<circ> of_char) m), sl_hex_decode = demo_hex_decode, sl_event_body = (\<lambda>_. Err [])\<rparr>"
    17 "''k''" "''{}''" "''{}''"] by (simp add: demo_hex_inverse)

text \<open>What polling may change of a job: its last status, unless that was terminal, and the last error.\<close>

definition watched :: "job_record \<Rightarrow> job_record \<Rightarrow> bool" where
  "watched j j' \<longleftrightarrow> rc_spec j' = rc_spec j \<and> rc_attempts j' = rc_attempts j \<and> rc_submit j' = rc_submit j
     \<and> rc_indeterminate j' = rc_indeterminate j \<and> rc_replay j' = rc_replay j
     \<and> (case rc_final_status j of Some s \<Rightarrow> if ts_is_terminal s then j' = j else rc_final_status j' \<noteq> None | None \<Rightarrow> True)"

lemma watched_refl [simp]: "watched j j"
  by (simp add: watched_def split: option.splits)

lemma watched_trans: "watched a b \<Longrightarrow> watched b c \<Longrightarrow> watched a c"
  by (auto simp: watched_def split: option.splits if_splits)

lemma watched_accepted: "watched j j' \<Longrightarrow> accepted j' = accepted j \<and> rc_job_id j' = rc_job_id j"
  by (auto simp: watched_def accepted_def rc_job_id_def)

lemma drain_answer_watched: "drain_pending j \<Longrightarrow> watched j (fst (drain_answer r j))"
  by (auto simp: drain_answer_def watched_def drain_pending_def Let_def split: sum.splits option.splits if_splits)

lemma drain_answer_remains: "drain_pending j \<Longrightarrow> drain_pending (fst (drain_answer r j)) = snd (snd (drain_answer r j))"
  using watched_accepted [OF drain_answer_watched, of j r]
  by (cases r; cases "projr r") (auto simp: drain_answer_def drain_pending_def Let_def)

lemma drain_poll_watched: "list_all2 watched jobs (map fst (drain_poll answer jobs))"
  by (auto simp: drain_poll_def list_all2_map2 list_all2_same drain_answer_watched)

lemma drain_poll_remains: "list_ex (snd \<circ> snd) (drain_poll answer jobs) = list_ex drain_pending (map fst (drain_poll answer jobs))"
  by (induction jobs) (auto simp: drain_poll_def drain_answer_remains)

text \<open>A drain that ends well has every accepted job terminal. Whatever the engine answers and however long it takes, draining
  changes nothing of a job but its last status and poll error, never those of a terminal job, and reports that
  the run is drained exactly when no accepted job is left without a terminal status.\<close>

theorem drained_means_terminal:
  "case drain stall hard started progress rounds jobs of
     (e, jobs') \<Rightarrow> list_all2 watched jobs jobs' \<and> (e = Drained) = list_all (\<lambda>j. \<not> drain_pending j) jobs'"
proof (induction rounds arbitrary: progress jobs)
  case Nil
  show ?case by (auto simp: list_all2_same list_all_iff list_ex_iff)
next
  case (Cons r rounds)
  obtain answer now where r: "r = (answer, now)" by (cases r)
  let ?jobs = "map fst (drain_poll answer jobs)"
  have left: "list_ex drain_pending js = (\<not> list_all (\<lambda>j. \<not> drain_pending j) js)" for js by (auto simp: list_all_iff list_ex_iff)
  have trans: "list_all2 watched jobs js" if "list_all2 watched ?jobs js" for js
    using list_all2_trans [OF watched_trans drain_poll_watched that] .
  have idle: "list_all2 watched jobs jobs" by (simp add: list_all2_same)
  obtain e jobs' where rest: "drain stall hard started (if list_ex (fst \<circ> snd) (drain_poll answer jobs) then now else progress) rounds ?jobs = (e, jobs')"
    by fastforce
  have ih: "list_all2 watched ?jobs jobs' \<and> (e = Drained) = list_all (\<lambda>j. \<not> drain_pending j) jobs'"
    using Cons.IH [where progress = "if list_ex (fst \<circ> snd) (drain_poll answer jobs) then now else progress" and jobs = ?jobs] unfolding rest by simp
  show ?case
    using ih trans [of jobs'] drain_poll_watched [of jobs answer] idle drain_poll_remains [of answer jobs]
    by (auto simp: r Let_def rest left split del: if_split split: if_splits)
qed

text \<open>The streak is a run of samples in which the queue never shrank, and it ends where the queue was larger before.\<close>

lemma growth_back_run:
  "growth_back x xs = (k, s) \<Longrightarrow>
   k \<le> length xs \<and> sorted (rev (take (Suc k) (x # xs))) \<and> s = (x # xs) ! k \<and> (k < length xs \<longrightarrow> (x # xs) ! k < xs ! k)"
proof (induction x xs arbitrary: k s rule: growth_back.induct)
  case (2 newer older rest)
  show ?case
  proof (cases "older \<le> newer")
    case True
    with "2.prems" obtain n where n: "growth_back older rest = (n, s)" "k = n + 1" by (auto split: prod.splits)
    from "2.IH" [OF True n(1)] True n(2) show ?thesis by (auto simp: sorted_append dest: in_set_takeD)
  next
    case False
    with "2.prems" show ?thesis by auto
  qed
qed simp

section \<open>The client\<close>

text \<open>What becomes of a request: no answer, a status without a body, or a status and a body (\<open>Null\<close> when it is not JSON).\<close>

datatype http_outcome = SendError string | BodyError nat string | HttpAnswer nat json

definition read_submit :: "http_outcome \<Rightarrow> submit_result" where
  "read_submit r =
     (case r of
        SendError e \<Rightarrow> \<lparr>sr_status = None, sr_job_id = None, sr_replayed = False, sr_error_code = None, sr_transport_error = Some e\<rparr>
      | BodyError status e \<Rightarrow> \<lparr>sr_status = Some status, sr_job_id = None, sr_replayed = False, sr_error_code = None, sr_transport_error = Some e\<rparr>
      | HttpAnswer status v \<Rightarrow>
          \<lparr>sr_status = Some status,
           sr_job_id = (case json_get ''job_id'' v of Some (JStr s) \<Rightarrow> Some s | _ \<Rightarrow> None),
           sr_replayed = (case json_get ''replayed'' v of Some (JBool b) \<Rightarrow> b | _ \<Rightarrow> False),
           sr_error_code = (case Option.bind (json_get ''error'' v) (json_get ''code'') of Some (JStr s) \<Rightarrow> Some s | _ \<Rightarrow> None),
           sr_transport_error = None\<rparr>)"

text \<open>\<open>JobSpec::body\<close>, and the body of a conflicting replay, which asks for one wei more.\<close>

definition spec_body :: "job_spec \<Rightarrow> json" where
  "spec_body s = JObj ([(''chain_id'', JNum (uint (sp_chain_id s))), (''to'', JStr (addr_hex (sp_to s))),
     (''data'', JStr (''0x'' @ hex_encode (sp_data s))), (''value'', JStr (dec_str (unat (sp_value s)))),
     (''webhook'', JObj [(''url'', JStr (sp_webhook_url s))])]
     @ (case sp_gas_limit s of Some g \<Rightarrow> [(''gas_limit'', JNum (uint g))] | None \<Rightarrow> []))"

definition replay_body :: "job_spec \<Rightarrow> json" where
  "replay_body s = (case sp_replay s of ReplayConflict \<Rightarrow> spec_body (s\<lparr>sp_value := sp_value s + 1\<rparr>) | _ \<Rightarrow> spec_body s)"

text \<open>What the engine's answer to a submission is, as the bench hears it.\<close>

definition heard :: "(http_response, api_error) result \<Rightarrow> submit_result" where
  "heard r = (case r of Ok (status, v) \<Rightarrow> read_submit (HttpAnswer status v) | Err e \<Rightarrow> (case into_response e of (status, v) \<Rightarrow> read_submit (HttpAnswer status v)))"

text \<open>The bench hears what the engine says: of a job the store created it hears a 202 with the job's identifier, of a replay a
  200 with the original identifier and the mark of a replay, of a conflicting replay the 409 the idempotency
  check demands, and of a job that could not be stored a 503 without an identifier.\<close>

theorem bench_hears_the_engine:
  "let h = heard (fst (answer_submit call chain_id j r s)) in
   sr_transport_error h = None \<and>
   (case r of
      Ok Created \<Rightarrow> sr_status h = Some 202 \<and> sr_job_id h = Some (uuid_str (nj_id j)) \<and> \<not> sr_replayed h
    | Ok (Replayed original) \<Rightarrow> sr_status h = Some 200 \<and> sr_job_id h = Some (uuid_str original) \<and> sr_replayed h
    | Ok Conflict \<Rightarrow> sr_status h = Some 409 \<and> sr_job_id h = None \<and> sr_error_code h = Some ''idempotency_conflict''
    | Err _ \<Rightarrow> sr_status h = Some 503 \<and> sr_job_id h = None)"
  by (auto simp: heard_def answer_submit_def read_submit_def into_response_def api_unavailable_def Let_def
    split: sum.split insert_outcome.split ingest_error.split)

end
