(* ===== verification/Spec2Isabelle.thy ===== *)
theory Spec2Isabelle
  imports Job_Queue Ledger Chain_Kinds Store_Events Worker Limiter Leader Lease Balances Boot Bench_Watch
begin

text \<open>
  gum-engine sends transactions for its callers. A job comes in over HTTP, is stored in Postgres, waits in
  the queue of its chain, is taken by the worker of a (signer, chain) pair, is signed, recorded and
  broadcast at the next nonce of the pair, is driven to a receipt, and is reported to the caller by
  webhooks. This development models the engine (\<^verbatim>\<open>src/crates/gum-engine/src\<close>) and proves what makes it safe,
  and models the judging half of the bench beside it (\<^verbatim>\<open>src/crates/gum-bench/src\<close>), which watches a running
  engine from the outside.
  Every theory opens with the files it models and how its state corresponds to the code.

  \<^bold>\<open>Foundations.\<close> \<open>Prelude\<close> has the machine integers of the sources, saturating arithmetic, results, JSON and
  the fact collections; \<open>Sql\<close> the statements used on tables, which are lists of rows; \<open>Btree\<close> the ordered map;
  \<open>Faults\<close> the ways a store call can fail: not executed, executed with the answer lost, or answered.

  \<^bold>\<open>Data and rules.\<close> \<open>Domain\<close> (domain.rs, error.rs): statuses, attempts, errors and their texts. \<open>Config\<close>
  (config.rs): the configuration blocks, overrides and validation. \<open>Adapter\<close>, \<open>Chain_Kinds\<close> (chain/adapter.rs,
  chain/kinds, chain/registry.rs): fees, replacements, error classification and costs per kind of chain.

  \<^bold>\<open>Memory.\<close> \<open>Job_Queue\<close> (queue.rs), \<open>Ledger\<close> (funds/ledger.rs), \<open>Stats\<close> (stats.rs, pipeline/accounting.rs),
  \<open>Pair_State\<close> (the pair of engine.rs and the operator actions of api.rs), \<open>Chain_Ctx\<close> (chain/mod.rs).

  \<^bold>\<open>Store.\<close> \<open>Store_Schema\<close> (migrations), \<open>Store_Misc\<close>, \<open>Store_Jobs\<close>, \<open>Store_Attempts\<close>, \<open>Store_Outbox\<close> (store/*.rs)
  model every statement. \<open>Nonce_Protocol\<close> is the abstract protocol of owners, nonces and attempts;
  \<open>Store_Refinement\<close> and \<open>Store_Simulation\<close> show that every operation of the store is a step of it.
  \<open>Store_Theorems\<close>, \<open>Store_Books\<close> and \<open>Store_Events\<close> read off what holds in every reachable database: no job is
  mined twice, a deposed leader is fenced, final states are final, the gas ledger is exact, nonces above the
  mark are free, the webhook log mirrors the status.

  \<^bold>\<open>Tasks.\<close> \<open>Runtime\<close> is what the tasks of one pair work on. \<open>Tx_Driver\<close> (pipeline/tx.rs) signs, binds,
  broadcasts, polls and escalates; \<open>Tx_Theorems\<close> shows that only recorded attempts are broadcast, that the
  bind loop ends, when a nonce is given up, and that escalation is finite; \<open>Tx_Frame\<close> is the interface through
  which other theories use the driver: what its two statements respect, a whole drive respects. \<open>Settle\<close>
  (pipeline/settle.rs) is the write-behind; \<open>Monitor\<close> (chain/monitor.rs) declares outages; \<open>Confirm\<close>
  (chain/confirm.rs) verifies inclusions; \<open>Recovery\<close> (pipeline/recovery.rs) brings a pair back in line with the
  chain; \<open>Funds\<close> and \<open>Treasury\<close> (funds/treasury.rs) fund the signers; \<open>Balances\<close> (funds/monitor.rs) reconciles the
  ledgers with the chain and lifts funding pauses only with funds; \<open>Worker\<close> (pipeline/worker.rs) composes all
  of it.

  \<^bold>\<open>Edges.\<close> \<open>Rpc_Client\<close> (rpc/client.rs, rpc/credits.rs) is the call with its retries, breaker and credit meter, and
  ends after a bounded number of requests; \<open>Limiter\<close> (rpc/limiter.rs) is the token bucket and keeps to its rate;
  \<open>Webhook\<close> (webhook.rs) validates URLs and delivers events, and marks none delivered or dead without cause;
  \<open>Ingest\<close> (store/batcher.rs) is the group commit, whose good answers are backed by rows; \<open>Api\<close> (api.rs) is the
  handlers, with submission as the composition of validation, ingest and admission; \<open>Leader\<close> (leader.rs) rebuilds
  counters and queues exactly, and brings chains up; \<open>Lease\<close> (store/lease.rs) takes and loses leadership, and of all
  processes that believe to lead only one can bind; \<open>Boot\<close> (main.rs, signer.rs, telemetry.rs) opens the chains of a
  validated configuration, loads the signer pool and throttles repeating lines.

  \<^bold>\<open>Bench.\<close> \<open>Bench_Job\<close> (loadgen.rs, oracle.rs) makes and posts jobs that can be attributed on the chain;
  \<open>Bench_Verdict\<close> (verdict.rs) is the verdict, and shows what its silence vouches for: every accepted job ended as
  its kind must, exactly once, as the API says and as the counters count; \<open>Bench_Watch\<close> (sink.rs, tracker.rs,
  api.rs) receives webhooks, drains a run and reads answers, and shows that the receiver accepts what the engine
  signs and hears what the engine answers.

  \<^bold>\<open>How the world enters.\<close> What the node, the signer, the key service, the clock and the store connection
  answer is an argument: a record of answers per turn, a list of turns, or a list of faults. A loop that runs
  until the world lets it end takes such a list and says whether it ended before the list did; the theorems
  hold for every list, so for every length of run. The bind loop is modelled with its own bound of six rounds
  and is shown to return within it. Integers have the width of the source; \<open>+\<close> wraps as release builds do.

  \<^bold>\<open>Not modelled.\<close> Tokio's scheduling between tasks (the tasks of a pair are modelled one at a time, with what
  others may do meanwhile as arguments), SQL isolation below the statement (every operation is one
  transaction), metrics and log lines, TLS and HTTP transport, the key service, the byte encodings of alloy, the
  wiring of tasks in main.rs and the read-only JSON views of api.rs that only print records. Of the bench, the
  parts that start processes, forward traffic, pace load, summarise latencies in floating point or stand in for
  the engine in its own tests (rig.rs, proxy.rs, keys.rs, report.rs, compare.rs, fake_engine.rs, scenarios).
\<close>

end
